theory Spec2Isabelle
  imports Complex_Main
begin

section \<open>Failures\<close>

text \<open>
  The program is a single C++ file that drives two external libraries, deal.II and preCICE.
  Every way in which a call can end abnormally is a value of the type below.  The first
  three constructors are the assertions written in the file itself
  (\<^verbatim>\<open>Assert(dim > 1, ExcNotImplemented())\<close>,
  \<^verbatim>\<open>Assert(dim == precice.getDimensions(), ExcInternalError())\<close> and
  \<^verbatim>\<open>AssertIndexRange(i, size)\<close>); the next three are checks that live inside the
  libraries' containers (the range check of \<^verbatim>\<open>Vector::operator[]\<close>, dereferencing an
  iterator that stands at \<^verbatim>\<open>end()\<close>, writing a block into a buffer that is too short);
  \<open>External e\<close> is any failure \<open>e\<close> raised inside a library call.
\<close>

datatype 'e failure =
    ExcNotImplemented
  | ExcInternalError
  | ExcIndexRange nat nat
  | VectorIndexRange nat nat
  | IteratorPastEnd
  | BufferOverrun
  | External 'e

text \<open>Sequencing: the first failure ends the computation, nothing catches it.\<close>

definition bindE :: "'x + 'a \<Rightarrow> ('a \<Rightarrow> 'x + 'b) \<Rightarrow> 'x + 'b" where
  "bindE m f = (case m of Inl x \<Rightarrow> Inl x | Inr a \<Rightarrow> f a)"

text \<open>A library call: its failure \<open>e\<close> surfaces as \<open>External e\<close>.\<close>

definition ext :: "'e + 'a \<Rightarrow> 'e failure + 'a" where
  "ext m = (case m of Inl e \<Rightarrow> Inl (External e) | Inr a \<Rightarrow> Inr a)"

section \<open>The Adapter\<close>

text \<open>
  \<^verbatim>\<open>struct CouplingParamters\<close>: five \<^verbatim>\<open>const std::string\<close> members with default
  member initialisers.
\<close>

record CouplingParamters =
  config_file :: string
  participant_name :: string
  mesh_name :: string
  write_data_name :: string
  read_data_name :: string

definition CouplingParamters_default :: CouplingParamters where
  "CouplingParamters_default =
     \<lparr> config_file = ''precice-config.xml'',
       participant_name = ''laplace-solver'',
       mesh_name = ''original-mesh'',
       write_data_name = ''dummy'',
       read_data_name = ''boundary-data'' \<rparr>"

text \<open>
  \<^verbatim>\<open>class Adapter\<close>.  \<open>'p\<close> is the state of the \<^verbatim>\<open>precice::SolverInterface\<close>
  member.  A \<^verbatim>\<open>Vector<double>\<close> and a \<^verbatim>\<open>std::vector<double>\<close> are lists; the
  adapter only copies \<^verbatim>\<open>double\<close> values and writes the constant \<open>0\<close>, so the values are
  taken as reals.  The \<^verbatim>\<open>IndexSet coupling_dofs\<close> is the list of its elements in the order
  its iterator visits them.
\<close>

record 'p Adapter =
  precice :: 'p
  deal_boundary_interface_id :: nat
  adapter_mesh_name :: string
  adapter_read_data_name :: string
  adapter_write_data_name :: string
  mesh_id :: int
  read_data_id :: int
  write_data_id :: int
  n_interface_nodes :: int
  coupling_dofs :: "nat list"
  interface_nodes_ids :: "int list"
  read_data :: "real list"
  write_data :: "real list"

subsection \<open>\<^verbatim>\<open>format_deal_to_precice\<close>\<close>

text \<open>
  The loop \<^verbatim>\<open>for (int i = 0; i < n_interface_nodes; ++i)\<close> with the iterator
  \<^verbatim>\<open>dof_component\<close>, which starts at \<^verbatim>\<open>coupling_dofs.begin()\<close>; the iterator is the
  list \<open>it\<close> of the elements it has not visited yet.
\<close>

function deal_to_precice_loop ::
  "int \<Rightarrow> real list \<Rightarrow> nat \<Rightarrow> nat list \<Rightarrow> real list \<Rightarrow> 'e failure + real list" where
  "deal_to_precice_loop n deal_to_precice i it wd =
     (if int i < n then
        (if \<not> i < length wd then Inl (ExcIndexRange i (length wd))
         else case it of
            [] \<Rightarrow> Inl IteratorPastEnd
          | d # it' \<Rightarrow>
              if \<not> d < length deal_to_precice
              then Inl (VectorIndexRange d (length deal_to_precice))
              else deal_to_precice_loop n deal_to_precice (Suc i) it'
                     (wd[i := deal_to_precice ! d]))
      else Inr wd)"
  by pat_completeness auto
termination
  by (relation "measure (\<lambda>(n, v, i, it, wd). nat (n - int i))") auto

definition format_deal_to_precice ::
  "'p Adapter \<Rightarrow> real list \<Rightarrow> 'e failure + 'p Adapter" where
  "format_deal_to_precice a deal_to_precice =
     bindE (deal_to_precice_loop (n_interface_nodes a) deal_to_precice 0
              (coupling_dofs a) (write_data a))
       (\<lambda>wd. Inr (a\<lparr>write_data := wd\<rparr>))"

subsection \<open>\<^verbatim>\<open>format_precice_to_deal\<close>\<close>

function precice_to_deal_loop ::
  "int \<Rightarrow> real list \<Rightarrow> nat \<Rightarrow> nat list \<Rightarrow> real list \<Rightarrow> 'e failure + real list" where
  "precice_to_deal_loop n rd i it precice_to_deal =
     (if int i < n then
        (if \<not> i < length rd then Inl (ExcIndexRange i (length rd))
         else case it of
            [] \<Rightarrow> Inl IteratorPastEnd
          | d # it' \<Rightarrow>
              if \<not> d < length precice_to_deal
              then Inl (VectorIndexRange d (length precice_to_deal))
              else precice_to_deal_loop n rd (Suc i) it'
                     (precice_to_deal[d := rd ! i]))
      else Inr precice_to_deal)"
  by pat_completeness auto
termination
  by (relation "measure (\<lambda>(n, rd, i, it, v). nat (n - int i))") auto

text \<open>
  The member function is \<^verbatim>\<open>const\<close>: it returns the adapter it was called on together
  with the new contents of its output argument.
\<close>

definition format_precice_to_deal ::
  "'p Adapter \<Rightarrow> real list \<Rightarrow> 'e failure + ('p Adapter \<times> real list)" where
  "format_precice_to_deal a precice_to_deal =
     bindE (precice_to_deal_loop (n_interface_nodes a) (read_data a) 0
              (coupling_dofs a) precice_to_deal)
       (\<lambda>v. Inr (a, v))"


subsection \<open>The coupling library\<close>

text \<open>
  \<^verbatim>\<open>precice::SolverInterface\<close> is not part of the repository.  Its member functions that
  the adapter calls are the fields of the record below, over an arbitrary state \<open>'p\<close> of
  the interface object; every call may fail with a value of type \<open>'e\<close>.  A call that
  fills a caller's buffer (\<^verbatim>\<open>setMeshVertices\<close> writes the vertex ids,
  \<^verbatim>\<open>readBlockScalarData\<close> writes the values) returns the entry it writes at each
  position.  \<open>actionWriteInitialData\<close> is the string constant
  \<^verbatim>\<open>precice::constants::actionWriteInitialData()\<close>.
\<close>

record ('p, 'e) precice_api =
  SolverInterface_new :: "string \<Rightarrow> string \<Rightarrow> int \<Rightarrow> int \<Rightarrow> 'e + 'p"
  getDimensions :: "'p \<Rightarrow> 'e + int"
  getMeshID :: "'p \<Rightarrow> string \<Rightarrow> 'e + int"
  hasData :: "'p \<Rightarrow> string \<Rightarrow> int \<Rightarrow> 'e + bool"
  getDataID :: "'p \<Rightarrow> string \<Rightarrow> int \<Rightarrow> 'e + int"
  setMeshVertices :: "'p \<Rightarrow> int \<Rightarrow> int \<Rightarrow> real list \<Rightarrow> 'e + 'p \<times> (nat \<Rightarrow> int)"
  precice_initialize :: "'p \<Rightarrow> 'e + 'p"
  actionWriteInitialData :: string
  isActionRequired :: "'p \<Rightarrow> string \<Rightarrow> 'e + bool"
  writeBlockScalarData :: "'p \<Rightarrow> int \<Rightarrow> int \<Rightarrow> int list \<Rightarrow> real list \<Rightarrow> 'e + 'p"
  markActionFulfilled :: "'p \<Rightarrow> string \<Rightarrow> 'e + 'p"
  initializeData :: "'p \<Rightarrow> 'e + 'p"
  isReadDataAvailable :: "'p \<Rightarrow> 'e + bool"
  readBlockScalarData :: "'p \<Rightarrow> int \<Rightarrow> int \<Rightarrow> int list \<Rightarrow> 'e + (nat \<Rightarrow> real)"
  isWriteDataRequired :: "'p \<Rightarrow> real \<Rightarrow> 'e + bool"
  precice_advance :: "'p \<Rightarrow> real \<Rightarrow> 'e + 'p"
  isCouplingOngoing :: "'p \<Rightarrow> 'e + bool"
  finalize :: "'p \<Rightarrow> 'e + 'p"

text \<open>
  A library call that writes \<open>n\<close> entries through a pointer to the first element of a
  \<^verbatim>\<open>std::vector\<close>.
\<close>

definition write_block :: "nat \<Rightarrow> (nat \<Rightarrow> 'a) \<Rightarrow> 'a list \<Rightarrow> 'e failure + 'a list" where
  "write_block n f buf =
     (if n \<le> length buf then Inr (map f [0..<n] @ drop n buf) else Inl BufferOverrun)"

text \<open>\<^verbatim>\<open>std::vector::resize(n, x)\<close>.\<close>

definition resize :: "nat \<Rightarrow> 'a \<Rightarrow> 'a list \<Rightarrow> 'a list" where
  "resize n x xs = take n xs @ replicate (n - length xs) x"

subsection \<open>The map of boundary values\<close>

text \<open>
  \<^verbatim>\<open>std::map<types::global_dof_index, double>\<close>: the list of its entries in the order
  of iteration, which is the increasing order of the keys.
\<close>

type_synonym dof_map = "(nat \<times> real) list"

text \<open>\<^verbatim>\<open>std::map::insert\<close>: an entry whose key is present is left as it is.\<close>

fun map_insert :: "nat \<Rightarrow> real \<Rightarrow> dof_map \<Rightarrow> dof_map" where
  "map_insert k v [] = [(k, v)]"
| "map_insert k v ((k', v') # m) =
     (if k < k' then (k, v) # (k', v') # m
      else if k = k' then (k', v') # m
      else (k', v') # map_insert k v m)"

text \<open>\<^verbatim>\<open>data[k] = v\<close>: \<^verbatim>\<open>operator[]\<close> finds or creates the entry, the assignment sets it.\<close>

fun map_assign :: "nat \<Rightarrow> real \<Rightarrow> dof_map \<Rightarrow> dof_map" where
  "map_assign k v [] = [(k, v)]"
| "map_assign k v ((k', v') # m) =
     (if k < k' then (k, v) # (k', v') # m
      else if k = k' then (k, v) # m
      else (k', v') # map_assign k v m)"

definition map_lookup :: "dof_map \<Rightarrow> nat \<Rightarrow> real option" where
  "map_lookup m k = map_of m k"

definition map_keys :: "dof_map \<Rightarrow> nat list" where
  "map_keys m = map fst m"

text \<open>The class invariant of \<^verbatim>\<open>std::map\<close>: the keys increase strictly.\<close>

definition std_map :: "dof_map \<Rightarrow> bool" where
  "std_map m = sorted_wrt (<) (map_keys m)"

text \<open>
  The loop that stores the values read from the coupling library in the map,
  \<^verbatim>\<open>data[dof_component->first] = read_data[i]\<close>, with the iterator
  \<^verbatim>\<open>dof_component\<close> starting at \<^verbatim>\<open>data.begin()\<close>; \<open>pos\<close> is the position of the
  iterator in the map.
\<close>

function read_data_to_map_loop ::
  "int \<Rightarrow> real list \<Rightarrow> nat \<Rightarrow> nat \<Rightarrow> dof_map \<Rightarrow> 'e failure + dof_map" where
  "read_data_to_map_loop n rd i pos data =
     (if int i < n then
        (if \<not> i < length rd then Inl (ExcIndexRange i (length rd))
         else if \<not> pos < length data then Inl IteratorPastEnd
         else read_data_to_map_loop n rd (Suc i) (Suc pos)
                (map_assign (fst (data ! pos)) (rd ! i) data))
      else Inr data)"
  by pat_completeness auto
termination
  by (relation "measure (\<lambda>(n, rd, i, pos, data). nat (n - int i))") auto


section \<open>The mesh\<close>

text \<open>
  Modelled from the library documentation: \<^verbatim>\<open>Triangulation<dim>\<close>,
  \<^verbatim>\<open>GridGenerator::hyper_cube\<close> and \<^verbatim>\<open>Triangulation::refine_global\<close> belong to
  deal.II and are not part of the repository; \<open>dimension\<close> is the template parameter
  \<^verbatim>\<open>dim\<close>.  \<^verbatim>\<open>hyper_cube(tria, left, right)\<close>
  produces the single cell \<open>[left, right]\<^sup>d\<^sup>i\<^sup>m\<close> and, without colorizing, gives every
  boundary face the boundary id \<open>0\<close>; \<^verbatim>\<open>refine_global(n)\<close> bisects every active cell in
  every coordinate direction, \<open>n\<close> times, and a child face inherits the boundary id of the
  face it lies on, while a face in the interior carries
  \<^verbatim>\<open>numbers::internal_face_boundary_id\<close>.

  A cell of such a mesh is a box: one interval per coordinate direction.  A face of a cell
  is the box with one interval collapsed to its lower or upper end; the same face seen from
  the two cells that share it is the same value.  All coordinates that occur are
  \<open>-1\<close>, \<open>1\<close> and midpoints of earlier ones, which a \<^verbatim>\<open>double\<close> holds exactly.

  A refined cell stays in the mesh, with its faces and their boundary ids, and is no longer
  active: \<open>cells\<close> lists the cells of all levels, the coarsest first
  (\<^verbatim>\<open>Triangulation::n_cells\<close> counts them), \<open>active_cells\<close> those that have no
  children (\<^verbatim>\<open>Triangulation::n_active_cells\<close>).
\<close>

type_synonym cell = "(real \<times> real) list"

datatype face = Face (normal_direction: nat) (extent: "(real \<times> real) list")

record Triangulation =
  domain :: cell
  cells :: "cell list"
  active_cells :: "cell list"
  boundary_ids :: "face \<Rightarrow> nat"

definition internal_face_boundary_id :: nat where
  "internal_face_boundary_id = 2 ^ 32 - 1"

text \<open>\<^verbatim>\<open>GeometryInfo<dim>::face_indices()\<close>.\<close>

definition face_indices :: "nat \<Rightarrow> nat list" where
  "face_indices dimension = [0..<2 * dimension]"

text \<open>
  \<^verbatim>\<open>cell->face(f)\<close>: the faces \<open>2 d\<close> and \<open>2 d + 1\<close> are the lower and the upper face
  in direction \<open>d\<close>.
\<close>

definition cell_face :: "cell \<Rightarrow> nat \<Rightarrow> face" where
  "cell_face c f =
     (let d = f div 2;
          x = (if even f then fst (c ! d) else snd (c ! d))
      in Face d (c[d := (x, x)]))"

text \<open>\<^verbatim>\<open>face->center()\<close>.\<close>

definition center :: "face \<Rightarrow> real list" where
  "center f = map (\<lambda>(lo, hi). (lo + hi) / 2) (extent f)"

text \<open>\<^verbatim>\<open>face->at_boundary()\<close>: the face lies in the boundary of the meshed box.\<close>

definition at_boundary :: "Triangulation \<Rightarrow> face \<Rightarrow> bool" where
  "at_boundary T f =
     (let d = normal_direction f
      in d < length (domain T) \<and> d < length (extent f) \<and>
         (fst (extent f ! d) = fst (domain T ! d) \<or> fst (extent f ! d) = snd (domain T ! d)))"

text \<open>\<^verbatim>\<open>face->boundary_id()\<close> and \<^verbatim>\<open>face->set_boundary_id(id)\<close>.\<close>

definition boundary_id :: "Triangulation \<Rightarrow> face \<Rightarrow> nat" where
  "boundary_id T f = boundary_ids T f"

definition set_boundary_id :: "face \<Rightarrow> nat \<Rightarrow> Triangulation \<Rightarrow> Triangulation" where
  "set_boundary_id f b T = T\<lparr>boundary_ids := (boundary_ids T)(f := b)\<rparr>"

definition Triangulation_empty :: Triangulation where
  "Triangulation_empty =
     \<lparr> domain = [], cells = [], active_cells = [],
       boundary_ids = (\<lambda>f. internal_face_boundary_id) \<rparr>"

definition hyper_cube :: "nat \<Rightarrow> real \<Rightarrow> real \<Rightarrow> Triangulation" where
  "hyper_cube dimension left right =
     (let T = \<lparr> domain = replicate dimension (left, right),
                cells = [replicate dimension (left, right)],
                active_cells = [replicate dimension (left, right)],
                boundary_ids = (\<lambda>f. internal_face_boundary_id) \<rparr>
      in T\<lparr>boundary_ids := (\<lambda>f. if at_boundary T f then 0 else internal_face_boundary_id)\<rparr>)"

fun children :: "cell \<Rightarrow> cell list" where
  "children [] = [[]]"
| "children ((lo, hi) # c) =
     concat (map (\<lambda>rest. [(lo, (lo + hi) / 2) # rest, ((lo + hi) / 2, hi) # rest])
               (children c))"

fun refine_cells :: "nat \<Rightarrow> cell list \<Rightarrow> cell list" where
  "refine_cells 0 cs = cs"
| "refine_cells (Suc n) cs = refine_cells n (concat (map children cs))"

text \<open>The cells of the \<open>n\<close> levels that \<open>n\<close> refinements of the cells \<open>cs\<close> add.\<close>

fun refined_levels :: "nat \<Rightarrow> cell list \<Rightarrow> cell list" where
  "refined_levels 0 cs = []"
| "refined_levels (Suc n) cs =
     concat (map children cs) @ refined_levels n (concat (map children cs))"

definition refine_global :: "nat \<Rightarrow> Triangulation \<Rightarrow> Triangulation" where
  "refine_global n T =
     T\<lparr>cells := cells T @ refined_levels n (active_cells T),
       active_cells := refine_cells n (active_cells T)\<rparr>"

text \<open>A cell whose intervals are not empty.\<close>

definition proper :: "cell \<Rightarrow> bool" where
  "proper c = list_all (\<lambda>(lo, hi). lo \<le> hi) c"

text \<open>The points of a cell, and the region that the active cells cover.\<close>

definition cell_points :: "cell \<Rightarrow> real list set" where
  "cell_points c = listset (map (\<lambda>(lo, hi). {lo..hi}) c)"

definition covered :: "Triangulation \<Rightarrow> real list set" where
  "covered T = (\<Union>c\<in>set (active_cells T). cell_points c)"

text \<open>
  A unit square: a square with sides of length one, wherever it lies (the sides parallel
  to the axes, as those of every cell of the mesh are).
\<close>

definition unit_square :: "real list set \<Rightarrow> bool" where
  "unit_square S = (\<exists>x y. S = cell_points [(x, x + 1), (y, y + 1)])"

section \<open>The finite-element library\<close>

text \<open>
  The deal.II calls that the program makes on objects other than the mesh: \<open>'h\<close> is the
  state of the \<^verbatim>\<open>DoFHandler\<close>, \<open>'m\<close> that of the sparsity pattern with the system
  matrix, \<open>'f\<close> the contents of a written file, \<open>'e\<close> a failure.  A \<^verbatim>\<open>DoFHandler\<close>
  refers to its triangulation, so a call that takes the handler receives the mesh too.
  \<open>assemble_cells\<close> is the loop over the cells in \<^verbatim>\<open>assemble_system\<close>, which adds the
  cell matrices and right-hand sides (floating-point quadrature) to the system.
  \<open>MPI_InitFinalize\<close> is the constructor of \<^verbatim>\<open>Utilities::MPI::MPI_InitFinalize\<close>,
  applied to the greatest number of threads that the library may use.
\<close>

record ('h, 'm, 'f, 'e) dealii_api =
  MPI_InitFinalize :: "nat \<Rightarrow> 'e + unit"
  this_mpi_process :: int
  n_mpi_processes :: int
  DoFHandler_new :: 'h
  SparseMatrix_new :: 'm
  distribute_dofs :: "'h \<Rightarrow> Triangulation \<Rightarrow> nat \<Rightarrow> 'e + 'h"
  n_dofs :: "'h \<Rightarrow> nat"
  make_sparsity_pattern :: "'h \<Rightarrow> Triangulation \<Rightarrow> 'e + 'm"
  extract_boundary_dofs :: "'h \<Rightarrow> Triangulation \<Rightarrow> nat set \<Rightarrow> 'e + nat list"
  map_dofs_to_support_points :: "'h \<Rightarrow> Triangulation \<Rightarrow> 'e + (nat \<Rightarrow> nat \<Rightarrow> real)"
  assemble_cells ::
    "'h \<Rightarrow> Triangulation \<Rightarrow> (real list \<Rightarrow> real) \<Rightarrow> 'm \<Rightarrow> real list \<Rightarrow> 'e + 'm \<times> real list"
  interpolate_boundary_values ::
    "'h \<Rightarrow> Triangulation \<Rightarrow> nat \<Rightarrow> (real list \<Rightarrow> real) \<Rightarrow> 'e + dof_map"
  apply_boundary_values ::
    "dof_map \<Rightarrow> 'm \<Rightarrow> real list \<Rightarrow> real list \<Rightarrow> 'e + 'm \<times> real list \<times> real list"
  SolverCG_solve :: "nat \<Rightarrow> real \<Rightarrow> 'm \<Rightarrow> real list \<Rightarrow> real list \<Rightarrow> 'e + real list"
  write_vtk :: "'h \<Rightarrow> Triangulation \<Rightarrow> real list \<Rightarrow> 'e + 'f"


section \<open>The member functions of the Adapter\<close>

text \<open>
  The constructor: the coupling interface is created from the participant name and the
  configuration file of the parameters and from the rank and size of the MPI communicator;
  the three names are copied; the ids start at \<open>-1\<close> and the containers are empty.
\<close>

definition Adapter_new ::
  "('p, 'e) precice_api \<Rightarrow> ('h, 'm, 'f, 'e) dealii_api \<Rightarrow> CouplingParamters \<Rightarrow> nat \<Rightarrow>
     'e failure + 'p Adapter" where
  "Adapter_new P D parameters boundary_interface_id =
     bindE (ext (SolverInterface_new P (participant_name parameters) (config_file parameters)
                   (this_mpi_process D) (n_mpi_processes D)))
       (\<lambda>p. Inr \<lparr> precice = p,
                   deal_boundary_interface_id = boundary_interface_id,
                   adapter_mesh_name = mesh_name parameters,
                   adapter_read_data_name = read_data_name parameters,
                   adapter_write_data_name = write_data_name parameters,
                   mesh_id = -1, read_data_id = -1, write_data_id = -1,
                   n_interface_nodes = -1,
                   coupling_dofs = [],
                   interface_nodes_ids = [],
                   read_data = [],
                   write_data = [] \<rparr>)"

text \<open>
  The loop of \<^verbatim>\<open>initialize\<close> that enters every coupling dof in the map,
  \<^verbatim>\<open>for (auto i : coupling_dofs) data.insert(std::pair(i, 0))\<close>.
\<close>

definition insert_coupling_dofs :: "nat list \<Rightarrow> dof_map \<Rightarrow> dof_map" where
  "insert_coupling_dofs dofs data = foldl (\<lambda>m i. map_insert i 0 m) data dofs"

text \<open>
  The loop of \<^verbatim>\<open>initialize\<close> that lays the support points of the coupling dofs out
  as \<open>[x0, y0, x1, y1, \<dots>]\<close>; \<open>node_position_iterator\<close> counts the dofs done.
\<close>

definition interface_positions ::
  "nat \<Rightarrow> (nat \<Rightarrow> nat \<Rightarrow> real) \<Rightarrow> nat list \<Rightarrow> real list \<Rightarrow> real list" where
  "interface_positions dimension support_points dofs positions =
     snd (foldl
       (\<lambda>(node_position_iterator, ps) element.
          (Suc node_position_iterator,
           foldl (\<lambda>ps i. ps[node_position_iterator * dimension + i := support_points element i])
             ps [0..<dimension]))
       (0, positions) dofs)"

text \<open>
  The block that ends both \<^verbatim>\<open>initialize\<close> and \<^verbatim>\<open>advance\<close>, with the same text in
  both: if read data is available it is read into \<^verbatim>\<open>read_data\<close>, stored in the map
  and written into the output vector.
\<close>

definition read_coupling_data ::
  "('p, 'e) precice_api \<Rightarrow> 'p Adapter \<Rightarrow> real list \<Rightarrow> dof_map \<Rightarrow>
     'e failure + ('p Adapter \<times> real list \<times> dof_map)" where
  "read_coupling_data P a precice_to_deal data =
     bindE (ext (isReadDataAvailable P (precice a))) (\<lambda>available.
       if available then
         bindE (ext (readBlockScalarData P (precice a) (read_data_id a) (n_interface_nodes a)
                       (interface_nodes_ids a))) (\<lambda>values.
         bindE (write_block (nat (n_interface_nodes a)) values (read_data a)) (\<lambda>rd.
         let a = a\<lparr>read_data := rd\<rparr> in
         bindE (read_data_to_map_loop (n_interface_nodes a) (read_data a) 0 0 data) (\<lambda>data.
         bindE (format_precice_to_deal a precice_to_deal) (\<lambda>(a, precice_to_deal).
         Inr (a, precice_to_deal, data)))))
       else Inr (a, precice_to_deal, data))"

text \<open>
  \<^verbatim>\<open>Adapter::initialize\<close>, in the four blocks that its comments set apart.  The first
  block gets the ids from the coupling library and stores them in the adapter.
\<close>

definition initialize_ids ::
  "('p, 'e) precice_api \<Rightarrow> 'p Adapter \<Rightarrow> 'e failure + 'p Adapter" where
  "initialize_ids P a =
     bindE (ext (getMeshID P (precice a) (adapter_mesh_name a))) (\<lambda>id.
     let a = a\<lparr>mesh_id := id\<rparr> in
     bindE (ext (hasData P (precice a) (adapter_read_data_name a) (mesh_id a))) (\<lambda>has_read.
     bindE (if has_read
            then bindE (ext (getDataID P (precice a) (adapter_read_data_name a) (mesh_id a)))
                   (\<lambda>id. Inr (a\<lparr>read_data_id := id\<rparr>))
            else Inr a) (\<lambda>a.
     bindE (ext (hasData P (precice a) (adapter_write_data_name a) (mesh_id a))) (\<lambda>has_write.
     if has_write
     then bindE (ext (getDataID P (precice a) (adapter_write_data_name a) (mesh_id a)))
            (\<lambda>id. Inr (a\<lparr>write_data_id := id\<rparr>))
     else Inr a))))"

text \<open>
  The second block extracts the coupling dofs, enters them in the map, sizes the
  containers, passes the positions of the interface nodes to the coupling library and
  initialises it.  The line printed to \<^verbatim>\<open>std::cout\<close> is left out.
\<close>

definition initialize_mesh ::
  "('p, 'e) precice_api \<Rightarrow> ('h, 'm, 'f, 'e) dealii_api \<Rightarrow> nat \<Rightarrow> 'p Adapter \<Rightarrow>
     'h \<Rightarrow> Triangulation \<Rightarrow> dof_map \<Rightarrow> 'e failure + ('p Adapter \<times> dof_map)" where
  "initialize_mesh P D dimension a dof_handler tria data =
     bindE (ext (extract_boundary_dofs D dof_handler tria {deal_boundary_interface_id a}))
       (\<lambda>dofs.
     let a = a\<lparr>coupling_dofs := dofs\<rparr>;
         data = insert_coupling_dofs (coupling_dofs a) data;
         a = a\<lparr>n_interface_nodes := int (length (coupling_dofs a))\<rparr>;
         interface_nodes_positions =
           replicate (dimension * nat (n_interface_nodes a)) (0 :: real);
         a = a\<lparr>write_data := resize (nat (n_interface_nodes a)) 0 (write_data a)\<rparr>;
         a = a\<lparr>read_data := resize (nat (n_interface_nodes a)) 0 (read_data a)\<rparr>;
         a = a\<lparr>interface_nodes_ids :=
                 resize (nat (n_interface_nodes a)) 0 (interface_nodes_ids a)\<rparr>
     in
     bindE (ext (map_dofs_to_support_points D dof_handler tria)) (\<lambda>support_points.
     let interface_nodes_positions =
           interface_positions dimension support_points (coupling_dofs a)
             interface_nodes_positions
     in
     bindE (ext (setMeshVertices P (precice a) (mesh_id a) (n_interface_nodes a)
                   interface_nodes_positions)) (\<lambda>(p, ids).
     bindE (write_block (nat (n_interface_nodes a)) ids (interface_nodes_ids a)) (\<lambda>ids.
     let a = a\<lparr>precice := p, interface_nodes_ids := ids\<rparr> in
     bindE (ext (precice_initialize P (precice a))) (\<lambda>p.
     Inr (a\<lparr>precice := p\<rparr>, data))))))"

text \<open>The third block writes the initial data if the coupling library requires it.\<close>

definition write_initial_data ::
  "('p, 'e) precice_api \<Rightarrow> 'p Adapter \<Rightarrow> real list \<Rightarrow> 'e failure + 'p Adapter" where
  "write_initial_data P a deal_to_precice =
     bindE (ext (isActionRequired P (precice a) (actionWriteInitialData P))) (\<lambda>required.
     if required
     then bindE (format_deal_to_precice a deal_to_precice) (\<lambda>a.
          bindE (ext (writeBlockScalarData P (precice a) (write_data_id a)
                        (n_interface_nodes a) (interface_nodes_ids a) (write_data a)))
            (\<lambda>p.
          bindE (ext (markActionFulfilled P p (actionWriteInitialData P))) (\<lambda>p.
          Inr (a\<lparr>precice := p\<rparr>))))
     else Inr a)"

text \<open>
  The whole function: the two assertions, the three blocks, \<^verbatim>\<open>initializeData\<close> and
  the block that reads the coupling data.
\<close>

definition Adapter_initialize ::
  "('p, 'e) precice_api \<Rightarrow> ('h, 'm, 'f, 'e) dealii_api \<Rightarrow> nat \<Rightarrow> 'p Adapter \<Rightarrow>
     'h \<Rightarrow> Triangulation \<Rightarrow> real list \<Rightarrow> real list \<Rightarrow> dof_map \<Rightarrow>
     'e failure + ('p Adapter \<times> real list \<times> dof_map)" where
  "Adapter_initialize P D dimension a dof_handler tria deal_to_precice precice_to_deal data =
     (if \<not> 1 < dimension then Inl ExcNotImplemented else
      bindE (ext (getDimensions P (precice a))) (\<lambda>dimensions.
      if int dimension \<noteq> dimensions then Inl ExcInternalError else
      bindE (initialize_ids P a) (\<lambda>a.
      bindE (initialize_mesh P D dimension a dof_handler tria data) (\<lambda>(a, data).
      bindE (write_initial_data P a deal_to_precice) (\<lambda>a.
      bindE (ext (initializeData P (precice a))) (\<lambda>p.
      let a = a\<lparr>precice := p\<rparr> in
      read_coupling_data P a precice_to_deal data))))))"

text \<open>
  \<^verbatim>\<open>Adapter::advance\<close>: the block that writes the data of the solver, if there is
  write data and the coupling library requires it, then the step of the coupling library,
  then the block that reads the coupling data.
\<close>

definition write_coupling_data ::
  "('p, 'e) precice_api \<Rightarrow> 'p Adapter \<Rightarrow> real list \<Rightarrow> real \<Rightarrow> 'e failure + 'p Adapter" where
  "write_coupling_data P a deal_to_precice computed_timestep_length =
     bindE (ext (hasData P (precice a) (adapter_write_data_name a) (mesh_id a))) (\<lambda>has_write.
     if has_write
     then bindE (ext (isWriteDataRequired P (precice a) computed_timestep_length))
            (\<lambda>required.
          if required
          then bindE (format_deal_to_precice a deal_to_precice) (\<lambda>a.
               bindE (ext (writeBlockScalarData P (precice a) (write_data_id a)
                             (n_interface_nodes a) (interface_nodes_ids a)
                             (write_data a))) (\<lambda>p.
               Inr (a\<lparr>precice := p\<rparr>)))
          else Inr a)
     else Inr a)"

definition Adapter_advance ::
  "('p, 'e) precice_api \<Rightarrow> 'p Adapter \<Rightarrow> real list \<Rightarrow> real list \<Rightarrow> real \<Rightarrow> dof_map \<Rightarrow>
     'e failure + ('p Adapter \<times> real list \<times> dof_map)" where
  "Adapter_advance P a deal_to_precice precice_to_deal computed_timestep_length data =
     bindE (write_coupling_data P a deal_to_precice computed_timestep_length) (\<lambda>a.
     bindE (ext (precice_advance P (precice a) computed_timestep_length)) (\<lambda>p.
     let a = a\<lparr>precice := p\<rparr> in
     read_coupling_data P a precice_to_deal data))"

text \<open>The destructor \<^verbatim>\<open>~Adapter\<close>.\<close>

definition Adapter_delete :: "('p, 'e) precice_api \<Rightarrow> 'p Adapter \<Rightarrow> 'e failure + 'p Adapter" where
  "Adapter_delete P a = bindE (ext (finalize P (precice a))) (\<lambda>p. Inr (a\<lparr>precice := p\<rparr>))"


section \<open>The Laplace problem\<close>

text \<open>
  \<^verbatim>\<open>class LaplaceProblem\<close>.  \<open>system_matrix\<close> stands for the sparsity pattern together
  with the matrix.  The last field is not a member of the class: it lists the files that
  the code of the class has opened for writing, each with the contents that went into it,
  in the order of writing.  The only stream that the source opens is the
  \<^verbatim>\<open>std::ofstream\<close> of \<^verbatim>\<open>output_results\<close>; files that a library may write on its
  own account are no part of the model.  What the program prints to \<^verbatim>\<open>std::cout\<close> is
  left out.
\<close>

record ('p, 'h, 'm, 'f) LaplaceProblem =
  triangulation :: Triangulation
  dof_handler :: 'h
  system_matrix :: 'm
  solution :: "real list"
  system_rhs :: "real list"
  dummy_vector :: "real list"
  boundary_data :: dof_map
  parameters :: CouplingParamters
  interface_boundary_id :: nat
  adapter :: "'p Adapter"
  written_files :: "(string \<times> 'f) list"

text \<open>
  \<^verbatim>\<open>RightHandSide::value\<close> and \<^verbatim>\<open>BoundaryValues::value\<close>, in exact arithmetic; the
  program only hands them to the library.
\<close>

definition RightHandSide_value :: "nat \<Rightarrow> real list \<Rightarrow> real" where
  "RightHandSide_value dimension p =
     foldl (\<lambda>return_value i. return_value + 4 * (p ! i) ^ 4) 0 [0..<dimension]"

definition BoundaryValues_value :: "real list \<Rightarrow> real" where
  "BoundaryValues_value p = sum_list (map (\<lambda>x. x * x) p)"

text \<open>
  The constructor: \<^verbatim>\<open>fe(1)\<close>, \<^verbatim>\<open>dof_handler(triangulation)\<close>,
  \<^verbatim>\<open>interface_boundary_id(1)\<close>, \<^verbatim>\<open>adapter(parameters, interface_boundary_id)\<close>; the
  other members are default-constructed.
\<close>

definition LaplaceProblem_new ::
  "('p, 'e) precice_api \<Rightarrow> ('h, 'm, 'f, 'e) dealii_api \<Rightarrow>
     'e failure + ('p, 'h, 'm, 'f) LaplaceProblem" where
  "LaplaceProblem_new P D =
     bindE (Adapter_new P D CouplingParamters_default 1) (\<lambda>a.
       Inr \<lparr> triangulation = Triangulation_empty,
             dof_handler = DoFHandler_new D,
             system_matrix = SparseMatrix_new D,
             solution = [],
             system_rhs = [],
             dummy_vector = [],
             boundary_data = [],
             parameters = CouplingParamters_default,
             interface_boundary_id = 1,
             adapter = a,
             written_files = [] \<rparr>)"

text \<open>
  The loop of \<^verbatim>\<open>make_grid\<close> over the faces of the active cells, which marks the
  boundary in positive x direction with the id \<open>b\<close>.
\<close>

definition mark_interface :: "nat \<Rightarrow> nat \<Rightarrow> Triangulation \<Rightarrow> Triangulation" where
  "mark_interface dimension b T =
     foldl (\<lambda>T cell.
         foldl (\<lambda>T f.
             let face = cell_face cell f
             in if at_boundary T face \<and> center face ! 0 = 1
                then set_boundary_id face b T else T)
           T (face_indices dimension))
       T (active_cells T)"

definition make_grid ::
  "nat \<Rightarrow> ('p, 'h, 'm, 'f) LaplaceProblem \<Rightarrow> ('p, 'h, 'm, 'f) LaplaceProblem" where
  "make_grid dimension lp =
     lp\<lparr>triangulation :=
          mark_interface dimension (interface_boundary_id lp)
            (refine_global 4 (hyper_cube dimension (- 1) 1))\<rparr>"

definition setup_system ::
  "('h, 'm, 'f, 'e) dealii_api \<Rightarrow> ('p, 'h, 'm, 'f) LaplaceProblem \<Rightarrow>
     'e failure + ('p, 'h, 'm, 'f) LaplaceProblem" where
  "setup_system D lp =
     bindE (ext (distribute_dofs D (dof_handler lp) (triangulation lp) 1)) (\<lambda>h.
     bindE (ext (make_sparsity_pattern D h (triangulation lp))) (\<lambda>m.
     Inr (lp\<lparr>dof_handler := h, system_matrix := m,
              solution := replicate (n_dofs D h) 0,
              dummy_vector := replicate (n_dofs D h) 0,
              system_rhs := replicate (n_dofs D h) 0\<rparr>)))"

definition assemble_system ::
  "('h, 'm, 'f, 'e) dealii_api \<Rightarrow> nat \<Rightarrow> ('p, 'h, 'm, 'f) LaplaceProblem \<Rightarrow>
     'e failure + ('p, 'h, 'm, 'f) LaplaceProblem" where
  "assemble_system D dimension lp =
     bindE (ext (assemble_cells D (dof_handler lp) (triangulation lp)
                   (RightHandSide_value dimension) (system_matrix lp) (system_rhs lp)))
       (\<lambda>(m, rhs).
     bindE (ext (interpolate_boundary_values D (dof_handler lp) (triangulation lp) 0
                   BoundaryValues_value)) (\<lambda>boundary_values.
     bindE (ext (apply_boundary_values D boundary_values m (solution lp) rhs))
       (\<lambda>(m, sol, rhs).
     bindE (ext (apply_boundary_values D (boundary_data lp) m sol rhs))
       (\<lambda>(m, sol, rhs).
     Inr (lp\<lparr>system_matrix := m, solution := sol, system_rhs := rhs\<rparr>)))))"

definition solve ::
  "('h, 'm, 'f, 'e) dealii_api \<Rightarrow> ('p, 'h, 'm, 'f) LaplaceProblem \<Rightarrow>
     'e failure + ('p, 'h, 'm, 'f) LaplaceProblem" where
  "solve D lp =
     bindE (ext (SolverCG_solve D 1000 (1 / 10 ^ 12) (system_matrix lp) (solution lp)
                   (system_rhs lp))) (\<lambda>sol.
     Inr (lp\<lparr>solution := sol\<rparr>))"

definition output_results ::
  "('h, 'm, 'f, 'e) dealii_api \<Rightarrow> nat \<Rightarrow> ('p, 'h, 'm, 'f) LaplaceProblem \<Rightarrow>
     'e failure + ('p, 'h, 'm, 'f) LaplaceProblem" where
  "output_results D dimension lp =
     bindE (ext (write_vtk D (dof_handler lp) (triangulation lp) (solution lp))) (\<lambda>contents.
     Inr (lp\<lparr>written_files := written_files lp @
              [(if dimension = 2 then ''solution-2d.vtk'' else ''solution-3d.vtk'',
                contents)]\<rparr>))"

text \<open>The two calls of member functions of the adapter in \<^verbatim>\<open>run\<close>.\<close>

definition adapter_initialize ::
  "('p, 'e) precice_api \<Rightarrow> ('h, 'm, 'f, 'e) dealii_api \<Rightarrow> nat \<Rightarrow>
     ('p, 'h, 'm, 'f) LaplaceProblem \<Rightarrow> 'e failure + ('p, 'h, 'm, 'f) LaplaceProblem" where
  "adapter_initialize P D dimension lp =
     bindE (Adapter_initialize P D dimension (adapter lp) (dof_handler lp) (triangulation lp)
              (solution lp) (dummy_vector lp) (boundary_data lp)) (\<lambda>(a, v, data).
     Inr (lp\<lparr>adapter := a, dummy_vector := v, boundary_data := data\<rparr>))"

definition adapter_advance ::
  "('p, 'e) precice_api \<Rightarrow> ('p, 'h, 'm, 'f) LaplaceProblem \<Rightarrow>
     'e failure + ('p, 'h, 'm, 'f) LaplaceProblem" where
  "adapter_advance P lp =
     bindE (Adapter_advance P (adapter lp) (solution lp) (dummy_vector lp) 1
              (boundary_data lp)) (\<lambda>(a, v, data).
     Inr (lp\<lparr>adapter := a, dummy_vector := v, boundary_data := data\<rparr>))"

text \<open>
  \<^verbatim>\<open>LaplaceProblem::run\<close>.  The \<^verbatim>\<open>while\<close> loop runs as long as the coupling library
  says so, which may be for ever: the loop is a partial function, and \<open>None\<close> is the run
  that does not return.
\<close>

partial_function (option) run_loop ::
  "('p, 'e) precice_api \<Rightarrow> ('h, 'm, 'f, 'e) dealii_api \<Rightarrow> nat \<Rightarrow>
     ('p, 'h, 'm, 'f) LaplaceProblem \<Rightarrow> ('e failure + ('p, 'h, 'm, 'f) LaplaceProblem) option"
  where
  "run_loop P D dimension lp =
     (case ext (isCouplingOngoing P (precice (adapter lp))) of
        Inl x \<Rightarrow> Some (Inl x)
      | Inr ongoing \<Rightarrow>
          if ongoing then
            (case bindE (assemble_system D dimension lp) (\<lambda>lp.
                  bindE (solve D lp) (\<lambda>lp.
                  bindE (output_results D dimension lp) (\<lambda>lp.
                  adapter_advance P lp))) of
               Inl x \<Rightarrow> Some (Inl x)
             | Inr lp \<Rightarrow> run_loop P D dimension lp)
          else Some (Inr lp))"

definition run ::
  "('p, 'e) precice_api \<Rightarrow> ('h, 'm, 'f, 'e) dealii_api \<Rightarrow> nat \<Rightarrow>
     ('p, 'h, 'm, 'f) LaplaceProblem \<Rightarrow> ('e failure + ('p, 'h, 'm, 'f) LaplaceProblem) option"
  where
  "run P D dimension lp =
     (case bindE (Inr (make_grid dimension lp)) (\<lambda>lp.
           bindE (setup_system D lp) (\<lambda>lp.
           adapter_initialize P D dimension lp)) of
        Inl x \<Rightarrow> Some (Inl x)
      | Inr lp \<Rightarrow> run_loop P D dimension lp)"

text \<open>
  The sequence of the specification, to compare \<^verbatim>\<open>run\<close> with: \<open>k\<close> iterations lead
  from one state of the problem to another when, \<open>k\<close> times in a row, the coupling library
  reports the coupling as ongoing and then the system is assembled, solved, the output is
  written and the boundary data is exchanged by \<^verbatim>\<open>adapter.advance\<close>, in this order.
\<close>

inductive coupling_iterations ::
  "('p, 'e) precice_api \<Rightarrow> ('h, 'm, 'f, 'e) dealii_api \<Rightarrow> nat \<Rightarrow> nat \<Rightarrow>
     ('p, 'h, 'm, 'f) LaplaceProblem \<Rightarrow> ('p, 'h, 'm, 'f) LaplaceProblem \<Rightarrow> bool"
  for P :: "('p, 'e) precice_api" and D :: "('h, 'm, 'f, 'e) dealii_api" and dimension :: nat
  where
    no_iteration: "coupling_iterations P D dimension 0 lp lp"
  | iteration:
      "isCouplingOngoing P (precice (adapter lp)) = Inr True \<Longrightarrow>
       assemble_system D dimension lp = Inr assembled \<Longrightarrow>
       solve D assembled = Inr solved \<Longrightarrow>
       output_results D dimension solved = Inr written \<Longrightarrow>
       adapter_advance P written = Inr exchanged \<Longrightarrow>
       coupling_iterations P D dimension k exchanged lp' \<Longrightarrow>
       coupling_iterations P D dimension (Suc k) lp lp'"

text \<open>The failures that are assertions of the repository's own.\<close>

fun repository_assertion :: "'e failure \<Rightarrow> bool" where
  "repository_assertion ExcNotImplemented = True"
| "repository_assertion ExcInternalError = True"
| "repository_assertion (ExcIndexRange i n) = True"
| "repository_assertion (VectorIndexRange i n) = False"
| "repository_assertion IteratorPastEnd = False"
| "repository_assertion BufferOverrun = False"
| "repository_assertion (External e) = False"

text \<open>
  The containers of the adapter have the size that \<^verbatim>\<open>initialize\<close> gives them:
  \<^verbatim>\<open>read_data\<close> and \<^verbatim>\<open>write_data\<close> hold \<open>n_interface_nodes\<close> values.
\<close>

definition sized :: "'p Adapter \<Rightarrow> bool" where
  "sized a =
     (length (read_data a) = nat (n_interface_nodes a) \<and>
      length (write_data a) = nat (n_interface_nodes a))"

text \<open>
  Two states of the problem hold the same configuration strings: the parameters, and the
  three names that the adapter has copied from them.
\<close>

definition same_strings ::
  "('p, 'h, 'm, 'f) LaplaceProblem \<Rightarrow> ('p, 'h, 'm, 'f) LaplaceProblem \<Rightarrow> bool" where
  "same_strings lp lp' =
     (parameters lp' = parameters lp \<and>
      adapter_mesh_name (adapter lp') = adapter_mesh_name (adapter lp) \<and>
      adapter_read_data_name (adapter lp') = adapter_read_data_name (adapter lp) \<and>
      adapter_write_data_name (adapter lp') = adapter_write_data_name (adapter lp))"

text \<open>
  The data that the specification names as the only data of the repository: the
  configuration strings, with their copies in the adapter, and the map from dof index to
  boundary value.
\<close>

definition specified_data ::
  "('p, 'h, 'm, 'f) LaplaceProblem \<Rightarrow>
     CouplingParamters \<times> string \<times> string \<times> string \<times> dof_map" where
  "specified_data lp =
     (parameters lp, adapter_mesh_name (adapter lp), adapter_read_data_name (adapter lp),
      adapter_write_data_name (adapter lp), boundary_data lp)"

text \<open>The name of the file that \<^verbatim>\<open>output_results\<close> opens.\<close>

definition vtk_file_name :: "nat \<Rightarrow> string" where
  "vtk_file_name dimension = (if dimension = 2 then ''solution-2d.vtk'' else ''solution-3d.vtk'')"

text \<open>
  \<^verbatim>\<open>main\<close>: MPI is initialised for one thread, a \<^verbatim>\<open>LaplaceProblem<2>\<close> is constructed
  and run; on the way out its adapter is destroyed, and the exit code is \<open>0\<close>.
\<close>

definition main_dimension :: nat where
  "main_dimension = 2"

definition main ::
  "('p, 'e) precice_api \<Rightarrow> ('h, 'm, 'f, 'e) dealii_api \<Rightarrow>
     ('e failure + int \<times> ('p, 'h, 'm, 'f) LaplaceProblem) option" where
  "main P D =
     (case ext (MPI_InitFinalize D 1) of
        Inl x \<Rightarrow> Some (Inl x)
      | Inr mpi_initialization \<Rightarrow>
     (case LaplaceProblem_new P D of
        Inl x \<Rightarrow> Some (Inl x)
      | Inr laplace_problem \<Rightarrow>
          (case run P D main_dimension laplace_problem of
             None \<Rightarrow> None
           | Some (Inl x) \<Rightarrow> Some (Inl x)
           | Some (Inr laplace_problem) \<Rightarrow>
               Some (bindE (Adapter_delete P (adapter laplace_problem)) (\<lambda>a.
                     Inr (0, laplace_problem\<lparr>adapter := a\<rparr>))))))"


section \<open>Concrete instances\<close>

text \<open>An adapter with two coupling dofs, \<open>1\<close> and \<open>3\<close>.\<close>

definition demo_adapter :: "nat Adapter" where
  "demo_adapter =
     \<lparr> precice = 1,
       deal_boundary_interface_id = 1,
       adapter_mesh_name = ''original-mesh'',
       adapter_read_data_name = ''boundary-data'',
       adapter_write_data_name = ''dummy'',
       mesh_id = 0, read_data_id = 0, write_data_id = 1,
       n_interface_nodes = 2,
       coupling_dofs = [1, 3],
       interface_nodes_ids = [0, 1],
       read_data = [7, 8],
       write_data = [0, 0] \<rparr>"


text \<open>
  A coupling library that couples for as many time windows as its state says, has both
  data sets, asks for no initial data and always has data to read; and a finite-element
  library with four dofs, of which \<open>1\<close> and \<open>3\<close> lie on the coupling boundary.
\<close>

definition demo_precice :: "(nat, string) precice_api" where
  "demo_precice =
     \<lparr> SolverInterface_new = (\<lambda>name config rank size. Inr 2),
       getDimensions = (\<lambda>p. Inr 2),
       getMeshID = (\<lambda>p name. Inr 0),
       hasData = (\<lambda>p name mesh. Inr True),
       getDataID = (\<lambda>p name mesh. Inr (if name = ''boundary-data'' then 0 else 1)),
       setMeshVertices = (\<lambda>p mesh n positions. Inr (p, int)),
       precice_initialize = (\<lambda>p. Inr p),
       actionWriteInitialData = ''write-initial-data'',
       isActionRequired = (\<lambda>p action. Inr False),
       writeBlockScalarData = (\<lambda>p data n ids values. Inr p),
       markActionFulfilled = (\<lambda>p action. Inr p),
       initializeData = (\<lambda>p. Inr p),
       isReadDataAvailable = (\<lambda>p. Inr True),
       readBlockScalarData = (\<lambda>p data n ids. Inr (\<lambda>i. 5 + real i)),
       isWriteDataRequired = (\<lambda>p dt. Inr True),
       precice_advance = (\<lambda>p dt. Inr (p - 1)),
       isCouplingOngoing = (\<lambda>p. Inr (0 < p)),
       finalize = (\<lambda>p. Inr p) \<rparr>"

definition demo_dealii :: "(nat, unit, real list, string) dealii_api" where
  "demo_dealii =
     \<lparr> MPI_InitFinalize = (\<lambda>max_num_threads. Inr ()),
       this_mpi_process = 0,
       n_mpi_processes = 1,
       DoFHandler_new = 0,
       SparseMatrix_new = (),
       distribute_dofs = (\<lambda>h T degree. Inr 4),
       n_dofs = (\<lambda>h. h),
       make_sparsity_pattern = (\<lambda>h T. Inr ()),
       extract_boundary_dofs = (\<lambda>h T ids. Inr [1, 3]),
       map_dofs_to_support_points = (\<lambda>h T. Inr (\<lambda>dof i. if i = 0 then 1 else real dof)),
       assemble_cells = (\<lambda>h T f m rhs. Inr (m, rhs)),
       interpolate_boundary_values = (\<lambda>h T b f. Inr []),
       apply_boundary_values =
         (\<lambda>values m sol rhs. Inr (m, foldl (\<lambda>s (k, v). s[k := v]) sol values, rhs)),
       SolverCG_solve = (\<lambda>n tol m sol rhs. Inr sol),
       write_vtk = (\<lambda>h T sol. Inr sol) \<rparr>"

text \<open>The adapter as its constructor leaves it.\<close>

definition demo_new_adapter :: "nat Adapter" where
  "demo_new_adapter =
     \<lparr> precice = 2,
       deal_boundary_interface_id = 1,
       adapter_mesh_name = ''original-mesh'',
       adapter_read_data_name = ''boundary-data'',
       adapter_write_data_name = ''dummy'',
       mesh_id = -1, read_data_id = -1, write_data_id = -1,
       n_interface_nodes = -1,
       coupling_dofs = [],
       interface_nodes_ids = [],
       read_data = [],
       write_data = [] \<rparr>"

text \<open>The Laplace problem as its constructor leaves it, with these two libraries.\<close>

definition demo_problem :: "(nat, nat, unit, real list) LaplaceProblem" where
  "demo_problem =
     \<lparr> triangulation = Triangulation_empty,
       dof_handler = 0,
       system_matrix = (),
       solution = [],
       system_rhs = [],
       dummy_vector = [],
       boundary_data = [],
       parameters = CouplingParamters_default,
       interface_boundary_id = 1,
       adapter = demo_new_adapter,
       written_files = [] \<rparr>"

text \<open>
  The states that this problem runs through with these libraries: \<open>p\<close> is the number of
  time windows left, \<open>sol\<close> the solution, \<open>wd\<close> the data written last and \<open>files\<close>
  the files written so far.
\<close>

definition demo_mesh :: Triangulation where
  "demo_mesh = mark_interface 2 1 (refine_global 4 (hyper_cube 2 (- 1) 1))"

definition demo_state ::
  "nat \<Rightarrow> real list \<Rightarrow> real list \<Rightarrow> (string \<times> real list) list \<Rightarrow>
     (nat, nat, unit, real list) LaplaceProblem" where
  "demo_state p sol wd files =
     \<lparr> triangulation = demo_mesh,
       dof_handler = 4,
       system_matrix = (),
       solution = sol,
       system_rhs = [0, 0, 0, 0],
       dummy_vector = [0, 5, 0, 6],
       boundary_data = [(1, 5), (3, 6)],
       parameters = CouplingParamters_default,
       interface_boundary_id = 1,
       adapter = demo_adapter\<lparr>precice := p, read_data := [5, 6], write_data := wd\<rparr>,
       written_files = files \<rparr>"

text \<open>The same coupling library, except that every step of the coupling fails.\<close>

definition demo_failing_precice :: "(nat, string) precice_api" where
  "demo_failing_precice = demo_precice\<lparr>precice_advance := (\<lambda>p dt. Inl ''connection lost'')\<rparr>"

section \<open>Properties: the format conversion\<close>

lemma bindE_Inr_iff: "bindE m f = Inr y \<longleftrightarrow> (\<exists>x. m = Inr x \<and> f x = Inr y)"
  by (cases m) (simp_all add: bindE_def)

lemma bindE_Inl_iff: "bindE m f = Inl e \<longleftrightarrow> (m = Inl e \<or> (\<exists>x. m = Inr x \<and> f x = Inl e))"
  by (cases m) (simp_all add: bindE_def)

lemma ext_Inr_iff: "ext m = Inr y \<longleftrightarrow> m = Inr y"
  by (cases m) (simp_all add: ext_def)

lemma ext_Inl_iff: "ext m = Inl x \<longleftrightarrow> (\<exists>e. m = Inl e \<and> x = External e)"
  by (cases m) (auto simp add: ext_def)

declare deal_to_precice_loop.simps [simp del] precice_to_deal_loop.simps [simp del]

lemma deal_to_precice_loop_stop:
  "\<not> int i < n \<Longrightarrow> deal_to_precice_loop n v i it wd = Inr wd"
  by (subst deal_to_precice_loop.simps) simp

lemma deal_to_precice_loop_step:
  "int i < n \<Longrightarrow> deal_to_precice_loop n v i it wd =
     (if \<not> i < length wd then Inl (ExcIndexRange i (length wd))
      else case it of
         [] \<Rightarrow> Inl IteratorPastEnd
       | d # it' \<Rightarrow>
           if \<not> d < length v then Inl (VectorIndexRange d (length v))
           else deal_to_precice_loop n v (Suc i) it' (wd[i := v ! d]))"
  by (subst deal_to_precice_loop.simps) simp

lemma deal_to_precice_loop_result:
  "deal_to_precice_loop n v i it wd = (Inr wd' :: 'e failure + real list) \<Longrightarrow>
     length wd' = length wd \<and>
     (\<forall>j. i \<le> j \<and> int j < n \<longrightarrow>
          j < length wd \<and> j - i < length it \<and> it ! (j - i) < length v \<and>
          wd' ! j = v ! (it ! (j - i))) \<and>
     (\<forall>j. j < i \<or> \<not> int j < n \<longrightarrow> wd' ! j = wd ! j)"
proof (induction n v i it wd rule: deal_to_precice_loop.induct)
  case (1 n v i it wd)
  show ?case
  proof (cases "int i < n")
    case False
    with "1.prems" have "wd' = wd"
      by (simp add: deal_to_precice_loop_stop)
    with False show ?thesis by auto
  next
    case True
    from "1.prems" obtain d it' where
      i: "i < length wd" and it: "it = d # it'" and d: "d < length v" and
      rec: "deal_to_precice_loop n v (Suc i) it' (wd[i := v ! d])
              = (Inr wd' :: 'e failure + real list)"
      unfolding deal_to_precice_loop_step[OF True]
      by (auto split: if_splits list.splits)
    from "1.IH" True it rec i d
    have len: "length wd' = length wd"
      and upper: "\<And>j. Suc i \<le> j \<Longrightarrow> int j < n \<Longrightarrow>
          j < length wd \<and> j - Suc i < length it' \<and> it' ! (j - Suc i) < length v \<and>
          wd' ! j = v ! (it' ! (j - Suc i))"
      and lower: "\<And>j. j < Suc i \<or> \<not> int j < n \<Longrightarrow> wd' ! j = (wd[i := v ! d]) ! j"
      by auto
    have "j < length wd \<and> j - i < length it \<and> it ! (j - i) < length v \<and>
          wd' ! j = v ! (it ! (j - i))" if "i \<le> j" "int j < n" for j
    proof (cases "j = i")
      case True
      with lower[of i] i d it show ?thesis by simp
    next
      case False
      with that have "Suc i \<le> j" by simp
      then have eq: "j - i = Suc (j - Suc i)" by simp
      from upper[OF \<open>Suc i \<le> j\<close> that(2)] it show ?thesis
        by (simp add: eq)
    qed
    moreover have "wd' ! j = wd ! j" if "j < i \<or> \<not> int j < n" for j
      using lower[of j] that True by auto
    ultimately show ?thesis using len by blast
  qed
qed

lemma deal_to_precice_loop_total:
  "nat n \<le> length wd \<Longrightarrow> nat n - i \<le> length it \<Longrightarrow> \<forall>d\<in>set it. d < length v \<Longrightarrow>
   \<exists>wd'. deal_to_precice_loop n v i it wd = (Inr wd' :: 'e failure + real list)"
proof (induction n v i it wd rule: deal_to_precice_loop.induct)
  case (1 n v i it wd)
  show ?case
  proof (cases "int i < n")
    case False
    then show ?thesis by (simp add: deal_to_precice_loop_stop)
  next
    case True
    with "1.prems" have i: "i < length wd" by linarith
    from True "1.prems"(2) obtain d it' where it: "it = d # it'"
      by (cases it) auto
    with "1.prems" have d: "d < length v" by simp
    from True "1.prems" it have "nat n - Suc i \<le> length it'" by simp
    with "1.IH" True i d "1.prems" it
    have "\<exists>wd'. deal_to_precice_loop n v (Suc i) it' (wd[i := v ! d])
            = (Inr wd' :: 'e failure + real list)"
      by auto
    with True i d it show ?thesis
      by (simp add: deal_to_precice_loop_step)
  qed
qed


lemma precice_to_deal_loop_stop:
  "\<not> int i < n \<Longrightarrow> precice_to_deal_loop n rd i it p = Inr p"
  by (subst precice_to_deal_loop.simps) simp

lemma precice_to_deal_loop_step:
  "int i < n \<Longrightarrow> precice_to_deal_loop n rd i it p =
     (if \<not> i < length rd then Inl (ExcIndexRange i (length rd))
      else case it of
         [] \<Rightarrow> Inl IteratorPastEnd
       | d # it' \<Rightarrow>
           if \<not> d < length p then Inl (VectorIndexRange d (length p))
           else precice_to_deal_loop n rd (Suc i) it' (p[d := rd ! i]))"
  by (subst precice_to_deal_loop.simps) simp

lemma take_remaining_Cons:
  "int i < n \<Longrightarrow> take (nat n - i) (d # it') = d # take (nat n - Suc i) it'"
proof -
  assume "int i < n"
  then have "nat n - i = Suc (nat n - Suc i)" by linarith
  then show ?thesis by simp
qed

lemma precice_to_deal_loop_result:
  "precice_to_deal_loop n rd i it p = (Inr p' :: 'e failure + real list) \<Longrightarrow>
     length p' = length p \<and>
     (\<forall>j. i \<le> j \<and> int j < n \<longrightarrow>
          j < length rd \<and> j - i < length it \<and> it ! (j - i) < length p) \<and>
     (\<forall>k. k \<notin> set (take (nat n - i) it) \<longrightarrow> p' ! k = p ! k) \<and>
     (distinct it \<longrightarrow> (\<forall>j. i \<le> j \<and> int j < n \<longrightarrow> p' ! (it ! (j - i)) = rd ! j))"
proof (induction n rd i it p rule: precice_to_deal_loop.induct)
  case (1 n rd i it p)
  show ?case
  proof (cases "int i < n")
    case False
    with "1.prems" have "p' = p"
      by (simp add: precice_to_deal_loop_stop)
    with False show ?thesis by auto
  next
    case True
    from "1.prems" obtain d it' where
      i: "i < length rd" and it: "it = d # it'" and d: "d < length p" and
      rec: "precice_to_deal_loop n rd (Suc i) it' (p[d := rd ! i])
              = (Inr p' :: 'e failure + real list)"
      unfolding precice_to_deal_loop_step[OF True]
      by (auto split: if_splits list.splits)
    from "1.IH" True it rec i d
    have len: "length p' = length p"
      and range: "\<And>j. Suc i \<le> j \<Longrightarrow> int j < n \<Longrightarrow>
          j < length rd \<and> j - Suc i < length it' \<and> it' ! (j - Suc i) < length p"
      and frame: "\<And>k. k \<notin> set (take (nat n - Suc i) it') \<Longrightarrow> p' ! k = (p[d := rd ! i]) ! k"
      and vals: "\<And>j. distinct it' \<Longrightarrow> Suc i \<le> j \<Longrightarrow> int j < n \<Longrightarrow>
          p' ! (it' ! (j - Suc i)) = rd ! j"
      by auto
    have A: "j < length rd \<and> j - i < length it \<and> it ! (j - i) < length p"
      if "i \<le> j" "int j < n" for j
    proof (cases "j = i")
      case True
      with i d it show ?thesis by simp
    next
      case False
      with that have le: "Suc i \<le> j" by simp
      then have eq: "j - i = Suc (j - Suc i)" by simp
      from range[OF le that(2)] it show ?thesis
        by (simp add: eq)
    qed
    have B: "p' ! k = p ! k" if "k \<notin> set (take (nat n - i) it)" for k
    proof -
      from that it have "k \<noteq> d" and "k \<notin> set (take (nat n - Suc i) it')"
        by (simp_all add: take_remaining_Cons[OF True])
      with frame[of k] show ?thesis by simp
    qed
    have C: "p' ! (it ! (j - i)) = rd ! j" if "distinct it" "i \<le> j" "int j < n" for j
    proof (cases "j = i")
      case True
      from that(1) it have "d \<notin> set it'" by simp
      then have "d \<notin> set (take (nat n - Suc i) it')"
        by (auto dest: in_set_takeD)
      with frame[of d] d True it show ?thesis by simp
    next
      case False
      with that have le: "Suc i \<le> j" by simp
      then have eq: "j - i = Suc (j - Suc i)" by simp
      from that(1) it have "distinct it'" by simp
      from vals[OF this le that(3)] it show ?thesis
        by (simp add: eq)
    qed
    from len A B C show ?thesis by blast
  qed
qed

lemma precice_to_deal_loop_total:
  "nat n \<le> length rd \<Longrightarrow> nat n - i \<le> length it \<Longrightarrow> \<forall>d\<in>set it. d < length p \<Longrightarrow>
   \<exists>p'. precice_to_deal_loop n rd i it p = (Inr p' :: 'e failure + real list)"
proof (induction n rd i it p rule: precice_to_deal_loop.induct)
  case (1 n rd i it p)
  show ?case
  proof (cases "int i < n")
    case False
    then show ?thesis by (simp add: precice_to_deal_loop_stop)
  next
    case True
    with "1.prems" have i: "i < length rd" by linarith
    from True "1.prems"(2) obtain d it' where it: "it = d # it'"
      by (cases it) auto
    with "1.prems" have d: "d < length p" by simp
    from True "1.prems" it have "nat n - Suc i \<le> length it'" by simp
    with "1.IH" True i d "1.prems" it
    have "\<exists>p'. precice_to_deal_loop n rd (Suc i) it' (p[d := rd ! i])
            = (Inr p' :: 'e failure + real list)"
      by auto
    with True i d it show ?thesis
      by (simp add: precice_to_deal_loop_step)
  qed
qed


text \<open>
  Claim C1.  The two format functions walk through the coupling dofs in the same order,
  that of the \<^verbatim>\<open>IndexSet\<close> (increasing, hence without repetition).  Whenever
  \<^verbatim>\<open>format_deal_to_precice\<close> returns, \<open>write_data[i]\<close> is the entry of the deal.II
  vector at the \<open>i\<close>-th coupling dof, for every \<open>i\<close> below \<open>n_interface_nodes\<close>;
  whenever \<^verbatim>\<open>format_precice_to_deal\<close> returns, the entry of its output vector at the
  \<open>i\<close>-th coupling dof is \<open>read_data[i]\<close>, for the same \<open>i\<close>.  In the state that
  \<^verbatim>\<open>initialize\<close> sets up (\<open>n_interface_nodes\<close> is the number of coupling dofs,
  \<open>write_data\<close> has that size, every coupling dof is an index of the vectors) both
  functions return, and converting a vector \<open>v\<close> and converting the result back into any
  vector \<open>p\<close> of the same size gives \<open>v\<close>'s value at every coupling dof.
\<close>

theorem format_conversion_round_trip:
  fixes a :: "'p Adapter" and v p :: "real list"
  assumes "distinct (coupling_dofs a)"
  shows
    "(\<forall>a'. format_deal_to_precice a v = (Inr a' :: 'e failure + 'p Adapter) \<longrightarrow>
        (\<forall>i. int i < n_interface_nodes a \<longrightarrow>
           write_data a' ! i = v ! (coupling_dofs a ! i))) \<and>
     (\<forall>r p'. format_precice_to_deal a p = (Inr (r, p') :: 'e failure + 'p Adapter \<times> real list) \<longrightarrow>
        (\<forall>i. int i < n_interface_nodes a \<longrightarrow>
           p' ! (coupling_dofs a ! i) = read_data a ! i)) \<and>
     (n_interface_nodes a = int (length (coupling_dofs a)) \<and>
      length (write_data a) = length (coupling_dofs a) \<and>
      (\<forall>d\<in>set (coupling_dofs a). d < length v) \<and> length p = length v \<longrightarrow>
        (\<exists>a' p'. format_deal_to_precice a v = (Inr a' :: 'e failure + 'p Adapter) \<and>
           format_precice_to_deal (a'\<lparr>read_data := write_data a'\<rparr>) p
             = (Inr (a'\<lparr>read_data := write_data a'\<rparr>, p') :: 'e failure + 'p Adapter \<times> real list) \<and>
           (\<forall>d\<in>set (coupling_dofs a). p' ! d = v ! d)))"
proof (intro conjI allI impI)
  fix a' :: "'p Adapter" and i
  assume "format_deal_to_precice a v = (Inr a' :: 'e failure + 'p Adapter)"
    and i: "int i < n_interface_nodes a"
  then obtain wd where
    "deal_to_precice_loop (n_interface_nodes a) v 0 (coupling_dofs a) (write_data a)
       = (Inr wd :: 'e failure + real list)" and "a' = a\<lparr>write_data := wd\<rparr>"
    by (auto simp: format_deal_to_precice_def bindE_Inr_iff)
  with deal_to_precice_loop_result[OF this(1)] i
  show "write_data a' ! i = v ! (coupling_dofs a ! i)" by simp
next
  fix r :: "'p Adapter" and p' i
  assume "format_precice_to_deal a p = (Inr (r, p') :: 'e failure + 'p Adapter \<times> real list)"
    and i: "int i < n_interface_nodes a"
  then have "precice_to_deal_loop (n_interface_nodes a) (read_data a) 0 (coupling_dofs a) p
       = (Inr p' :: 'e failure + real list)"
    by (auto simp: format_precice_to_deal_def bindE_Inr_iff)
  from precice_to_deal_loop_result[OF this] i assms
  show "p' ! (coupling_dofs a ! i) = read_data a ! i" by simp
next
  assume inv: "n_interface_nodes a = int (length (coupling_dofs a)) \<and>
      length (write_data a) = length (coupling_dofs a) \<and>
      (\<forall>d\<in>set (coupling_dofs a). d < length v) \<and> length p = length v"
  let ?n = "n_interface_nodes a" and ?ds = "coupling_dofs a"
  from inv deal_to_precice_loop_total[of ?n "write_data a" 0 ?ds v]
  obtain wd where wd: "deal_to_precice_loop ?n v 0 ?ds (write_data a)
       = (Inr wd :: 'e failure + real list)"
    by auto
  note W = deal_to_precice_loop_result[OF wd]
  from W inv have lwd: "length wd = length ?ds" by simp
  from inv lwd precice_to_deal_loop_total[of ?n wd 0 ?ds p]
  obtain p' where p': "precice_to_deal_loop ?n wd 0 ?ds p
       = (Inr p' :: 'e failure + real list)"
    by auto
  note P = precice_to_deal_loop_result[OF p']
  have "p' ! d = v ! d" if "d \<in> set ?ds" for d
  proof -
    from that obtain i where i: "i < length ?ds" and d: "d = ?ds ! i"
      by (auto simp: in_set_conv_nth)
    with inv have "int i < ?n" by simp
    with P W assms show ?thesis by (simp add: d)
  qed
  with wd p' show "\<exists>a' p'. format_deal_to_precice a v = (Inr a' :: 'e failure + 'p Adapter) \<and>
           format_precice_to_deal (a'\<lparr>read_data := write_data a'\<rparr>) p
             = (Inr (a'\<lparr>read_data := write_data a'\<rparr>, p') :: 'e failure + 'p Adapter \<times> real list) \<and>
           (\<forall>d\<in>set (coupling_dofs a). p' ! d = v ! d)"
    by (auto simp: format_deal_to_precice_def format_precice_to_deal_def bindE_def)
qed

theorem format_conversion_round_trip_witness:
  "distinct (coupling_dofs demo_adapter) \<and>
   (\<exists>a' p'. format_deal_to_precice demo_adapter [10, 11, 12, 13]
              = (Inr a' :: string failure + nat Adapter) \<and>
            format_precice_to_deal (a'\<lparr>read_data := write_data a'\<rparr>) [0, 0, 0, 0]
              = (Inr (a'\<lparr>read_data := write_data a'\<rparr>, p')
                  :: string failure + nat Adapter \<times> real list) \<and>
            p' ! 1 = 11 \<and> p' ! 3 = 13)"
proof -
  have d: "distinct (coupling_dofs demo_adapter)"
    by (simp add: demo_adapter_def)
  have "n_interface_nodes demo_adapter = int (length (coupling_dofs demo_adapter)) \<and>
      length (write_data demo_adapter) = length (coupling_dofs demo_adapter) \<and>
      (\<forall>d\<in>set (coupling_dofs demo_adapter). d < length [10, 11, 12, 13 :: real]) \<and>
      length [0, 0, 0, 0 :: real] = length [10, 11, 12, 13 :: real]"
    by (simp add: demo_adapter_def)
  with format_conversion_round_trip[OF d, where v = "[10, 11, 12, 13]" and p = "[0, 0, 0, 0]"
      and 'e = string]
  obtain a' p' where
    "format_deal_to_precice demo_adapter [10, 11, 12, 13]
       = (Inr a' :: string failure + nat Adapter)"
    "format_precice_to_deal (a'\<lparr>read_data := write_data a'\<rparr>) [0, 0, 0, 0]
       = (Inr (a'\<lparr>read_data := write_data a'\<rparr>, p')
           :: string failure + nat Adapter \<times> real list)"
    "\<forall>d\<in>set (coupling_dofs demo_adapter). p' ! d = [10, 11, 12, 13 :: real] ! d"
    by blast
  moreover from this(3) have "p' ! 1 = 11 \<and> p' ! 3 = 13"
    by (simp add: demo_adapter_def)
  ultimately show ?thesis using d by blast
qed

lemma demo_d2p: "format_deal_to_precice demo_adapter [10, 11, 12, 13]
         = (Inr (demo_adapter\<lparr>write_data := [11, 13]\<rparr>) :: string failure + nat Adapter)"
  by (simp add: format_deal_to_precice_def demo_adapter_def bindE_def
        deal_to_precice_loop.simps)

lemma demo_p2d: "format_precice_to_deal demo_adapter [0, 0, 0, 0, 0]
         = (Inr (demo_adapter, [0, 7, 0, 8, 0]) :: string failure + nat Adapter \<times> real list)"
  by (simp add: format_precice_to_deal_def demo_adapter_def bindE_def
        precice_to_deal_loop.simps)

text \<open>
  Claim C8.  A call of \<^verbatim>\<open>format_precice_to_deal\<close> that returns leaves the adapter as
  it was (all of it: \<open>read_data\<close>, \<open>write_data\<close>, \<open>coupling_dofs\<close>, the ids), keeps
  the size of the output vector, and changes no entry of it other than those at the first
  \<open>n_interface_nodes\<close> coupling dofs.
\<close>

theorem format_precice_to_deal_frame:
  "format_precice_to_deal a p = (Inr (a', p') :: 'e failure + 'p Adapter \<times> real list) \<Longrightarrow>
     a' = a \<and> length p' = length p \<and>
     (\<forall>k. k \<notin> set (take (nat (n_interface_nodes a)) (coupling_dofs a)) \<longrightarrow> p' ! k = p ! k)"
proof -
  assume "format_precice_to_deal a p = (Inr (a', p') :: 'e failure + 'p Adapter \<times> real list)"
  then have a: "a' = a" and
    "precice_to_deal_loop (n_interface_nodes a) (read_data a) 0 (coupling_dofs a) p
       = (Inr p' :: 'e failure + real list)"
    by (auto simp: format_precice_to_deal_def bindE_Inr_iff)
  from precice_to_deal_loop_result[OF this(2)] a show ?thesis by simp
qed


theorem format_precice_to_deal_frame_witness:
  "format_precice_to_deal demo_adapter [0, 0, 0, 0, 0]
     = (Inr (demo_adapter, [0, 7, 0, 8, 0]) :: string failure + nat Adapter \<times> real list) \<and>
   [0, 7, 0, 8, 0 :: real] ! 0 = [0, 0, 0, 0, 0] ! 0 \<and>
   [0, 7, 0, 8, 0 :: real] ! 2 = [0, 0, 0, 0, 0] ! 2 \<and>
   [0, 7, 0, 8, 0 :: real] ! 4 = [0, 0, 0, 0, 0] ! 4"
proof -
  have "\<forall>k. k \<notin> set (take (nat (n_interface_nodes demo_adapter)) (coupling_dofs demo_adapter))
          \<longrightarrow> [0, 7, 0, 8, 0 :: real] ! k = [0, 0, 0, 0, 0] ! k"
    using format_precice_to_deal_frame[OF demo_p2d] by blast
  then have "\<And>k. k \<noteq> 1 \<Longrightarrow> k \<noteq> 3 \<Longrightarrow> [0, 7, 0, 8, 0 :: real] ! k = [0, 0, 0, 0, 0] ! k"
    by (simp add: demo_adapter_def)
  from this[of 0] this[of 2] this[of 4]
  have "[0, 7, 0, 8, 0 :: real] ! 0 = [0, 0, 0, 0, 0] ! 0 \<and>
     [0, 7, 0, 8, 0 :: real] ! 2 = [0, 0, 0, 0, 0] ! 2 \<and>
     [0, 7, 0, 8, 0 :: real] ! 4 = [0, 0, 0, 0, 0] ! 4"
    by simp
  with demo_p2d show ?thesis by blast
qed


section \<open>Properties: the map of boundary values\<close>

lemma map_keys_Nil: "map_keys [] = []"
  by (simp add: map_keys_def)

lemma map_keys_Cons: "map_keys ((k, v) # m) = k # map_keys m"
  by (simp add: map_keys_def)

lemma map_keys_insert: "set (map_keys (map_insert k v m)) = insert k (set (map_keys m))"
  by (induction k v m rule: map_insert.induct) (auto simp: map_keys_Nil map_keys_Cons)

lemma std_map_Cons: "std_map ((k, v) # m) \<longleftrightarrow> (\<forall>k'\<in>set (map_keys m). k < k') \<and> std_map m"
  by (simp add: std_map_def map_keys_def)

lemma std_map_insert: "std_map m \<Longrightarrow> std_map (map_insert k v m)"
proof (induction k v m rule: map_insert.induct)
  case (1 k v)
  then show ?case by (simp add: std_map_def map_keys_def)
next
  case (2 k v k' v' m)
  then show ?case
    by (auto simp: std_map_Cons map_keys_insert map_keys_Cons)
qed

lemma map_lookup_fresh: "std_map ((k', v') # m) \<Longrightarrow> k < k' \<Longrightarrow> map_lookup ((k', v') # m) k = None"
  by (force simp: map_lookup_def std_map_Cons map_keys_def map_of_eq_None_iff)

lemma map_lookup_insert:
  "std_map m \<Longrightarrow> map_lookup (map_insert k v m) k' =
     (if k' = k then (case map_lookup m k of None \<Rightarrow> Some v | Some w \<Rightarrow> Some w)
      else map_lookup m k')"
proof (induction m)
  case Nil
  then show ?case by (simp add: map_lookup_def)
next
  case (Cons e m)
  obtain k1 v1 where e: "e = (k1, v1)" by (cases e)
  from Cons.prems e have sm: "std_map m" by (simp add: std_map_Cons)
  show ?case
  proof (cases "k < k1")
    case True
    with map_lookup_fresh[of k1 v1 m k] Cons.prems e show ?thesis
      by (auto simp: map_lookup_def)
  next
    case False
    with Cons.IH[OF sm] e show ?thesis
      by (auto simp: map_lookup_def)
  qed
qed

lemma insert_coupling_dofs_std_map:
  "std_map data \<Longrightarrow> std_map (insert_coupling_dofs dofs data)"
  unfolding insert_coupling_dofs_def
  by (induction dofs arbitrary: data) (simp_all add: std_map_insert)

lemma insert_coupling_dofs_keys:
  "set (map_keys (insert_coupling_dofs dofs data)) = set (map_keys data) \<union> set dofs"
  unfolding insert_coupling_dofs_def
  by (induction dofs arbitrary: data) (auto simp: map_keys_insert)

lemma insert_coupling_dofs_lookup:
  "std_map data \<Longrightarrow> map_lookup (insert_coupling_dofs dofs data) k =
     (case map_lookup data k of
        Some w \<Rightarrow> Some w
      | None \<Rightarrow> if k \<in> set dofs then Some 0 else None)"
  unfolding insert_coupling_dofs_def
proof (induction dofs arbitrary: data)
  case Nil
  then show ?case by (simp split: option.splits)
next
  case (Cons d dofs)
  from Cons.IH[OF std_map_insert[OF Cons.prems], of d 0] Cons.prems
  show ?case
    by (auto simp: map_lookup_insert split: option.splits)
qed

lemma map_assign_keys:
  "std_map m \<Longrightarrow> k \<in> set (map_keys m) \<Longrightarrow> map_keys (map_assign k v m) = map_keys m"
proof (induction k v m rule: map_assign.induct)
  case (1 k v)
  then show ?case by (simp add: map_keys_def)
next
  case (2 k v k' v' m)
  then show ?case
    by (auto simp: std_map_Cons map_keys_Cons)
qed

declare read_data_to_map_loop.simps [simp del]

lemma read_data_to_map_loop_keys:
  "read_data_to_map_loop n rd i pos data = (Inr data' :: 'e failure + dof_map) \<Longrightarrow>
   std_map data \<Longrightarrow> map_keys data' = map_keys data"
proof (induction n rd i pos data rule: read_data_to_map_loop.induct)
  case (1 n rd i pos data)
  show ?case
  proof (cases "int i < n")
    case False
    with "1.prems" show ?thesis
      by (subst (asm) read_data_to_map_loop.simps) simp
  next
    case True
    let ?d = "map_assign (fst (data ! pos)) (rd ! i) data"
    from "1.prems"(1) True have i: "i < length rd" and pos: "pos < length data"
      and rec: "read_data_to_map_loop n rd (Suc i) (Suc pos) ?d
           = (Inr data' :: 'e failure + dof_map)"
      by (subst (asm) read_data_to_map_loop.simps, simp split: if_splits)+
    from pos have "fst (data ! pos) \<in> set (map_keys data)"
      by (simp add: map_keys_def)
    from map_assign_keys[OF "1.prems"(2) this] have k: "map_keys ?d = map_keys data" .
    with "1.prems"(2) have "std_map ?d" by (simp add: std_map_def)
    with "1.IH"[OF True _ _ rec] i pos k show ?thesis by simp
  qed
qed

lemma read_data_to_map_loop_total:
  "nat n \<le> length rd \<Longrightarrow> nat n - i + pos \<le> length data \<Longrightarrow> std_map data \<Longrightarrow>
   \<exists>data'. read_data_to_map_loop n rd i pos data = (Inr data' :: 'e failure + dof_map)"
proof (induction n rd i pos data rule: read_data_to_map_loop.induct)
  case (1 n rd i pos data)
  show ?case
  proof (cases "int i < n")
    case False
    then show ?thesis
      by (subst read_data_to_map_loop.simps) simp
  next
    case True
    let ?d = "map_assign (fst (data ! pos)) (rd ! i) data"
    from True "1.prems" have i: "i < length rd" and pos: "pos < length data"
      by linarith+
    from pos have "fst (data ! pos) \<in> set (map_keys data)"
      by (simp add: map_keys_def)
    from map_assign_keys[OF "1.prems"(3) this] have k: "map_keys ?d = map_keys data" .
    then have len: "length ?d = length data"
      by (metis length_map map_keys_def)
    from k "1.prems"(3) have sm: "std_map ?d" by (simp add: std_map_def)
    from True "1.prems"(2) len have "nat n - Suc i + Suc pos \<le> length ?d" by linarith
    from "1.IH"[OF True _ _ "1.prems"(1) this sm] i pos
    have "\<exists>data'. read_data_to_map_loop n rd (Suc i) (Suc pos) ?d
            = (Inr data' :: 'e failure + dof_map)"
      by simp
    with True i pos show ?thesis
      by (subst read_data_to_map_loop.simps) simp
  qed
qed


lemma format_deal_to_precice_Inr:
  "format_deal_to_precice a v = (Inr a' :: 'e failure + 'p Adapter) \<Longrightarrow>
   \<exists>wd. a' = a\<lparr>write_data := wd\<rparr> \<and> length wd = length (write_data a)"
proof -
  assume "format_deal_to_precice a v = (Inr a' :: 'e failure + 'p Adapter)"
  then obtain wd where
    wd: "deal_to_precice_loop (n_interface_nodes a) v 0 (coupling_dofs a) (write_data a)
       = (Inr wd :: 'e failure + real list)" and a': "a' = a\<lparr>write_data := wd\<rparr>"
    by (auto simp: format_deal_to_precice_def bindE_Inr_iff)
  from deal_to_precice_loop_result[OF wd] a' show ?thesis by blast
qed

lemma format_precice_to_deal_Inr:
  "format_precice_to_deal a p = (Inr (a', p') :: 'e failure + 'p Adapter \<times> real list) \<Longrightarrow>
   a' = a \<and> length p' = length p"
proof -
  assume "format_precice_to_deal a p = (Inr (a', p') :: 'e failure + 'p Adapter \<times> real list)"
  then have a: "a' = a" and
    "precice_to_deal_loop (n_interface_nodes a) (read_data a) 0 (coupling_dofs a) p
       = (Inr p' :: 'e failure + real list)"
    by (auto simp: format_precice_to_deal_def bindE_Inr_iff)
  from precice_to_deal_loop_result[OF this(2)] a show ?thesis by simp
qed

lemma write_block_Inr:
  "write_block n f buf = (Inr buf' :: 'e failure + 'a list) \<Longrightarrow> length buf' = length buf"
  by (auto simp: write_block_def split: if_splits)

lemma read_coupling_data_Inr:
  assumes "read_coupling_data P a p data
             = (Inr (a', p', data') :: 'e failure + 'p Adapter \<times> real list \<times> dof_map)"
    and "std_map data"
  shows "map_keys data' = map_keys data \<and> length p' = length p \<and>
         (\<exists>rd. a' = a\<lparr>read_data := rd\<rparr> \<and> length rd = length (read_data a))"
proof -
  from assms(1) obtain available where
    av: "isReadDataAvailable P (precice a) = Inr available"
    by (auto simp: read_coupling_data_def bindE_Inr_iff ext_Inr_iff)
  show ?thesis
  proof (cases available)
    case False
    with assms(1) av have "a' = a" "p' = p" "data' = data"
      by (auto simp: read_coupling_data_def bindE_def ext_def)
    then have "a' = a\<lparr>read_data := read_data a\<rparr>" by simp
    with \<open>p' = p\<close> \<open>data' = data\<close> show ?thesis by blast
  next
    case True
    with assms(1) av obtain "values" rd a2 where
      rd: "write_block (nat (n_interface_nodes a)) values (read_data a)
             = (Inr rd :: 'e failure + real list)" and
      loop: "read_data_to_map_loop (n_interface_nodes a) rd 0 0 data
             = (Inr data' :: 'e failure + dof_map)" and
      fmt: "format_precice_to_deal (a\<lparr>read_data := rd\<rparr>) p
             = (Inr (a2, p') :: 'e failure + 'p Adapter \<times> real list)" and
      a': "a' = a2"
      by (auto simp: read_coupling_data_def bindE_Inr_iff ext_Inr_iff Let_def)
    from format_precice_to_deal_Inr[OF fmt] a' write_block_Inr[OF rd]
      read_data_to_map_loop_keys[OF loop assms(2)]
    show ?thesis by blast
  qed
qed

lemma write_coupling_data_Inr:
  assumes "write_coupling_data P a v dt = (Inr a' :: 'e failure + 'p Adapter)"
  shows "\<exists>q wd. a' = a\<lparr>precice := q, write_data := wd\<rparr> \<and>
           length wd = length (write_data a)"
proof -
  from assms have "a' = a \<or>
      (\<exists>a0 q. format_deal_to_precice a v = (Inr a0 :: 'e failure + 'p Adapter) \<and>
          a' = a0\<lparr>precice := q\<rparr>)"
    by (auto simp: write_coupling_data_def bindE_Inr_iff ext_Inr_iff split: if_splits)
  then show ?thesis
  proof
    assume "a' = a"
    then have "a' = a\<lparr>precice := precice a, write_data := write_data a\<rparr>" by simp
    then show ?thesis by blast
  next
    assume "\<exists>a0 q. format_deal_to_precice a v = (Inr a0 :: 'e failure + 'p Adapter) \<and>
          a' = a0\<lparr>precice := q\<rparr>"
    then obtain a0 q where
      f: "format_deal_to_precice a v = (Inr a0 :: 'e failure + 'p Adapter)" and
      q: "a' = a0\<lparr>precice := q\<rparr>" by blast
    from format_deal_to_precice_Inr[OF f] obtain wd where
      "a0 = a\<lparr>write_data := wd\<rparr>" "length wd = length (write_data a)" by blast
    with q have "a' = a\<lparr>precice := q, write_data := wd\<rparr>" by simp
    with \<open>length wd = length (write_data a)\<close> show ?thesis by blast
  qed
qed

lemma Adapter_advance_Inr:
  assumes "Adapter_advance P a v p dt data
             = (Inr (a', p', data') :: 'e failure + 'p Adapter \<times> real list \<times> dof_map)"
    and "std_map data"
  shows "map_keys data' = map_keys data \<and> length p' = length p \<and>
         (\<exists>pr rd wd. a' = a\<lparr>precice := pr, read_data := rd, write_data := wd\<rparr> \<and>
            length rd = length (read_data a) \<and> length wd = length (write_data a))"
proof -
  from assms(1) obtain a1 pr where
    a1: "write_coupling_data P a v dt = (Inr a1 :: 'e failure + 'p Adapter)" and
    rc: "read_coupling_data P (a1\<lparr>precice := pr\<rparr>) p data
             = (Inr (a', p', data') :: 'e failure + 'p Adapter \<times> real list \<times> dof_map)"
    by (auto simp: Adapter_advance_def bindE_Inr_iff ext_Inr_iff Let_def)
  from write_coupling_data_Inr[OF a1]
  obtain q wd where a1': "a1 = a\<lparr>precice := q, write_data := wd\<rparr>"
    and wd: "length wd = length (write_data a)" by blast
  from read_coupling_data_Inr[OF rc assms(2)] obtain rd where
    k: "map_keys data' = map_keys data" and p: "length p' = length p" and
    a': "a' = a1\<lparr>precice := pr, read_data := rd\<rparr>" and
    rd: "length rd = length (read_data (a1\<lparr>precice := pr\<rparr>))"
    by auto
  from a' a1' have "a' = a\<lparr>precice := pr, read_data := rd, write_data := wd\<rparr>" by simp
  moreover from rd a1' have "length rd = length (read_data a)" by simp
  ultimately show ?thesis using k p wd by blast
qed

lemma length_resize: "length (resize n x xs) = n"
  by (simp add: resize_def)

lemma initialize_ids_Inr:
  assumes "initialize_ids P a = (Inr a' :: 'e failure + 'p Adapter)"
  shows "\<exists>i j k. a' = a\<lparr>mesh_id := i, read_data_id := j, write_data_id := k\<rparr>"
proof -
  from assms obtain i a1 where
    a1: "a1 = a\<lparr>mesh_id := i\<rparr> \<or> (\<exists>j. a1 = a\<lparr>mesh_id := i, read_data_id := j\<rparr>)" and
    a': "a' = a1 \<or> (\<exists>k. a' = a1\<lparr>write_data_id := k\<rparr>)"
    by (auto simp: initialize_ids_def bindE_Inr_iff ext_Inr_iff Let_def split: if_splits)
  from a1 obtain j where "a1 = a\<lparr>mesh_id := i, read_data_id := j\<rparr>"
  proof
    assume "a1 = a\<lparr>mesh_id := i\<rparr>"
    then have "a1 = a\<lparr>mesh_id := i, read_data_id := read_data_id a\<rparr>" by simp
    then show ?thesis using that by blast
  qed (use that in blast)
  moreover from a' obtain k where "a' = a1\<lparr>write_data_id := k\<rparr>"
  proof
    assume "a' = a1"
    then have "a' = a1\<lparr>write_data_id := write_data_id a1\<rparr>" by simp
    then show ?thesis using that by blast
  qed (use that in blast)
  ultimately show ?thesis by blast
qed

lemma initialize_mesh_Inr:
  assumes "initialize_mesh P D dm a h T data
             = (Inr (a', data') :: 'e failure + 'p Adapter \<times> dof_map)"
  shows "data' = insert_coupling_dofs (coupling_dofs a') data \<and>
     extract_boundary_dofs D h T {deal_boundary_interface_id a} = Inr (coupling_dofs a') \<and>
     (\<exists>pr ids rd wd.
        a' = a\<lparr>precice := pr, n_interface_nodes := int (length (coupling_dofs a')),
               coupling_dofs := coupling_dofs a', interface_nodes_ids := ids,
               read_data := rd, write_data := wd\<rparr> \<and>
        length ids = length (coupling_dofs a') \<and> length rd = length (coupling_dofs a') \<and>
        length wd = length (coupling_dofs a'))"
proof -
  from assms obtain dofs ids pr where
    e: "extract_boundary_dofs D h T {deal_boundary_interface_id a} = Inr dofs" and
    a': "a' = a\<lparr>coupling_dofs := dofs, n_interface_nodes := int (length dofs),
             write_data := resize (length dofs) 0 (write_data a),
             read_data := resize (length dofs) 0 (read_data a),
             interface_nodes_ids := ids, precice := pr\<rparr>" and
    ids: "length ids = length dofs" and
    d: "data' = insert_coupling_dofs dofs data"
    by (auto simp: initialize_mesh_def bindE_Inr_iff ext_Inr_iff Let_def length_resize
        dest!: write_block_Inr)
  from a' have c: "coupling_dofs a' = dofs" by simp
  from a' have "a' = a\<lparr>precice := pr, n_interface_nodes := int (length dofs),
               coupling_dofs := dofs, interface_nodes_ids := ids,
               read_data := resize (length dofs) 0 (read_data a),
               write_data := resize (length dofs) 0 (write_data a)\<rparr>"
    by simp
  moreover have "length (resize (length dofs) 0 (read_data a)) = length dofs"
    "length (resize (length dofs) 0 (write_data a)) = length dofs"
    by (simp_all add: length_resize)
  ultimately have "\<exists>pr ids rd wd.
        a' = a\<lparr>precice := pr, n_interface_nodes := int (length dofs),
               coupling_dofs := dofs, interface_nodes_ids := ids,
               read_data := rd, write_data := wd\<rparr> \<and>
        length ids = length dofs \<and> length rd = length dofs \<and> length wd = length dofs"
    using ids by blast
  with e d show ?thesis unfolding c by blast
qed

lemma write_initial_data_Inr:
  assumes "write_initial_data P a v = (Inr a' :: 'e failure + 'p Adapter)"
  shows "\<exists>q wd. a' = a\<lparr>precice := q, write_data := wd\<rparr> \<and>
           length wd = length (write_data a)"
proof -
  from assms have "a' = a \<or>
      (\<exists>a0 q. format_deal_to_precice a v = (Inr a0 :: 'e failure + 'p Adapter) \<and>
          a' = a0\<lparr>precice := q\<rparr>)"
    by (auto simp: write_initial_data_def bindE_Inr_iff ext_Inr_iff split: if_splits)
  then show ?thesis
  proof
    assume "a' = a"
    then have "a' = a\<lparr>precice := precice a, write_data := write_data a\<rparr>" by simp
    then show ?thesis by blast
  next
    assume "\<exists>a0 q. format_deal_to_precice a v = (Inr a0 :: 'e failure + 'p Adapter) \<and>
          a' = a0\<lparr>precice := q\<rparr>"
    then obtain a0 q where
      f: "format_deal_to_precice a v = (Inr a0 :: 'e failure + 'p Adapter)" and
      q: "a' = a0\<lparr>precice := q\<rparr>" by blast
    from format_deal_to_precice_Inr[OF f] obtain wd where
      "a0 = a\<lparr>write_data := wd\<rparr>" "length wd = length (write_data a)" by blast
    with q have "a' = a\<lparr>precice := q, write_data := wd\<rparr>" by simp
    with \<open>length wd = length (write_data a)\<close> show ?thesis by blast
  qed
qed

lemma Adapter_initialize_Inr:
  assumes "Adapter_initialize P D dm a h T v p data
             = (Inr (a', p', data') :: 'e failure + 'p Adapter \<times> real list \<times> dof_map)"
    and "std_map data"
  shows "1 < dm \<and> getDimensions P (precice a) = Inr (int dm) \<and>
     extract_boundary_dofs D h T {deal_boundary_interface_id a} = Inr (coupling_dofs a') \<and>
     map_keys data' = map_keys (insert_coupling_dofs (coupling_dofs a') data) \<and>
     length p' = length p \<and>
     n_interface_nodes a' = int (length (coupling_dofs a')) \<and>
     length (interface_nodes_ids a') = length (coupling_dofs a') \<and>
     length (read_data a') = length (coupling_dofs a') \<and>
     length (write_data a') = length (coupling_dofs a') \<and>
     deal_boundary_interface_id a' = deal_boundary_interface_id a \<and>
     adapter_mesh_name a' = adapter_mesh_name a \<and>
     adapter_read_data_name a' = adapter_read_data_name a \<and>
     adapter_write_data_name a' = adapter_write_data_name a"
proof -
  from assms(1) have dm: "1 < dm" and gd: "getDimensions P (precice a) = Inr (int dm)"
    by (auto simp: Adapter_initialize_def bindE_Inr_iff ext_Inr_iff split: if_splits)
  from assms(1) dm gd obtain a1 a2 d2 a3 q where
    1: "initialize_ids P a = (Inr a1 :: 'e failure + 'p Adapter)" and
    2: "initialize_mesh P D dm a1 h T data
          = (Inr (a2, d2) :: 'e failure + 'p Adapter \<times> dof_map)" and
    3: "write_initial_data P a2 v = (Inr a3 :: 'e failure + 'p Adapter)" and
    4: "read_coupling_data P (a3\<lparr>precice := q\<rparr>) p d2
          = (Inr (a', p', data') :: 'e failure + 'p Adapter \<times> real list \<times> dof_map)"
    by (auto simp: Adapter_initialize_def bindE_Inr_iff ext_Inr_iff Let_def)
  from initialize_ids_Inr[OF 1] obtain i j k where
    a1: "a1 = a\<lparr>mesh_id := i, read_data_id := j, write_data_id := k\<rparr>" by blast
  from initialize_mesh_Inr[OF 2] obtain pr2 ids rd2 wd2 where
    d2: "d2 = insert_coupling_dofs (coupling_dofs a2) data" and
    e: "extract_boundary_dofs D h T {deal_boundary_interface_id a1} = Inr (coupling_dofs a2)" and
    a2: "a2 = a1\<lparr>precice := pr2, n_interface_nodes := int (length (coupling_dofs a2)),
               coupling_dofs := coupling_dofs a2, interface_nodes_ids := ids,
               read_data := rd2, write_data := wd2\<rparr>" and
    l2: "length ids = length (coupling_dofs a2)" "length rd2 = length (coupling_dofs a2)"
        "length wd2 = length (coupling_dofs a2)"
    by blast
  from write_initial_data_Inr[OF 3] obtain pr3 wd3 where
    a3: "a3 = a2\<lparr>precice := pr3, write_data := wd3\<rparr>" and
    l3: "length wd3 = length (write_data a2)" by blast
  from assms(2) d2 have "std_map d2" by (simp add: insert_coupling_dofs_std_map)
  from read_coupling_data_Inr[OF 4 this] obtain rd4 where
    k: "map_keys data' = map_keys d2" and lp: "length p' = length p" and
    a4: "a' = a3\<lparr>precice := q, read_data := rd4\<rparr>" and
    l4: "length rd4 = length (read_data (a3\<lparr>precice := q\<rparr>))"
    by auto
  let ?dofs = "coupling_dofs a2"
  have eq: "a' = a\<lparr>precice := q, mesh_id := i, read_data_id := j, write_data_id := k,
               n_interface_nodes := int (length ?dofs),
               coupling_dofs := ?dofs, interface_nodes_ids := ids,
               read_data := rd4, write_data := wd3\<rparr>"
    by (subst a4, subst a3, subst a2, subst a1) simp
  then have c: "coupling_dofs a' = ?dofs" by simp
  from l4 a3 have "length rd4 = length (read_data a2)" by simp
  also from a2 have "read_data a2 = rd2" by (metis Adapter.select_convs(12) Adapter.surjective Adapter.update_convs(12,13))
  finally have r4: "length rd4 = length ?dofs" using l2 by simp
  from a2 have "write_data a2 = wd2" by (metis Adapter.select_convs(13) Adapter.surjective Adapter.update_convs(13))
  with l3 l2 have w3: "length wd3 = length ?dofs" by simp
  from e a1 have e': "extract_boundary_dofs D h T {deal_boundary_interface_id a} = Inr ?dofs"
    by simp
  from eq have sel: "n_interface_nodes a' = int (length ?dofs)"
    "interface_nodes_ids a' = ids" "read_data a' = rd4" "write_data a' = wd3"
    "deal_boundary_interface_id a' = deal_boundary_interface_id a"
    "adapter_mesh_name a' = adapter_mesh_name a"
    "adapter_read_data_name a' = adapter_read_data_name a"
    "adapter_write_data_name a' = adapter_write_data_name a"
    by simp_all
  from dm gd e' k d2 lp sel l2(1) r4 w3 show ?thesis unfolding c by simp
qed

lemma map_assign_nth:
  "std_map m \<Longrightarrow> pos < length m \<Longrightarrow>
   map_assign (fst (m ! pos)) v m = m[pos := (fst (m ! pos), v)]"
proof (induction m arbitrary: pos)
  case Nil
  then show ?case by simp
next
  case (Cons e m)
  obtain k' v' where e: "e = (k', v')" by (cases e)
  show ?case
  proof (cases pos)
    case 0
    with e show ?thesis by simp
  next
    case (Suc q)
    with Cons.prems e have q: "q < length m" and sm: "std_map m"
      and lt: "k' < fst (m ! q)"
      by (auto simp: std_map_Cons map_keys_def)
    from Cons.IH[OF sm q] lt e Suc show ?thesis by simp
  qed
qed

lemma read_data_to_map_loop_nth:
  "read_data_to_map_loop n rd i pos data = (Inr data' :: 'e failure + dof_map) \<Longrightarrow>
   std_map data \<Longrightarrow> j < length data \<Longrightarrow>
   data' ! j = (if pos \<le> j \<and> j < pos + (nat n - i)
                then (fst (data ! j), rd ! (i + (j - pos))) else data ! j)"
proof (induction n rd i pos data rule: read_data_to_map_loop.induct)
  case (1 n rd i pos data)
  show ?case
  proof (cases "int i < n")
    case False
    then have "nat n - i = 0" by linarith
    moreover from "1.prems" False have "data' = data"
      by (subst (asm) read_data_to_map_loop.simps) simp
    ultimately show ?thesis by auto
  next
    case True
    let ?d = "map_assign (fst (data ! pos)) (rd ! i) data"
    from "1.prems"(1) True have i: "i < length rd" and pos: "pos < length data"
      and rec: "read_data_to_map_loop n rd (Suc i) (Suc pos) ?d
           = (Inr data' :: 'e failure + dof_map)"
      by (subst (asm) read_data_to_map_loop.simps, simp split: if_splits)+
    from map_assign_nth[OF "1.prems"(2) pos]
    have d: "?d = data[pos := (fst (data ! pos), rd ! i)]" .
    from pos have "fst (data ! pos) \<in> set (map_keys data)"
      by (simp add: map_keys_def)
    from map_assign_keys[OF "1.prems"(2) this] "1.prems"(2) have sm: "std_map ?d"
      by (simp add: std_map_def)
    from d "1.prems"(3) have j: "j < length ?d" by simp
    define r where "r = nat n - Suc i"
    with True have n: "nat n - i = Suc r" and n': "nat n - Suc i = r" by linarith+
    note IH = "1.IH"[OF True _ _ rec sm j, unfolded n']
    have "data' ! j = (if pos \<le> j \<and> j < pos + Suc r
                then (fst (data ! j), rd ! (i + (j - pos))) else data ! j)"
    proof (cases "j = pos")
      case True
      with IH i pos d show ?thesis by simp
    next
      case False
      show ?thesis
      proof (cases "pos < j")
        case True
        then have ar: "Suc i + (j - Suc pos) = i + (j - pos)" by arith
        from True IH d "1.prems"(3) i pos show ?thesis
          by (simp only: ar) simp
      next
        case False
        with \<open>j \<noteq> pos\<close> have "j < pos" by simp
        with IH d "1.prems"(3) i pos show ?thesis by simp
      qed
    qed
    then show ?thesis unfolding n .
  qed
qed


lemma read_coupling_data_frame:
  assumes "read_coupling_data P a p data
             = (Inr (a', p', data') :: 'e failure + 'p Adapter \<times> real list \<times> dof_map)"
    and "std_map data" and "nat (n_interface_nodes a) \<le> j" and "j < length data"
  shows "data' ! j = data ! j"
proof -
  from assms(1) obtain available where
    av: "isReadDataAvailable P (precice a) = Inr available"
    by (auto simp: read_coupling_data_def bindE_Inr_iff ext_Inr_iff)
  show ?thesis
  proof (cases available)
    case False
    with assms(1) av show ?thesis
      by (auto simp: read_coupling_data_def bindE_def ext_def)
  next
    case True
    with assms(1) av obtain rd where
      loop: "read_data_to_map_loop (n_interface_nodes a) rd 0 0 data
             = (Inr data' :: 'e failure + dof_map)"
      by (auto simp: read_coupling_data_def bindE_Inr_iff ext_Inr_iff Let_def)
    from read_data_to_map_loop_nth[OF loop assms(2,4)] assms(3) show ?thesis by simp
  qed
qed

lemma Adapter_advance_frame:
  assumes "Adapter_advance P a v p dt data
             = (Inr (a', p', data') :: 'e failure + 'p Adapter \<times> real list \<times> dof_map)"
    and "std_map data" and "nat (n_interface_nodes a) \<le> j" and "j < length data"
  shows "data' ! j = data ! j"
proof -
  from assms(1) obtain a1 pr where
    a1: "write_coupling_data P a v dt = (Inr a1 :: 'e failure + 'p Adapter)" and
    rc: "read_coupling_data P (a1\<lparr>precice := pr\<rparr>) p data
             = (Inr (a', p', data') :: 'e failure + 'p Adapter \<times> real list \<times> dof_map)"
    by (auto simp: Adapter_advance_def bindE_Inr_iff ext_Inr_iff Let_def)
  from write_coupling_data_Inr[OF a1]
  have "n_interface_nodes (a1\<lparr>precice := pr\<rparr>) = n_interface_nodes a" by auto
  with read_coupling_data_frame[OF rc assms(2) _ assms(4)] assms(3) show ?thesis by simp
qed

lemma distinct_subset_length:
  "distinct xs \<Longrightarrow> set xs \<subseteq> set ys \<Longrightarrow> length xs \<le> length ys"
  by (metis card_length card_mono distinct_card List.finite_set le_trans)

text \<open>
  Claim C9.  The map \<open>data\<close> is a \<^verbatim>\<open>std::map\<close>, with its keys in increasing order.
  Entering the coupling dofs leaves every entry that is present as it is and adds the value
  \<open>0\<close> at every coupling dof that is not a key yet.  When \<^verbatim>\<open>Adapter::initialize\<close>
  returns, the keys of \<open>data\<close> are those it had together with the coupling dofs, and the
  map has at least \<open>n_interface_nodes\<close> entries (the coupling dofs of an
  \<^verbatim>\<open>IndexSet\<close> are distinct).  Every call of \<^verbatim>\<open>Adapter::advance\<close> that returns, in
  any state, leaves the list of keys as it is, and the entries after the first
  \<open>n_interface_nodes\<close> ones too: it inserts and removes nothing.
\<close>

theorem initialize_enters_dofs_advance_keeps_keys:
  fixes P :: "('p, 'e) precice_api" and D :: "('h, 'm, 'f, 'e) dealii_api"
  assumes "std_map data"
  shows
    "(\<forall>dofs k. map_lookup (insert_coupling_dofs dofs data) k =
        (case map_lookup data k of
           Some w \<Rightarrow> Some w
         | None \<Rightarrow> if k \<in> set dofs then Some 0 else None)) \<and>
     (\<forall>a' p' data'.
        Adapter_initialize P D dm a h T v p data = Inr (a', p', data') \<longrightarrow>
          std_map data' \<and>
          map_keys data' = map_keys (insert_coupling_dofs (coupling_dofs a') data) \<and>
          set (map_keys data') = set (map_keys data) \<union> set (coupling_dofs a') \<and>
          (distinct (coupling_dofs a') \<longrightarrow> nat (n_interface_nodes a') \<le> length data')) \<and>
     (\<forall>b w q dt d b' q' d'.
        std_map d \<and> Adapter_advance P b w q dt d = Inr (b', q', d') \<longrightarrow>
          map_keys d' = map_keys d \<and> std_map d' \<and>
          (\<forall>j. nat (n_interface_nodes b) \<le> j \<and> j < length d \<longrightarrow> d' ! j = d ! j))"
proof (intro conjI allI impI)
  fix dofs k
  show "map_lookup (insert_coupling_dofs dofs data) k =
        (case map_lookup data k of
           Some w \<Rightarrow> Some w
         | None \<Rightarrow> if k \<in> set dofs then Some 0 else None)"
    by (rule insert_coupling_dofs_lookup[OF assms])
next
  fix a' p' data'
  assume init: "Adapter_initialize P D dm a h T v p data = Inr (a', p', data')"
  note I = Adapter_initialize_Inr[OF init assms]
  from I show keys: "map_keys data' = map_keys (insert_coupling_dofs (coupling_dofs a') data)"
    by blast
  with insert_coupling_dofs_std_map[OF assms, of "coupling_dofs a'"]
  show "std_map data'" by (simp add: std_map_def)
  from keys show ks: "set (map_keys data') = set (map_keys data) \<union> set (coupling_dofs a')"
    by (simp add: insert_coupling_dofs_keys)
  assume "distinct (coupling_dofs a')"
  with ks have "length (coupling_dofs a') \<le> length (map_keys data')"
    by (intro distinct_subset_length) auto
  moreover from I have "n_interface_nodes a' = int (length (coupling_dofs a'))"
    by auto
  ultimately show "nat (n_interface_nodes a') \<le> length data'"
    by (simp add: map_keys_def)
next
  fix b :: "'p Adapter" and w q dt d b' q' d'
  assume "std_map d \<and> Adapter_advance P b w q dt d = Inr (b', q', d')"
  then have sm: "std_map d" and adv: "Adapter_advance P b w q dt d = Inr (b', q', d')"
    by simp_all
  from Adapter_advance_Inr[OF adv sm] show k: "map_keys d' = map_keys d" by blast
  with sm show "std_map d'" by (simp add: std_map_def)
  fix j assume "nat (n_interface_nodes b) \<le> j \<and> j < length d"
  with Adapter_advance_frame[OF adv sm] show "d' ! j = d ! j" by blast
qed

lemma demo_initialize:
  "Adapter_initialize demo_precice demo_dealii 2 demo_new_adapter 4 Triangulation_empty
     [0, 0, 0, 0] [0, 0, 0, 0] []
   = Inr (demo_adapter\<lparr>precice := 2, read_data := [5, 6]\<rparr>, [0, 5, 0, 6], [(1, 5), (3, 6)])"
  by (simp add: Adapter_initialize_def demo_precice_def demo_dealii_def demo_new_adapter_def
     demo_adapter_def
     initialize_ids_def initialize_mesh_def write_initial_data_def read_coupling_data_def
     bindE_def ext_def Let_def insert_coupling_dofs_def resize_def write_block_def
     interface_positions_def
     read_data_to_map_loop.simps format_precice_to_deal_def precice_to_deal_loop.simps
     upt_rec numeral_2_eq_2)

lemma demo_advance:
  "Adapter_advance demo_precice (demo_adapter\<lparr>precice := 2, read_data := [5, 6]\<rparr>)
     [10, 11, 12, 13] [0, 5, 0, 6] 1 [(1, 5), (3, 6)]
   = Inr (demo_adapter\<lparr>precice := 1, read_data := [5, 6], write_data := [11, 13]\<rparr>,
          [0, 5, 0, 6], [(1, 5), (3, 6)])"
  by (simp add: Adapter_advance_def write_coupling_data_def demo_precice_def demo_adapter_def
      read_coupling_data_def format_deal_to_precice_def deal_to_precice_loop.simps
     bindE_def ext_def Let_def  write_block_def
     read_data_to_map_loop.simps format_precice_to_deal_def precice_to_deal_loop.simps
     upt_rec numeral_2_eq_2)

theorem initialize_enters_dofs_advance_keeps_keys_witness:
  "std_map [] \<and>
   Adapter_initialize demo_precice demo_dealii 2 demo_new_adapter 4 Triangulation_empty
     [0, 0, 0, 0] [0, 0, 0, 0] []
     = Inr (demo_adapter\<lparr>precice := 2, read_data := [5, 6]\<rparr>, [0, 5, 0, 6], [(1, 5), (3, 6)]) \<and>
   set (map_keys [(1, 5), (3, 6)])
     = set (map_keys []) \<union> set (coupling_dofs (demo_adapter\<lparr>precice := 2, read_data := [5, 6]\<rparr>)) \<and>
   Adapter_advance demo_precice (demo_adapter\<lparr>precice := 2, read_data := [5, 6]\<rparr>)
     [10, 11, 12, 13] [0, 5, 0, 6] 1 [(1, 5), (3, 6)]
     = Inr (demo_adapter\<lparr>precice := 1, read_data := [5, 6], write_data := [11, 13]\<rparr>,
          [0, 5, 0, 6], [(1, 5), (3, 6)]) \<and>
   std_map [(1, 5), (3, 6)]"
proof -
  have e: "std_map []" by (simp add: std_map_def map_keys_def)
  note T = initialize_enters_dofs_advance_keeps_keys[OF e, where P = demo_precice
      and D = demo_dealii and dm = 2 and a = demo_new_adapter and h = 4
      and T = Triangulation_empty and v = "[0, 0, 0, 0]" and p = "[0, 0, 0, 0]"]
  from T demo_initialize have
    "std_map [(1, 5), (3, 6)]"
    "set (map_keys [(1, 5), (3, 6)])
     = set (map_keys []) \<union> set (coupling_dofs (demo_adapter\<lparr>precice := 2, read_data := [5, 6]\<rparr>))"
    by blast+
  with e demo_initialize demo_advance show ?thesis by blast
qed


section \<open>Properties: the mesh\<close>

lemma demo_problem_new: "LaplaceProblem_new demo_precice demo_dealii = Inr demo_problem"
  by (simp add: LaplaceProblem_new_def Adapter_new_def demo_precice_def demo_dealii_def
      demo_problem_def demo_new_adapter_def CouplingParamters_default_def bindE_def ext_def)

lemma cell_points_Nil: "cell_points [] = {[]}"
  by (simp add: cell_points_def)

lemma cell_points_Cons: "cell_points ((lo, hi) # c) = set_Cons {lo..hi} (cell_points c)"
  by (simp add: cell_points_def)

lemma set_Cons_Un: "set_Cons (A \<union> B) X = set_Cons A X \<union> set_Cons B X"
  by (auto simp: set_Cons_def)

lemma set_Cons_UN: "set_Cons A (\<Union>x\<in>I. X x) = (\<Union>x\<in>I. set_Cons A (X x))"
  by (auto simp: set_Cons_def)

lemma halves: "lo \<le> hi \<Longrightarrow> {lo..(lo + hi) / 2} \<union> {(lo + hi) / 2..hi} = {lo..(hi::real)}"
  by auto

lemma children_cover:
  "proper c \<Longrightarrow> (\<Union>c'\<in>set (children c). cell_points c') = cell_points c"
proof (induction c)
  case Nil
  then show ?case by (simp add: cell_points_Nil)
next
  case (Cons iv c)
  obtain lo hi where iv: "iv = (lo, hi)" by (cases iv)
  with Cons.prems have le: "lo \<le> hi" and pc: "proper c" by (simp_all add: proper_def)
  have "(\<Union>c'\<in>set (children (iv # c)). cell_points c')
        = (\<Union>rest\<in>set (children c). set_Cons {lo..(lo + hi) / 2} (cell_points rest)
              \<union> set_Cons {(lo + hi) / 2..hi} (cell_points rest))"
    by (simp add: iv cell_points_Cons)
  also have "\<dots> = (\<Union>rest\<in>set (children c). set_Cons {lo..hi} (cell_points rest))"
    by (simp add: set_Cons_Un[symmetric] halves[OF le])
  also have "\<dots> = set_Cons {lo..hi} (cell_points c)"
    by (simp add: set_Cons_UN[symmetric] Cons.IH[OF pc])
  finally show ?case by (simp add: iv cell_points_Cons)
qed

lemma children_proper: "proper c \<Longrightarrow> c' \<in> set (children c) \<Longrightarrow> proper c'"
proof (induction c arbitrary: c')
  case Nil
  then show ?case by simp
next
  case (Cons iv c)
  obtain lo hi where iv: "iv = (lo, hi)" by (cases iv)
  with Cons show ?case by (auto simp: proper_def)
qed

lemma refine_cells_cover:
  "\<forall>c\<in>set cs. proper c \<Longrightarrow>
   (\<Union>c\<in>set (refine_cells n cs). cell_points c) = (\<Union>c\<in>set cs. cell_points c)"
proof (induction n arbitrary: cs)
  case 0
  then show ?case by simp
next
  case (Suc n)
  let ?cs = "concat (map children cs)"
  from Suc.prems have "\<forall>c\<in>set ?cs. proper c"
    by (auto dest: children_proper)
  from Suc.IH[OF this] have "(\<Union>c\<in>set (refine_cells (Suc n) cs). cell_points c)
      = (\<Union>c\<in>set ?cs. cell_points c)" by simp
  also have "\<dots> = (\<Union>c\<in>set cs. \<Union>c'\<in>set (children c). cell_points c')" by auto
  also from Suc.prems have "\<dots> = (\<Union>c\<in>set cs. cell_points c)"
    by (simp add: children_cover)
  finally show ?case .
qed


lemma at_boundary_domain: "domain T' = domain T \<Longrightarrow> at_boundary T' g = at_boundary T g"
  by (simp add: at_boundary_def)

lemma mark_faces_of_cell:
  "domain (foldl (\<lambda>T f. let face = cell_face cell f
                 in if at_boundary T face \<and> center face ! 0 = 1
                    then set_boundary_id face b T else T) T fs) = domain T \<and>
   active_cells (foldl (\<lambda>T f. let face = cell_face cell f
                 in if at_boundary T face \<and> center face ! 0 = 1
                    then set_boundary_id face b T else T) T fs) = active_cells T \<and>
   boundary_ids (foldl (\<lambda>T f. let face = cell_face cell f
                 in if at_boundary T face \<and> center face ! 0 = 1
                    then set_boundary_id face b T else T) T fs) g
     = (if g \<in> cell_face cell ` set fs \<and> at_boundary T g \<and> center g ! 0 = 1
        then b else boundary_ids T g)"
proof (induction fs arbitrary: T)
  case Nil
  then show ?case by simp
next
  case (Cons f fs)
  let ?face = "cell_face cell f"
  let ?T = "if at_boundary T ?face \<and> center ?face ! 0 = 1
            then set_boundary_id ?face b T else T"
  have d: "domain ?T = domain T" and a: "active_cells ?T = active_cells T"
    by (simp_all add: set_boundary_id_def)
  have ids: "boundary_ids ?T g
      = (if g = ?face \<and> at_boundary T g \<and> center g ! 0 = 1 then b else boundary_ids T g)"
    by (auto simp: set_boundary_id_def)
  from Cons.IH[of ?T] d a ids at_boundary_domain[OF d, of g]
  show ?case by (auto simp: Let_def)
qed

lemma mark_interface_result:
  "domain (mark_interface dm b T) = domain T \<and>
   active_cells (mark_interface dm b T) = active_cells T \<and>
   boundary_ids (mark_interface dm b T) g
     = (if g \<in> (\<Union>c\<in>set (active_cells T). cell_face c ` set (face_indices dm)) \<and>
           at_boundary T g \<and> center g ! 0 = 1
        then b else boundary_ids T g)"
proof -
  have "domain (foldl (\<lambda>T cell.
         foldl (\<lambda>T f.
             let face = cell_face cell f
             in if at_boundary T face \<and> center face ! 0 = 1
                then set_boundary_id face b T else T)
           T (face_indices dm)) T cs) = domain T \<and>
     active_cells (foldl (\<lambda>T cell.
         foldl (\<lambda>T f.
             let face = cell_face cell f
             in if at_boundary T face \<and> center face ! 0 = 1
                then set_boundary_id face b T else T)
           T (face_indices dm)) T cs) = active_cells T \<and>
     boundary_ids (foldl (\<lambda>T cell.
         foldl (\<lambda>T f.
             let face = cell_face cell f
             in if at_boundary T face \<and> center face ! 0 = 1
                then set_boundary_id face b T else T)
           T (face_indices dm)) T cs) g
     = (if g \<in> (\<Union>c\<in>set cs. cell_face c ` set (face_indices dm)) \<and>
           at_boundary T g \<and> center g ! 0 = 1
        then b else boundary_ids T g)" for cs
  proof (induction cs arbitrary: T)
    case Nil
    then show ?case by simp
  next
    case (Cons c cs)
    let ?T = "foldl (\<lambda>T f.
             let face = cell_face c f
             in if at_boundary T face \<and> center face ! 0 = 1
                then set_boundary_id face b T else T)
           T (face_indices dm)"
    note M = mark_faces_of_cell[of c b T "face_indices dm" g]
    from M have d: "domain ?T = domain T" by blast
    from Cons.IH[of ?T] M at_boundary_domain[OF d, of g]
    show ?case by auto
  qed
  from this[of "active_cells T"] show ?thesis
    by (simp add: mark_interface_def)
qed


lemma make_grid_triangulation:
  "triangulation (make_grid dm lp)
     = mark_interface dm (interface_boundary_id lp) (refine_global 4 (hyper_cube dm (- 1) 1))"
  by (simp add: make_grid_def)

lemma make_grid_covered:
  "covered (triangulation (make_grid dm lp)) = cell_points (replicate dm (- 1, 1))"
proof -
  have "proper (replicate dm (- 1, 1))"
    by (simp add: proper_def list_all_iff)
  then have "(\<Union>c\<in>set (refine_cells 4 [replicate dm (- 1, 1)]). cell_points c)
      = cell_points (replicate dm (- 1, 1))"
    by (subst refine_cells_cover) simp_all
  then show ?thesis
    using mark_interface_result[of dm "interface_boundary_id lp"
        "refine_global 4 (hyper_cube dm (- 1) 1)"]
    by (simp add: covered_def make_grid_triangulation refine_global_def hyper_cube_def Let_def)
qed

text \<open>
  Claim C2, as amended.  \<^verbatim>\<open>main\<close> instantiates the problem in two space
  dimensions, and the active cells of the mesh that \<^verbatim>\<open>make_grid\<close> builds cover the
  square \<open>[-1, 1] \<times> [-1, 1]\<close>, whose sides have length two: the arguments of
  \<^verbatim>\<open>hyper_cube\<close> are \<open>-1\<close> and \<open>1\<close>.
\<close>

theorem make_grid_covers_square:
  "main_dimension = 2 \<and>
   covered (triangulation (make_grid main_dimension lp)) = cell_points [(- 1, 1), (- 1, 1)]"
  by (simp add: make_grid_covered main_dimension_def numeral_2_eq_2)

lemma cell_points_2:
  "[a, b] \<in> cell_points [(l1, h1), (l2, h2)] \<longleftrightarrow> l1 \<le> a \<and> a \<le> h1 \<and> l2 \<le> b \<and> b \<le> h2"
  by (auto simp: cell_points_def set_Cons_def)

text \<open>
  Claim C2 as stated fails: the region is not a unit square, since it holds the points
  \<open>(-1, -1)\<close> and \<open>(1, 1)\<close>.
\<close>

theorem make_grid_unit_square_counterexample:
  "\<not> unit_square (covered (triangulation (make_grid main_dimension demo_problem)))"
proof
  assume "unit_square (covered (triangulation (make_grid main_dimension demo_problem)))"
  then obtain x y where
    "cell_points [(- 1, 1), (- 1, 1)] = cell_points [(x, x + 1), (y, y + 1)]"
    by (auto simp: unit_square_def make_grid_covered main_dimension_def numeral_2_eq_2)
  then have eq: "\<And>p. p \<in> cell_points [(- 1, 1), (- 1, 1)]
      \<longleftrightarrow> p \<in> cell_points [(x, x + 1), (y, y + 1)]"
    by simp
  from eq[of "[- 1, - 1]"] eq[of "[1, 1]"] show False
    by (simp add: cell_points_2)
qed

lemma children_width:
  "c' \<in> set (children c) \<Longrightarrow>
   length c' = length c \<and>
   (\<forall>i<length c. snd (c' ! i) - fst (c' ! i) = (snd (c ! i) - fst (c ! i)) / 2)"
proof (induction c arbitrary: c')
  case Nil
  then show ?case by simp
next
  case (Cons iv c)
  obtain lo hi where iv: "iv = (lo, hi)" by (cases iv)
  from Cons.prems iv obtain rest where
    rest: "rest \<in> set (children c)" and
    c': "c' = (lo, (lo + hi) / 2) # rest \<or> c' = ((lo + hi) / 2, hi) # rest"
    by auto
  from Cons.IH[OF rest] c' iv show ?case
    by (auto simp: nth_Cons field_simps split: nat.splits)
qed

lemma refine_cells_width:
  "c \<in> set (refine_cells n cs) \<Longrightarrow>
   \<exists>c0\<in>set cs. length c = length c0 \<and>
     (\<forall>i<length c. snd (c ! i) - fst (c ! i) = (snd (c0 ! i) - fst (c0 ! i)) / 2 ^ n)"
proof (induction n arbitrary: cs)
  case 0
  then show ?case by auto
next
  case (Suc n)
  from Suc.prems have "c \<in> set (refine_cells n (concat (map children cs)))" by simp
  from Suc.IH[OF this]
  obtain c1 where c1: "c1 \<in> set (concat (map children cs))" and
    l1: "length c = length c1" and
    w1: "\<forall>i<length c. snd (c ! i) - fst (c ! i) = (snd (c1 ! i) - fst (c1 ! i)) / 2 ^ n"
    by blast
  from c1 obtain c0 where c0: "c0 \<in> set cs" and ch: "c1 \<in> set (children c0)" by auto
  from children_width[OF ch] have l0: "length c1 = length c0" and
    w0: "\<forall>i<length c0. snd (c1 ! i) - fst (c1 ! i) = (snd (c0 ! i) - fst (c0 ! i)) / 2"
    by blast+
  have "\<forall>i<length c. snd (c ! i) - fst (c ! i) = (snd (c0 ! i) - fst (c0 ! i)) / 2 ^ Suc n"
  proof (intro allI impI)
    fix i assume i: "i < length c"
    with w1 have "snd (c ! i) - fst (c ! i) = (snd (c1 ! i) - fst (c1 ! i)) / 2 ^ n" by blast
    also from i l1 l0 w0 have "snd (c1 ! i) - fst (c1 ! i) = (snd (c0 ! i) - fst (c0 ! i)) / 2"
      by simp
    finally show "snd (c ! i) - fst (c ! i) = (snd (c0 ! i) - fst (c0 ! i)) / 2 ^ Suc n"
      by simp
  qed
  with c0 l1 l0 show ?case by auto
qed

lemma mark_interface_cells: "cells (mark_interface dm b T) = cells T"
proof -
  have 1: "cells (foldl (\<lambda>T f. let face = cell_face cell f
                 in if at_boundary T face \<and> center face ! 0 = 1
                    then set_boundary_id face b T else T) T fs) = cells T" for cell fs T
    by (induction fs arbitrary: T) (simp_all add: Let_def set_boundary_id_def)
  have "cells (foldl (\<lambda>T cell.
         foldl (\<lambda>T f.
             let face = cell_face cell f
             in if at_boundary T face \<and> center face ! 0 = 1
                then set_boundary_id face b T else T)
           T (face_indices dm)) T cs) = cells T" for cs
    by (induction cs arbitrary: T) (simp_all add: 1)
  then show ?thesis by (simp add: mark_interface_def)
qed

lemma coarse_face_not_active:
  assumes "c \<in> set (refine_cells 4 [[(- 1, 1), (- 1, 1)]])"
  shows "cell_face c f \<noteq> Face 0 [(1, 1), (- 1, 1)]"
proof
  assume eq: "cell_face c f = Face 0 [(1, 1), (- 1, 1)]"
  from refine_cells_width[OF assms] have l: "length c = 2" and
    w: "snd (c ! 1) - fst (c ! 1) = 2 / 2 ^ 4" by auto
  from eq have "f div 2 = 0" and
    "c[0 := (if even f then (fst (c ! 0), fst (c ! 0)) else (snd (c ! 0), snd (c ! 0)))]
        = [(1, 1), (- 1, 1)]"
    by (auto simp: cell_face_def Let_def)
  then have "c ! 1 = (- 1, 1)"
    by (metis nth_list_update_neq nth_Cons_0 nth_Cons_Suc One_nat_def zero_neq_one)
  with w show False by simp
qed

text \<open>
  Claim C10, as amended.  After \<^verbatim>\<open>make_grid\<close>, with the interface boundary id \<open>1\<close>
  that the constructor sets, every face of every active cell has the boundary id \<open>1\<close> if
  and only if it lies at the boundary and the x-coordinate of its center is \<open>1\<close>, and every
  other face of an active cell at the boundary has kept the boundary id \<open>0\<close>.  Of all
  faces of the mesh, those of refined cells included, none that is not at the boundary with
  the x-coordinate \<open>1\<close> of its center has the id \<open>1\<close>; and a face that is not a face
  of an active cell, which the loop of \<^verbatim>\<open>make_grid\<close> does not visit, has the boundary
  id that the mesh generator gave it: \<open>0\<close> at the boundary.
\<close>

theorem make_grid_marks_interface:
  assumes "interface_boundary_id lp = 1"
    and "c \<in> set (active_cells (triangulation (make_grid dm lp)))"
    and "f \<in> set (face_indices dm)"
  shows "(boundary_id (triangulation (make_grid dm lp)) (cell_face c f) = 1 \<longleftrightarrow>
            at_boundary (triangulation (make_grid dm lp)) (cell_face c f) \<and>
            center (cell_face c f) ! 0 = 1) \<and>
         (at_boundary (triangulation (make_grid dm lp)) (cell_face c f) \<and>
            center (cell_face c f) ! 0 \<noteq> 1 \<longrightarrow>
            boundary_id (triangulation (make_grid dm lp)) (cell_face c f) = 0) \<and>
         (boundary_id (triangulation (make_grid dm lp)) g = 1 \<longrightarrow>
            at_boundary (triangulation (make_grid dm lp)) g \<and> center g ! 0 = 1) \<and>
         (g \<notin> (\<Union>c\<in>set (active_cells (triangulation (make_grid dm lp))).
                  cell_face c ` set (face_indices dm)) \<longrightarrow>
            boundary_id (triangulation (make_grid dm lp)) g
              = (if at_boundary (triangulation (make_grid dm lp)) g then 0
                 else internal_face_boundary_id))"
proof -
  let ?R = "refine_global 4 (hyper_cube dm (- 1) 1)"
  let ?T = "triangulation (make_grid dm lp)"
  let ?g = "cell_face c f"
  note M = mark_interface_result[of dm 1 ?R ?g]
  from assms(1) have T: "?T = mark_interface dm 1 ?R"
    by (simp add: make_grid_triangulation)
  from M T have d: "domain ?T = domain ?R" by simp
  from assms(2) T M have "c \<in> set (active_cells ?R)" by simp
  with assms(3) have "?g \<in> (\<Union>c\<in>set (active_cells ?R). cell_face c ` set (face_indices dm))"
    by blast
  with M T have ids: "boundary_ids ?T ?g
      = (if at_boundary ?R ?g \<and> center ?g ! 0 = 1 then 1 else boundary_ids ?R ?g)"
    by simp
  have "domain ?R = domain (hyper_cube dm (- 1) 1)"
    by (simp add: refine_global_def)
  then have "boundary_ids ?R ?g
      = (if at_boundary ?R ?g then 0 else internal_face_boundary_id)"
    by (simp add: refine_global_def hyper_cube_def Let_def at_boundary_def)
  with ids at_boundary_domain[OF d, of ?g]
  have active: "(boundary_id ?T ?g = 1 \<longleftrightarrow> at_boundary ?T ?g \<and> center ?g ! 0 = 1) \<and>
      (at_boundary ?T ?g \<and> center ?g ! 0 \<noteq> 1 \<longrightarrow> boundary_id ?T ?g = 0)"
    by (simp add: boundary_id_def internal_face_boundary_id_def)
  note N = mark_interface_result[of dm 1 ?R g]
  from N T have a: "active_cells ?T = active_cells ?R" by simp
  have R: "boundary_ids ?R g = (if at_boundary ?R g then 0 else internal_face_boundary_id)"
    by (simp add: refine_global_def hyper_cube_def Let_def at_boundary_def)
  from N T R at_boundary_domain[OF d, of g]
  have any: "boundary_id ?T g = 1 \<longrightarrow> at_boundary ?T g \<and> center g ! 0 = 1"
    by (simp add: boundary_id_def internal_face_boundary_id_def split: if_splits)
  from N T R at_boundary_domain[OF d, of g]
  have rest: "g \<notin> (\<Union>c\<in>set (active_cells ?T). cell_face c ` set (face_indices dm)) \<longrightarrow>
      boundary_id ?T g = (if at_boundary ?T g then 0 else internal_face_boundary_id)"
    unfolding a by (simp add: boundary_id_def)
  from active any rest show ?thesis by blast
qed

lemma demo_cell:
  "[(7/8, 1), (- 1, - 7/8)] \<in> set (active_cells (triangulation (make_grid 2 demo_problem)))"
proof -
  have "[(7/8, 1), (- 1, - 7/8)] \<in> set (refine_cells 4 [[(- 1, 1), (- 1, 1)]])"
    by (simp add: eval_nat_numeral)
  with mark_interface_result[of 2 "interface_boundary_id demo_problem"
        "refine_global 4 (hyper_cube 2 (- 1) 1)"]
  show ?thesis
    by (simp add: make_grid_triangulation refine_global_def hyper_cube_def Let_def
        numeral_2_eq_2)
qed

lemma demo_domain:
  "domain (triangulation (make_grid 2 demo_problem)) = [(- 1, 1), (- 1, 1)]"
  using mark_interface_result[of 2 "interface_boundary_id demo_problem"
        "refine_global 4 (hyper_cube 2 (- 1) 1)"]
  by (simp add: make_grid_triangulation refine_global_def hyper_cube_def Let_def
        numeral_2_eq_2)

theorem make_grid_marks_interface_witness:
  "interface_boundary_id demo_problem = 1 \<and>
   [(7/8, 1), (- 1, - 7/8)] \<in> set (active_cells (triangulation (make_grid 2 demo_problem))) \<and>
   1 \<in> set (face_indices 2) \<and> 2 \<in> set (face_indices 2) \<and>
   at_boundary (triangulation (make_grid 2 demo_problem))
     (cell_face [(7/8, 1), (- 1, - 7/8)] 1) \<and>
   center (cell_face [(7/8, 1), (- 1, - 7/8)] 1) ! 0 = 1 \<and>
   boundary_id (triangulation (make_grid 2 demo_problem))
     (cell_face [(7/8, 1), (- 1, - 7/8)] 1) = 1 \<and>
   at_boundary (triangulation (make_grid 2 demo_problem))
     (cell_face [(7/8, 1), (- 1, - 7/8)] 2) \<and>
   center (cell_face [(7/8, 1), (- 1, - 7/8)] 2) ! 0 \<noteq> 1 \<and>
   boundary_id (triangulation (make_grid 2 demo_problem))
     (cell_face [(7/8, 1), (- 1, - 7/8)] 2) = 0"
proof -
  have i: "interface_boundary_id demo_problem = 1"
    by (simp add: demo_problem_def)
  have f: "1 \<in> set (face_indices 2)" "2 \<in> set (face_indices 2)"
    by (simp_all add: face_indices_def)
  have g1: "at_boundary (triangulation (make_grid 2 demo_problem))
              (cell_face [(7/8, 1), (- 1, - 7/8)] 1) \<and>
            center (cell_face [(7/8, 1), (- 1, - 7/8)] 1) ! 0 = 1"
    by (simp add: at_boundary_def demo_domain cell_face_def center_def Let_def)
  have g2: "at_boundary (triangulation (make_grid 2 demo_problem))
              (cell_face [(7/8, 1), (- 1, - 7/8)] 2) \<and>
            center (cell_face [(7/8, 1), (- 1, - 7/8)] 2) ! 0 \<noteq> 1"
    by (simp add: at_boundary_def demo_domain cell_face_def center_def Let_def)
  from make_grid_marks_interface[OF i demo_cell f(1)] g1
  have "boundary_id (triangulation (make_grid 2 demo_problem))
     (cell_face [(7/8, 1), (- 1, - 7/8)] 1) = 1" by blast
  moreover from make_grid_marks_interface[OF i demo_cell f(2)] g2
  have "boundary_id (triangulation (make_grid 2 demo_problem))
     (cell_face [(7/8, 1), (- 1, - 7/8)] 2) = 0" by blast
  ultimately show ?thesis using i demo_cell f g1 g2 by blast
qed

text \<open>
  Claim C10 as stated fails for a face of a cell that is not active.  The mesh keeps the
  cell \<open>[-1, 1] \<times> [-1, 1]\<close> that was refined; its face in positive x direction lies at
  the boundary and the x-coordinate of its center is \<open>1\<close>, yet it has the boundary id
  \<open>0\<close> and not the interface boundary id \<open>1\<close>: the loop of \<^verbatim>\<open>make_grid\<close> sets the id
  on the faces of the active cells only.
\<close>

theorem make_grid_coarse_face_counterexample:
  "[(- 1, 1), (- 1, 1)] \<in> set (cells (triangulation (make_grid 2 demo_problem))) \<and>
   1 \<in> set (face_indices 2) \<and>
   at_boundary (triangulation (make_grid 2 demo_problem)) (cell_face [(- 1, 1), (- 1, 1)] 1) \<and>
   center (cell_face [(- 1, 1), (- 1, 1)] 1) ! 0 = 1 \<and>
   boundary_id (triangulation (make_grid 2 demo_problem)) (cell_face [(- 1, 1), (- 1, 1)] 1) = 0 \<and>
   interface_boundary_id (make_grid 2 demo_problem) = 1"
proof -
  let ?R = "refine_global 4 (hyper_cube 2 (- 1) 1)"
  let ?T = "triangulation (make_grid 2 demo_problem)"
  let ?g = "Face 0 [(1, 1), (- 1, 1)]"
  have g: "cell_face [(- 1, 1), (- 1, 1)] (Suc 0) = ?g"
    by (simp add: cell_face_def Let_def)
  have T: "?T = mark_interface 2 1 ?R"
    by (simp add: make_grid_triangulation demo_problem_def)
  have c: "[(- 1, 1), (- 1, 1)] \<in> set (cells ?T)"
    unfolding T mark_interface_cells
    by (simp add: refine_global_def hyper_cube_def Let_def numeral_2_eq_2)
  have a: "at_boundary ?T ?g \<and> center ?g ! 0 = 1"
    by (simp add: at_boundary_def demo_domain center_def Let_def)
  have act: "active_cells ?R = refine_cells 4 [[(- 1, 1), (- 1, 1)]]"
    by (simp add: refine_global_def hyper_cube_def Let_def numeral_2_eq_2)
  have "?g \<notin> (\<Union>c\<in>set (active_cells ?R). cell_face c ` set (face_indices 2))"
    unfolding act using coarse_face_not_active by fastforce
  with mark_interface_result[of 2 1 ?R ?g] T
  have "boundary_ids ?T ?g = boundary_ids ?R ?g" by simp
  also have "\<dots> = 0"
    by (simp add: refine_global_def hyper_cube_def Let_def at_boundary_def numeral_2_eq_2)
  finally have b: "boundary_id ?T ?g = 0" by (simp add: boundary_id_def)
  have i: "interface_boundary_id (make_grid 2 demo_problem) = 1"
    by (simp add: make_grid_def demo_problem_def)
  from c a b i show ?thesis by (simp add: g face_indices_def)
qed


section \<open>Properties: the run\<close>

lemma run_loop_stop:
  "isCouplingOngoing P (precice (adapter lp)) = Inr False \<Longrightarrow>
   run_loop P D dm lp = Some (Inr lp)"
  by (subst run_loop.simps) (simp add: ext_def)

lemma run_loop_iteration:
  assumes "isCouplingOngoing P (precice (adapter lp)) = Inr True"
    and "assemble_system D dm lp = Inr assembled"
    and "solve D assembled = Inr solved"
    and "output_results D dm solved = Inr written"
    and "adapter_advance P written = Inr exchanged"
  shows "run_loop P D dm lp = run_loop P D dm exchanged"
  using assms by (subst run_loop.simps) (simp add: ext_def bindE_def)

lemma iterations_run_loop:
  "coupling_iterations P D dm k lp lp' \<Longrightarrow>
   run_loop P D dm lp = run_loop P D dm lp'"
  by (induction rule: coupling_iterations.induct) (simp_all add: run_loop_iteration)

lemma run_loop_Some_iterations:
  fixes P :: "('p, 'e) precice_api" and D :: "('h, 'm, 'f, 'e) dealii_api"
  assumes "run_loop P D dm lp = Some y"
  shows "\<exists>k lp1. coupling_iterations P D dm k lp lp1 \<and>
           (isCouplingOngoing P (precice (adapter lp1)) = Inr False \<and> y = Inr lp1 \<or>
            (\<exists>e. isCouplingOngoing P (precice (adapter lp1)) = Inl e \<and> y = Inl (External e)) \<or>
            isCouplingOngoing P (precice (adapter lp1)) = Inr True \<and>
            (\<exists>x. bindE (assemble_system D dm lp1) (\<lambda>lp. bindE (solve D lp)
                    (\<lambda>lp. bindE (output_results D dm lp) (adapter_advance P))) = Inl x \<and>
                 y = Inl x))"
proof -
  define Q where "Q = (\<lambda>(P :: ('p, 'e) precice_api) (D :: ('h, 'm, 'f, 'e) dealii_api) dm lp
      (y :: 'e failure + ('p, 'h, 'm, 'f) LaplaceProblem).
      \<exists>k lp1. coupling_iterations P D dm k lp lp1 \<and>
           (isCouplingOngoing P (precice (adapter lp1)) = Inr False \<and> y = Inr lp1 \<or>
            (\<exists>e. isCouplingOngoing P (precice (adapter lp1)) = Inl e \<and> y = Inl (External e)) \<or>
            isCouplingOngoing P (precice (adapter lp1)) = Inr True \<and>
            (\<exists>x. bindE (assemble_system D dm lp1) (\<lambda>lp. bindE (solve D lp)
                    (\<lambda>lp. bindE (output_results D dm lp) (adapter_advance P))) = Inl x \<and>
                 y = Inl x)))"
  have "Q P D dm lp y"
  proof (rule run_loop.raw_induct[where Pa = "\<lambda>(((P, D), dm), lp) y. Q P D dm lp y",
        simplified, OF _ assms])
    fix f and P :: "('p, 'e) precice_api" and D :: "('h, 'm, 'f, 'e) dealii_api"
      and dm lp and y :: "'e failure + ('p, 'h, 'm, 'f) LaplaceProblem"
    assume IH: "\<And>P D dm lp y. f P D dm lp = Some y \<Longrightarrow> Q P D dm lp y"
      and unf: "(case ext (isCouplingOngoing P (precice (adapter lp))) of
          Inl x \<Rightarrow> Some (Inl x)
        | Inr ongoing \<Rightarrow>
            if ongoing
            then case bindE (assemble_system D dm lp)
                     (\<lambda>lp. bindE (solve D lp)
                            (\<lambda>lp. bindE (output_results D dm lp)
                                   (adapter_advance P))) of
               Inl x \<Rightarrow> Some (Inl x) | Inr lp \<Rightarrow> f P D dm lp
            else Some (Inr lp)) = Some y"
    note here = coupling_iterations.no_iteration[of P D dm lp]
    show "Q P D dm lp y"
    proof (cases "isCouplingOngoing P (precice (adapter lp))")
      case (Inl e)
      with unf have "y = Inl (External e)" by (simp add: ext_def)
      with Inl here show ?thesis unfolding Q_def by blast
    next
      case (Inr ongoing)
      show ?thesis
      proof (cases ongoing)
        case False
        with unf Inr have "y = Inr lp" by (simp add: ext_def)
        moreover from Inr False
        have "isCouplingOngoing P (precice (adapter lp)) = Inr False" by simp
        ultimately show ?thesis using here unfolding Q_def by blast
      next
        case True
        with Inr have o': "isCouplingOngoing P (precice (adapter lp)) = Inr True" by simp
        show ?thesis
        proof (cases "bindE (assemble_system D dm lp) (\<lambda>lp. bindE (solve D lp)
                (\<lambda>lp. bindE (output_results D dm lp) (adapter_advance P)))")
          case (Inl x)
          with unf o' have "y = Inl x" by (simp add: ext_def)
          with Inl o' here show ?thesis unfolding Q_def by blast
        next
          case b: (Inr exchanged)
          with unf o' have r: "f P D dm exchanged = Some y" by (simp add: ext_def)
          from b obtain assembled solved written where
            s: "assemble_system D dm lp = Inr assembled" "solve D assembled = Inr solved"
            "output_results D dm solved = Inr written"
            "adapter_advance P written = Inr exchanged"
            by (auto simp: bindE_Inr_iff)
          from IH[OF r] obtain k lp1 where
            k: "coupling_iterations P D dm k exchanged lp1" and
            fin: "isCouplingOngoing P (precice (adapter lp1)) = Inr False \<and> y = Inr lp1 \<or>
            (\<exists>e. isCouplingOngoing P (precice (adapter lp1)) = Inl e \<and> y = Inl (External e)) \<or>
            isCouplingOngoing P (precice (adapter lp1)) = Inr True \<and>
            (\<exists>x. bindE (assemble_system D dm lp1) (\<lambda>lp. bindE (solve D lp)
                    (\<lambda>lp. bindE (output_results D dm lp) (adapter_advance P))) = Inl x \<and>
                 y = Inl x)"
            unfolding Q_def by blast
          from coupling_iterations.iteration[OF o' s k] fin show ?thesis
            unfolding Q_def by blast
        qed
      qed
    qed
  qed
  then show ?thesis unfolding Q_def .
qed

lemma run_loop_Inr_iff:
  "run_loop P D dm lp = Some (Inr lp') \<longleftrightarrow>
     (\<exists>k. coupling_iterations P D dm k lp lp' \<and>
          isCouplingOngoing P (precice (adapter lp')) = Inr False)"
proof
  assume "run_loop P D dm lp = Some (Inr lp')"
  from run_loop_Some_iterations[OF this] show "\<exists>k. coupling_iterations P D dm k lp lp' \<and>
          isCouplingOngoing P (precice (adapter lp')) = Inr False"
    by auto
next
  assume "\<exists>k. coupling_iterations P D dm k lp lp' \<and>
          isCouplingOngoing P (precice (adapter lp')) = Inr False"
  then obtain k where "coupling_iterations P D dm k lp lp'"
    and "isCouplingOngoing P (precice (adapter lp')) = Inr False" by blast
  with iterations_run_loop[of P D dm k lp lp'] run_loop_stop[of P lp' D dm]
  show "run_loop P D dm lp = Some (Inr lp')" by simp
qed

lemmas demo_defs = demo_precice_def demo_dealii_def demo_problem_def demo_new_adapter_def
  demo_adapter_def CouplingParamters_default_def demo_state_def demo_mesh_def

lemmas eval_defs = bindE_def ext_def Let_def
  setup_system_def adapter_initialize_def Adapter_initialize_def
  initialize_ids_def initialize_mesh_def write_initial_data_def read_coupling_data_def
  insert_coupling_dofs_def resize_def write_block_def interface_positions_def
  read_data_to_map_loop.simps format_precice_to_deal_def precice_to_deal_loop.simps
  format_deal_to_precice_def deal_to_precice_loop.simps
  assemble_system_def solve_def output_results_def adapter_advance_def Adapter_advance_def
  write_coupling_data_def make_grid_def upt_rec eval_nat_numeral

lemma demo_setup:
  "setup_system demo_dealii (make_grid 2 demo_problem)
     = Inr ((make_grid 2 demo_problem)\<lparr>dof_handler := 4, system_matrix := (),
              solution := [0, 0, 0, 0], dummy_vector := [0, 0, 0, 0],
              system_rhs := [0, 0, 0, 0]\<rparr>)"
  by (simp add: demo_defs eval_defs)

lemma demo_run_initialize:
  "adapter_initialize demo_precice demo_dealii 2
     ((make_grid 2 demo_problem)\<lparr>dof_handler := 4, system_matrix := (),
              solution := [0, 0, 0, 0], dummy_vector := [0, 0, 0, 0],
              system_rhs := [0, 0, 0, 0]\<rparr>)
     = Inr (demo_state 2 [0, 0, 0, 0] [0, 0] [])"
  by (simp add: demo_defs eval_defs)

lemma demo_ongoing:
  "isCouplingOngoing demo_precice (precice (adapter (demo_state p sol wd files))) = Inr (0 < p)"
  by (simp add: demo_defs)

lemma demo_assemble:
  "assemble_system demo_dealii 2 (demo_state p sol wd files)
     = Inr (demo_state p (sol[1 := 5, 3 := 6]) wd files)"
  by (simp add: demo_defs eval_defs)

lemma demo_solve:
  "solve demo_dealii (demo_state p sol wd files) = Inr (demo_state p sol wd files)"
  by (simp add: demo_defs eval_defs)

lemma demo_output:
  "output_results demo_dealii 2 (demo_state p sol wd files)
     = Inr (demo_state p sol wd (files @ [(''solution-2d.vtk'', sol)]))"
  by (simp add: demo_defs eval_defs)

lemma demo_exchange:
  "adapter_advance demo_precice (demo_state p [0, 5, 0, 6] [w0, w1] files)
     = Inr (demo_state (p - 1) [0, 5, 0, 6] [5, 6] files)"
  by (simp add: demo_defs eval_defs)


lemma demo_iteration:
  "coupling_iterations demo_precice demo_dealii 2 k
     (demo_state (p - 1) [0, 5, 0, 6] [5, 6] (files @ [(''solution-2d.vtk'', [0, 5, 0, 6])])) lp'
   \<Longrightarrow> 0 < p \<Longrightarrow> sol = [0, 0, 0, 0] \<or> sol = [0, 5, 0, 6] \<Longrightarrow>
   coupling_iterations demo_precice demo_dealii 2 (Suc k) (demo_state p sol [w0, w1] files) lp'"
proof -
  assume rest: "coupling_iterations demo_precice demo_dealii 2 k
     (demo_state (p - 1) [0, 5, 0, 6] [5, 6] (files @ [(''solution-2d.vtk'', [0, 5, 0, 6])])) lp'"
    and p: "0 < p" and sol: "sol = [0, 0, 0, 0] \<or> sol = [0, 5, 0, 6]"
  from sol have s: "sol[1 := 5, 3 := 6] = [0, 5, 0, 6]" by auto
  from p have o: "isCouplingOngoing demo_precice
      (precice (adapter (demo_state p sol [w0, w1] files))) = Inr True"
    by (simp add: demo_ongoing)
  have adv: "adapter_advance demo_precice
      (demo_state p (sol[1 := 5, 3 := 6]) [w0, w1]
         (files @ [(''solution-2d.vtk'', sol[1 := 5, 3 := 6])]))
      = Inr (demo_state (p - 1) [0, 5, 0, 6] [5, 6]
               (files @ [(''solution-2d.vtk'', [0, 5, 0, 6])]))"
    unfolding s by (rule demo_exchange)
  show ?thesis
    by (rule coupling_iterations.iteration[OF o demo_assemble demo_solve demo_output adv rest])
qed

lemma demo_iterations:
  "coupling_iterations demo_precice demo_dealii 2 2
     (demo_state 2 [0, 0, 0, 0] [0, 0] [])
     (demo_state 0 [0, 5, 0, 6] [5, 6]
        [(''solution-2d.vtk'', [0, 5, 0, 6]), (''solution-2d.vtk'', [0, 5, 0, 6])])"
proof -
  have "coupling_iterations demo_precice demo_dealii 2 (Suc (Suc 0))
     (demo_state 2 [0, 0, 0, 0] [0, 0] [])
     (demo_state 0 [0, 5, 0, 6] [5, 6]
        [(''solution-2d.vtk'', [0, 5, 0, 6]), (''solution-2d.vtk'', [0, 5, 0, 6])])"
    apply (rule demo_iteration)
      apply simp
      apply (rule demo_iteration)
        apply simp
        apply (rule coupling_iterations.no_iteration)
       apply simp_all
    done
  then show ?thesis by (simp add: numeral_2_eq_2)
qed

lemma run_Inr_iff:
  "run P D dm lp = Some (Inr lp') \<longleftrightarrow>
     (\<exists>lp1 lp2 k.
        setup_system D (make_grid dm lp) = Inr lp1 \<and>
        adapter_initialize P D dm lp1 = Inr lp2 \<and>
        coupling_iterations P D dm k lp2 lp' \<and>
        isCouplingOngoing P (precice (adapter lp')) = Inr False)"
proof -
  have "run P D dm lp = Some (Inr lp') \<longleftrightarrow>
      (\<exists>lp2. bindE (setup_system D (make_grid dm lp)) (adapter_initialize P D dm) = Inr lp2 \<and>
         run_loop P D dm lp2 = Some (Inr lp'))"
    by (auto simp: run_def bindE_def split: sum.splits)
  then show ?thesis
    by (simp add: run_loop_Inr_iff bindE_Inr_iff) blast
qed


text \<open>
  Claim C3.  \<^verbatim>\<open>run\<close> returns a state exactly when the sequence of the specification
  leads to it: the mesh is built and the system is set up, once; the adapter is
  initialised, once; then, for some number \<open>k\<close> of iterations, the coupling is reported
  as ongoing and the system is assembled, solved, written out and the boundary data
  exchanged, in this order; and the coupling is then reported as over.  The state
  returned is the one the last exchange left: nothing is done after the loop.
\<close>

theorem run_sequence:
  "run P D dm lp = Some (Inr lp') \<longleftrightarrow>
     (\<exists>lp1 lp2 k.
        setup_system D (make_grid dm lp) = Inr lp1 \<and>
        adapter_initialize P D dm lp1 = Inr lp2 \<and>
        coupling_iterations P D dm k lp2 lp' \<and>
        isCouplingOngoing P (precice (adapter lp')) = Inr False)"
  by (rule run_Inr_iff)

theorem run_sequence_witness:
  "run demo_precice demo_dealii 2 demo_problem
     = Some (Inr (demo_state 0 [0, 5, 0, 6] [5, 6]
        [(''solution-2d.vtk'', [0, 5, 0, 6]), (''solution-2d.vtk'', [0, 5, 0, 6])])) \<and>
   coupling_iterations demo_precice demo_dealii 2 2
     (demo_state 2 [0, 0, 0, 0] [0, 0] [])
     (demo_state 0 [0, 5, 0, 6] [5, 6]
        [(''solution-2d.vtk'', [0, 5, 0, 6]), (''solution-2d.vtk'', [0, 5, 0, 6])])"
proof -
  have "isCouplingOngoing demo_precice (precice (adapter (demo_state 0 [0, 5, 0, 6] [5, 6]
        [(''solution-2d.vtk'', [0, 5, 0, 6]), (''solution-2d.vtk'', [0, 5, 0, 6])]))) = Inr False"
    by (simp add: demo_ongoing)
  with demo_setup demo_run_initialize demo_iterations
  show ?thesis
    unfolding run_sequence by blast
qed


section \<open>Properties: what the member functions leave unchanged\<close>

lemma read_coupling_data_adapter:
  assumes "read_coupling_data P a p data
             = (Inr (a', p', data') :: 'e failure + 'p Adapter \<times> real list \<times> dof_map)"
  shows "\<exists>rd. a' = a\<lparr>read_data := rd\<rparr> \<and> length rd = length (read_data a)"
proof -
  from assms obtain available where
    av: "isReadDataAvailable P (precice a) = Inr available"
    by (auto simp: read_coupling_data_def bindE_Inr_iff ext_Inr_iff)
  show ?thesis
  proof (cases available)
    case False
    with assms av have "a' = a"
      by (auto simp: read_coupling_data_def bindE_def ext_def)
    then have "a' = a\<lparr>read_data := read_data a\<rparr>" by simp
    then show ?thesis by blast
  next
    case True
    with assms av obtain "values" rd a2 where
      rd: "write_block (nat (n_interface_nodes a)) values (read_data a)
             = (Inr rd :: 'e failure + real list)" and
      fmt: "format_precice_to_deal (a\<lparr>read_data := rd\<rparr>) p
             = (Inr (a2, p') :: 'e failure + 'p Adapter \<times> real list)" and
      a': "a' = a2"
      by (auto simp: read_coupling_data_def bindE_Inr_iff ext_Inr_iff Let_def)
    from format_precice_to_deal_Inr[OF fmt] a' write_block_Inr[OF rd]
    show ?thesis by blast
  qed
qed

lemma Adapter_advance_adapter:
  assumes "Adapter_advance P a v p dt data
             = (Inr (a', p', data') :: 'e failure + 'p Adapter \<times> real list \<times> dof_map)"
  shows "\<exists>pr rd wd. a' = a\<lparr>precice := pr, read_data := rd, write_data := wd\<rparr> \<and>
            length rd = length (read_data a) \<and> length wd = length (write_data a)"
proof -
  from assms obtain a1 pr where
    a1: "write_coupling_data P a v dt = (Inr a1 :: 'e failure + 'p Adapter)" and
    rc: "read_coupling_data P (a1\<lparr>precice := pr\<rparr>) p data
             = (Inr (a', p', data') :: 'e failure + 'p Adapter \<times> real list \<times> dof_map)"
    by (auto simp: Adapter_advance_def bindE_Inr_iff ext_Inr_iff Let_def)
  from write_coupling_data_Inr[OF a1]
  obtain q wd where a1': "a1 = a\<lparr>precice := q, write_data := wd\<rparr>"
    and wd: "length wd = length (write_data a)" by blast
  from read_coupling_data_adapter[OF rc] obtain rd where
    a': "a' = a1\<lparr>precice := pr, read_data := rd\<rparr>" and
    rd: "length rd = length (read_data (a1\<lparr>precice := pr\<rparr>))"
    by auto
  from a' a1' have "a' = a\<lparr>precice := pr, read_data := rd, write_data := wd\<rparr>" by simp
  moreover from rd a1' have "length rd = length (read_data a)" by simp
  ultimately show ?thesis using wd by blast
qed

lemma Adapter_initialize_adapter:
  assumes "Adapter_initialize P D dm a h T v p data
             = (Inr (a', p', data') :: 'e failure + 'p Adapter \<times> real list \<times> dof_map)"
  shows "n_interface_nodes a' = int (length (coupling_dofs a')) \<and>
     length (interface_nodes_ids a') = length (coupling_dofs a') \<and>
     length (read_data a') = length (coupling_dofs a') \<and>
     length (write_data a') = length (coupling_dofs a') \<and>
     deal_boundary_interface_id a' = deal_boundary_interface_id a \<and>
     adapter_mesh_name a' = adapter_mesh_name a \<and>
     adapter_read_data_name a' = adapter_read_data_name a \<and>
     adapter_write_data_name a' = adapter_write_data_name a"
proof -
  from assms have dm: "1 < dm" and gd: "getDimensions P (precice a) = Inr (int dm)"
    by (auto simp: Adapter_initialize_def bindE_Inr_iff ext_Inr_iff split: if_splits)
  from assms dm gd obtain a1 a2 d2 a3 q where
    1: "initialize_ids P a = (Inr a1 :: 'e failure + 'p Adapter)" and
    2: "initialize_mesh P D dm a1 h T data
          = (Inr (a2, d2) :: 'e failure + 'p Adapter \<times> dof_map)" and
    3: "write_initial_data P a2 v = (Inr a3 :: 'e failure + 'p Adapter)" and
    4: "read_coupling_data P (a3\<lparr>precice := q\<rparr>) p d2
          = (Inr (a', p', data') :: 'e failure + 'p Adapter \<times> real list \<times> dof_map)"
    by (auto simp: Adapter_initialize_def bindE_Inr_iff ext_Inr_iff Let_def)
  from initialize_ids_Inr[OF 1] obtain i j k where
    a1: "a1 = a\<lparr>mesh_id := i, read_data_id := j, write_data_id := k\<rparr>" by blast
  from initialize_mesh_Inr[OF 2] obtain pr2 ids rd2 wd2 where
    a2: "a2 = a1\<lparr>precice := pr2, n_interface_nodes := int (length (coupling_dofs a2)),
               coupling_dofs := coupling_dofs a2, interface_nodes_ids := ids,
               read_data := rd2, write_data := wd2\<rparr>" and
    l2: "length ids = length (coupling_dofs a2)" "length rd2 = length (coupling_dofs a2)"
        "length wd2 = length (coupling_dofs a2)"
    by blast
  from write_initial_data_Inr[OF 3] obtain pr3 wd3 where
    a3: "a3 = a2\<lparr>precice := pr3, write_data := wd3\<rparr>" and
    l3: "length wd3 = length (write_data a2)" by blast
  from read_coupling_data_adapter[OF 4] obtain rd4 where
    a4: "a' = a3\<lparr>precice := q, read_data := rd4\<rparr>" and
    l4: "length rd4 = length (read_data (a3\<lparr>precice := q\<rparr>))"
    by auto
  let ?dofs = "coupling_dofs a2"
  have eq: "a' = a\<lparr>precice := q, mesh_id := i, read_data_id := j, write_data_id := k,
               n_interface_nodes := int (length ?dofs),
               coupling_dofs := ?dofs, interface_nodes_ids := ids,
               read_data := rd4, write_data := wd3\<rparr>"
    by (subst a4, subst a3, subst a2, subst a1) simp
  then have c: "coupling_dofs a' = ?dofs" by simp
  from l4 a3 have "length rd4 = length (read_data a2)" by simp
  also from a2 have "read_data a2 = rd2"
    by (metis Adapter.select_convs(12) Adapter.surjective Adapter.update_convs(12,13))
  finally have r4: "length rd4 = length ?dofs" using l2 by simp
  from a2 have "write_data a2 = wd2"
    by (metis Adapter.select_convs(13) Adapter.surjective Adapter.update_convs(13))
  with l3 l2 have w3: "length wd3 = length ?dofs" by simp
  from eq have sel: "n_interface_nodes a' = int (length ?dofs)"
    "interface_nodes_ids a' = ids" "read_data a' = rd4" "write_data a' = wd3"
    "deal_boundary_interface_id a' = deal_boundary_interface_id a"
    "adapter_mesh_name a' = adapter_mesh_name a"
    "adapter_read_data_name a' = adapter_read_data_name a"
    "adapter_write_data_name a' = adapter_write_data_name a"
    by simp_all
  from sel l2(1) r4 w3 show ?thesis unfolding c by simp
qed

lemma make_grid_frame:
  "written_files (make_grid dm lp) = written_files lp \<and>
   parameters (make_grid dm lp) = parameters lp \<and> adapter (make_grid dm lp) = adapter lp"
  by (simp add: make_grid_def)

lemma setup_system_frame:
  "setup_system D lp = Inr lp' \<Longrightarrow>
   written_files lp' = written_files lp \<and> parameters lp' = parameters lp \<and>
   adapter lp' = adapter lp"
  by (auto simp: setup_system_def bindE_Inr_iff ext_Inr_iff)

lemma assemble_system_frame:
  "assemble_system D dm lp = Inr lp' \<Longrightarrow>
   written_files lp' = written_files lp \<and> parameters lp' = parameters lp \<and>
   adapter lp' = adapter lp"
  by (auto simp: assemble_system_def bindE_Inr_iff ext_Inr_iff)

lemma solve_frame:
  "solve D lp = Inr lp' \<Longrightarrow>
   written_files lp' = written_files lp \<and> parameters lp' = parameters lp \<and>
   adapter lp' = adapter lp"
  by (auto simp: solve_def bindE_Inr_iff ext_Inr_iff)

lemma output_results_frame:
  "output_results D dm lp = Inr lp' \<Longrightarrow>
   (\<exists>contents. write_vtk D (dof_handler lp) (triangulation lp) (solution lp) = Inr contents \<and>
      written_files lp' = written_files lp @ [(vtk_file_name dm, contents)]) \<and>
   parameters lp' = parameters lp \<and> adapter lp' = adapter lp"
  by (auto simp: output_results_def bindE_Inr_iff ext_Inr_iff vtk_file_name_def)

lemma adapter_initialize_frame:
  assumes "adapter_initialize P D dm lp = Inr lp'"
  shows "written_files lp' = written_files lp \<and> parameters lp' = parameters lp \<and>
    (\<exists>p' data'. Adapter_initialize P D dm (adapter lp) (dof_handler lp) (triangulation lp)
       (solution lp) (dummy_vector lp) (boundary_data lp) = Inr (adapter lp', p', data'))"
  using assms by (auto simp: adapter_initialize_def bindE_Inr_iff)

lemma adapter_advance_frame:
  assumes "adapter_advance P lp = Inr lp'"
  shows "written_files lp' = written_files lp \<and> parameters lp' = parameters lp \<and>
    (\<exists>p' data'. Adapter_advance P (adapter lp) (solution lp) (dummy_vector lp) 1
       (boundary_data lp) = Inr (adapter lp', p', data'))"
  using assms by (auto simp: adapter_advance_def bindE_Inr_iff)

lemma same_strings_refl: "same_strings lp lp"
  by (simp add: same_strings_def)

lemma same_strings_trans: "same_strings a b \<Longrightarrow> same_strings b c \<Longrightarrow> same_strings a c"
  by (simp add: same_strings_def)

lemma make_grid_strings: "same_strings lp (make_grid dm lp)"
  by (simp add: same_strings_def make_grid_frame)

lemma setup_system_strings: "setup_system D lp = Inr lp' \<Longrightarrow> same_strings lp lp'"
  by (simp add: same_strings_def setup_system_frame)

lemma assemble_system_strings: "assemble_system D dm lp = Inr lp' \<Longrightarrow> same_strings lp lp'"
  by (simp add: same_strings_def assemble_system_frame)

lemma solve_strings: "solve D lp = Inr lp' \<Longrightarrow> same_strings lp lp'"
  by (simp add: same_strings_def solve_frame)

lemma output_results_strings: "output_results D dm lp = Inr lp' \<Longrightarrow> same_strings lp lp'"
  by (simp add: same_strings_def output_results_frame)

lemma adapter_initialize_strings:
  assumes "adapter_initialize P D dm lp = Inr lp'"
  shows "same_strings lp lp'"
proof -
  from adapter_initialize_frame[OF assms] obtain p' data' where
    "parameters lp' = parameters lp" and
    "Adapter_initialize P D dm (adapter lp) (dof_handler lp) (triangulation lp)
       (solution lp) (dummy_vector lp) (boundary_data lp) = Inr (adapter lp', p', data')"
    by blast
  with Adapter_initialize_adapter[OF this(2)] show ?thesis
    by (simp add: same_strings_def)
qed

lemma adapter_advance_strings:
  assumes "adapter_advance P lp = Inr lp'"
  shows "same_strings lp lp'"
proof -
  from adapter_advance_frame[OF assms] obtain p' data' where
    "parameters lp' = parameters lp" and
    "Adapter_advance P (adapter lp) (solution lp) (dummy_vector lp) 1
       (boundary_data lp) = Inr (adapter lp', p', data')"
    by blast
  with Adapter_advance_adapter[OF this(2)] show ?thesis
    by (auto simp: same_strings_def)
qed

lemma coupling_iterations_strings:
  "coupling_iterations P D dm k lp lp' \<Longrightarrow> same_strings lp lp'"
proof (induction rule: coupling_iterations.induct)
  case (no_iteration lp)
  then show ?case by (rule same_strings_refl)
next
  case (iteration lp assembled solved written exchanged k lp')
  from assemble_system_strings[OF iteration(2)] solve_strings[OF iteration(3)]
    output_results_strings[OF iteration(4)] adapter_advance_strings[OF iteration(5)]
    iteration.IH
  show ?case by (blast intro: same_strings_trans)
qed


lemma run_strings:
  assumes "run P D dm lp = Some (Inr lp')"
  shows "same_strings lp lp'"
proof -
  from assms obtain lp1 lp2 k where
    "setup_system D (make_grid dm lp) = Inr lp1"
    "adapter_initialize P D dm lp1 = Inr lp2"
    "coupling_iterations P D dm k lp2 lp'"
    unfolding run_Inr_iff by blast
  from setup_system_strings[OF this(1)] adapter_initialize_strings[OF this(2)]
    coupling_iterations_strings[OF this(3)] make_grid_strings[of lp dm]
  show ?thesis by (blast intro: same_strings_trans)
qed

lemma main_Inr:
  assumes "main P D = Some (Inr (code, lp'))"
  shows "code = 0 \<and> (\<exists>lp0 lp1 a. LaplaceProblem_new P D = Inr lp0 \<and>
     run P D main_dimension lp0 = Some (Inr lp1) \<and>
     Adapter_delete P (adapter lp1) = Inr a \<and> lp' = lp1\<lparr>adapter := a\<rparr>)"
  using assms
  by (auto simp: main_def bindE_Inr_iff split: sum.splits option.splits)

lemma demo_mpi: "ext (MPI_InitFinalize demo_dealii n) = Inr ()"
  by (simp add: demo_dealii_def ext_def)

lemma LaplaceProblem_new_strings:
  assumes "LaplaceProblem_new P D = Inr lp"
  shows "parameters lp = CouplingParamters_default \<and>
     adapter_mesh_name (adapter lp) = ''original-mesh'' \<and>
     adapter_read_data_name (adapter lp) = ''boundary-data'' \<and>
     adapter_write_data_name (adapter lp) = ''dummy''"
  using assms
  by (auto simp: LaplaceProblem_new_def Adapter_new_def bindE_Inr_iff ext_Inr_iff
      CouplingParamters_default_def)

lemma Adapter_delete_strings:
  "Adapter_delete P a = Inr a' \<Longrightarrow>
   adapter_mesh_name a' = adapter_mesh_name a \<and>
   adapter_read_data_name a' = adapter_read_data_name a \<and>
   adapter_write_data_name a' = adapter_write_data_name a"
  by (auto simp: Adapter_delete_def bindE_Inr_iff ext_Inr_iff)


lemma demo_run:
  "run demo_precice demo_dealii 2 demo_problem
     = Some (Inr (demo_state 0 [0, 5, 0, 6] [5, 6]
        [(''solution-2d.vtk'', [0, 5, 0, 6]), (''solution-2d.vtk'', [0, 5, 0, 6])]))"
proof -
  have "isCouplingOngoing demo_precice (precice (adapter (demo_state 0 [0, 5, 0, 6] [5, 6]
        [(''solution-2d.vtk'', [0, 5, 0, 6]), (''solution-2d.vtk'', [0, 5, 0, 6])]))) = Inr False"
    by (simp add: demo_ongoing)
  with demo_setup demo_run_initialize demo_iterations
  show ?thesis
    unfolding run_Inr_iff by blast
qed

lemma demo_main:
  "main demo_precice demo_dealii
     = Some (Inr (0, demo_state 0 [0, 5, 0, 6] [5, 6]
        [(''solution-2d.vtk'', [0, 5, 0, 6]), (''solution-2d.vtk'', [0, 5, 0, 6])]))"
  by (simp add: main_def demo_mpi demo_problem_new main_dimension_def demo_run)
    (simp add: Adapter_delete_def demo_state_def demo_precice_def bindE_def ext_def)



lemma member_function_strings:
  "setup_system D lp = Inr lp' \<or> adapter_initialize P D dm lp = Inr lp' \<or>
   assemble_system D dm lp = Inr lp' \<or> solve D lp = Inr lp' \<or>
   output_results D dm lp = Inr lp' \<or> adapter_advance P lp = Inr lp' \<Longrightarrow>
   same_strings lp lp'"
  apply (elim disjE)
       apply (erule setup_system_strings)
      apply (erule adapter_initialize_strings)
     apply (erule assemble_system_strings)
    apply (erule solve_strings)
   apply (erule output_results_strings)
  apply (erule adapter_advance_strings)
  done


text \<open>
  Claim C4, as amended.  The five fields of \<^verbatim>\<open>CouplingParamters\<close> have the values of
  their initialisers; the constructor of the problem stores them and hands the three names
  to the adapter; and no member function changes them: not \<^verbatim>\<open>make_grid\<close>,
  \<^verbatim>\<open>setup_system\<close>, \<^verbatim>\<open>adapter.initialize\<close>, \<^verbatim>\<open>assemble_system\<close>,
  \<^verbatim>\<open>solve\<close>, \<^verbatim>\<open>output_results\<close> or \<^verbatim>\<open>adapter.advance\<close>, hence no number
  of iterations, not \<^verbatim>\<open>run\<close>, and not \<^verbatim>\<open>main\<close>, which ends with these values.
  The strings and the map of boundary values are not all the data of the repository: the
  adapter has members of its own, which are not constant.  \<^verbatim>\<open>Adapter::initialize\<close>
  sets \<^verbatim>\<open>n_interface_nodes\<close> to the number of coupling dofs and gives
  \<^verbatim>\<open>interface_nodes_ids\<close>, \<^verbatim>\<open>read_data\<close> and \<^verbatim>\<open>write_data\<close> this size;
  \<^verbatim>\<open>Adapter::advance\<close> changes the coupling interface and the contents of
  \<^verbatim>\<open>read_data\<close> and \<^verbatim>\<open>write_data\<close>, and no other member.
\<close>

theorem configuration_strings_fixed:
  "CouplingParamters_default =
     \<lparr> config_file = ''precice-config.xml'', participant_name = ''laplace-solver'',
       mesh_name = ''original-mesh'', write_data_name = ''dummy'',
       read_data_name = ''boundary-data'' \<rparr> \<and>
   (\<forall>lp. LaplaceProblem_new P D = Inr lp \<longrightarrow>
      parameters lp = CouplingParamters_default \<and>
      adapter_mesh_name (adapter lp) = ''original-mesh'' \<and>
      adapter_read_data_name (adapter lp) = ''boundary-data'' \<and>
      adapter_write_data_name (adapter lp) = ''dummy'') \<and>
   same_strings lp (make_grid dm lp) \<and>
   (\<forall>lp'. setup_system D lp = Inr lp' \<or> adapter_initialize P D dm lp = Inr lp' \<or>
          assemble_system D dm lp = Inr lp' \<or> solve D lp = Inr lp' \<or>
          output_results D dm lp = Inr lp' \<or> adapter_advance P lp = Inr lp' \<longrightarrow>
      same_strings lp lp') \<and>
   (\<forall>k lp'. coupling_iterations P D dm k lp lp' \<longrightarrow> same_strings lp lp') \<and>
   (\<forall>lp'. run P D dm lp = Some (Inr lp') \<longrightarrow> same_strings lp lp') \<and>
   (\<forall>code lp'. main P D = Some (Inr (code, lp')) \<longrightarrow>
      parameters lp' = CouplingParamters_default \<and>
      adapter_mesh_name (adapter lp') = ''original-mesh'' \<and>
      adapter_read_data_name (adapter lp') = ''boundary-data'' \<and>
      adapter_write_data_name (adapter lp') = ''dummy'') \<and>
   (\<forall>a' p' data'. Adapter_initialize P D dm a h T v p data = Inr (a', p', data') \<longrightarrow>
      n_interface_nodes a' = int (length (coupling_dofs a')) \<and>
      length (interface_nodes_ids a') = length (coupling_dofs a') \<and>
      length (read_data a') = length (coupling_dofs a') \<and>
      length (write_data a') = length (coupling_dofs a')) \<and>
   (\<forall>a' p' data'. Adapter_advance P a v p dt data = Inr (a', p', data') \<longrightarrow>
      (\<exists>pr rd wd. a' = a\<lparr>precice := pr, read_data := rd, write_data := wd\<rparr> \<and>
         length rd = length (read_data a) \<and> length wd = length (write_data a)))"
proof (intro conjI allI impI)
  show "CouplingParamters_default =
     \<lparr> config_file = ''precice-config.xml'', participant_name = ''laplace-solver'',
       mesh_name = ''original-mesh'', write_data_name = ''dummy'',
       read_data_name = ''boundary-data'' \<rparr>"
    by (simp add: CouplingParamters_default_def)
next
  fix lp0 assume "LaplaceProblem_new P D = Inr lp0"
  note N = LaplaceProblem_new_strings[OF this]
  from N show "parameters lp0 = CouplingParamters_default" by blast
  from N show "adapter_mesh_name (adapter lp0) = ''original-mesh''" by blast
  from N show "adapter_read_data_name (adapter lp0) = ''boundary-data''" by blast
  from N show "adapter_write_data_name (adapter lp0) = ''dummy''" by blast
next
  show "same_strings lp (make_grid dm lp)" by (rule make_grid_strings)
next
  fix lp'
  assume "setup_system D lp = Inr lp' \<or> adapter_initialize P D dm lp = Inr lp' \<or>
          assemble_system D dm lp = Inr lp' \<or> solve D lp = Inr lp' \<or>
          output_results D dm lp = Inr lp' \<or> adapter_advance P lp = Inr lp'"
  then show "same_strings lp lp'" by (rule member_function_strings)
next
  fix k lp' assume "coupling_iterations P D dm k lp lp'"
  then show "same_strings lp lp'" by (rule coupling_iterations_strings)
next
  fix lp' assume "run P D dm lp = Some (Inr lp')"
  then show "same_strings lp lp'" by (rule run_strings)
next
  fix code lp' assume "main P D = Some (Inr (code, lp'))"
  from main_Inr[OF this] obtain lp0 lp1 a where
    n: "LaplaceProblem_new P D = Inr lp0" and
    r: "run P D main_dimension lp0 = Some (Inr lp1)" and
    d: "Adapter_delete P (adapter lp1) = Inr a" and lp': "lp' = lp1\<lparr>adapter := a\<rparr>"
    by blast
  from LaplaceProblem_new_strings[OF n] run_strings[OF r] Adapter_delete_strings[OF d] lp'
  have "parameters lp' = CouplingParamters_default \<and>
      adapter_mesh_name (adapter lp') = ''original-mesh'' \<and>
      adapter_read_data_name (adapter lp') = ''boundary-data'' \<and>
      adapter_write_data_name (adapter lp') = ''dummy''"
    by (simp add: same_strings_def)
  then show "parameters lp' = CouplingParamters_default"
    "adapter_mesh_name (adapter lp') = ''original-mesh''"
    "adapter_read_data_name (adapter lp') = ''boundary-data''"
    "adapter_write_data_name (adapter lp') = ''dummy''"
    by blast+
next
  fix a' p' data'
  assume "Adapter_initialize P D dm a h T v p data = Inr (a', p', data')"
  note I = Adapter_initialize_adapter[OF this]
  from I show "n_interface_nodes a' = int (length (coupling_dofs a'))" by blast
  from I show "length (interface_nodes_ids a') = length (coupling_dofs a')" by blast
  from I show "length (read_data a') = length (coupling_dofs a')" by blast
  from I show "length (write_data a') = length (coupling_dofs a')" by blast
next
  fix a' p' data'
  assume "Adapter_advance P a v p dt data = Inr (a', p', data')"
  then show "\<exists>pr rd wd. a' = a\<lparr>precice := pr, read_data := rd, write_data := wd\<rparr> \<and>
         length rd = length (read_data a) \<and> length wd = length (write_data a)"
    by (rule Adapter_advance_adapter)
qed

theorem configuration_strings_fixed_witness:
  "main demo_precice demo_dealii
     = Some (Inr (0, demo_state 0 [0, 5, 0, 6] [5, 6]
        [(''solution-2d.vtk'', [0, 5, 0, 6]), (''solution-2d.vtk'', [0, 5, 0, 6])])) \<and>
   parameters (demo_state 0 [0, 5, 0, 6] [5, 6]
        [(''solution-2d.vtk'', [0, 5, 0, 6]), (''solution-2d.vtk'', [0, 5, 0, 6])])
     = \<lparr> config_file = ''precice-config.xml'', participant_name = ''laplace-solver'',
         mesh_name = ''original-mesh'', write_data_name = ''dummy'',
         read_data_name = ''boundary-data'' \<rparr> \<and>
   adapter_mesh_name (adapter (demo_state 0 [0, 5, 0, 6] [5, 6]
        [(''solution-2d.vtk'', [0, 5, 0, 6]), (''solution-2d.vtk'', [0, 5, 0, 6])]))
     = ''original-mesh''"
proof -
  note T = configuration_strings_fixed[where P = demo_precice and D = demo_dealii]
  from T demo_main have
    "parameters (demo_state 0 [0, 5, 0, 6] [5, 6]
        [(''solution-2d.vtk'', [0, 5, 0, 6]), (''solution-2d.vtk'', [0, 5, 0, 6])])
      = CouplingParamters_default"
    "adapter_mesh_name (adapter (demo_state 0 [0, 5, 0, 6] [5, 6]
        [(''solution-2d.vtk'', [0, 5, 0, 6]), (''solution-2d.vtk'', [0, 5, 0, 6])]))
     = ''original-mesh''"
    by blast+
  moreover from T have "CouplingParamters_default =
     \<lparr> config_file = ''precice-config.xml'', participant_name = ''laplace-solver'',
       mesh_name = ''original-mesh'', write_data_name = ''dummy'',
       read_data_name = ''boundary-data'' \<rparr>" by blast
  ultimately show ?thesis using demo_main by simp
qed

text \<open>
  Claim C4 as stated fails in its first part: the strings and the map are not the only
  data of the repository.  An exchange of data by \<^verbatim>\<open>adapter.advance\<close> leads from one
  state of the problem to another that has the same strings and the same map, yet another
  \<^verbatim>\<open>write_data\<close> in its adapter; and \<^verbatim>\<open>adapter.initialize\<close> changes the member
  \<^verbatim>\<open>n_interface_nodes\<close> from \<open>-1\<close> to the number of coupling dofs.
\<close>

theorem adapter_members_counterexample:
  "adapter_advance demo_precice (demo_state 2 [0, 5, 0, 6] [0, 0] [])
     = Inr (demo_state 1 [0, 5, 0, 6] [5, 6] []) \<and>
   specified_data (demo_state 1 [0, 5, 0, 6] [5, 6] [])
     = specified_data (demo_state 2 [0, 5, 0, 6] [0, 0] []) \<and>
   write_data (adapter (demo_state 2 [0, 5, 0, 6] [0, 0] [])) = [0, 0] \<and>
   write_data (adapter (demo_state 1 [0, 5, 0, 6] [5, 6] [])) = [5, 6] \<and>
   adapter_initialize demo_precice demo_dealii 2
     ((make_grid 2 demo_problem)\<lparr>dof_handler := 4, system_matrix := (),
              solution := [0, 0, 0, 0], dummy_vector := [0, 0, 0, 0],
              system_rhs := [0, 0, 0, 0]\<rparr>)
     = Inr (demo_state 2 [0, 0, 0, 0] [0, 0] []) \<and>
   n_interface_nodes (adapter ((make_grid 2 demo_problem)\<lparr>dof_handler := 4,
              system_matrix := (), solution := [0, 0, 0, 0], dummy_vector := [0, 0, 0, 0],
              system_rhs := [0, 0, 0, 0]\<rparr>)) = - 1 \<and>
   n_interface_nodes (adapter (demo_state 2 [0, 0, 0, 0] [0, 0] [])) = 2"
proof -
  have "adapter_advance demo_precice (demo_state 2 [0, 5, 0, 6] [0, 0] [])
     = Inr (demo_state (2 - 1) [0, 5, 0, 6] [5, 6] [])"
    by (rule demo_exchange)
  then have "adapter_advance demo_precice (demo_state 2 [0, 5, 0, 6] [0, 0] [])
     = Inr (demo_state 1 [0, 5, 0, 6] [5, 6] [])"
    by simp
  moreover have "specified_data (demo_state 1 [0, 5, 0, 6] [5, 6] [])
     = specified_data (demo_state 2 [0, 5, 0, 6] [0, 0] [])"
    by (simp add: specified_data_def demo_state_def)
  moreover have "write_data (adapter (demo_state 2 [0, 5, 0, 6] [0, 0] [])) = [0, 0]"
    "write_data (adapter (demo_state 1 [0, 5, 0, 6] [5, 6] [])) = [5, 6]"
    "n_interface_nodes (adapter (demo_state 2 [0, 0, 0, 0] [0, 0] [])) = 2"
    by (simp_all add: demo_state_def demo_adapter_def)
  moreover have "n_interface_nodes (adapter ((make_grid 2 demo_problem)\<lparr>dof_handler := 4,
              system_matrix := (), solution := [0, 0, 0, 0], dummy_vector := [0, 0, 0, 0],
              system_rhs := [0, 0, 0, 0]\<rparr>)) = - 1"
    by (simp add: make_grid_def demo_problem_def demo_new_adapter_def)
  ultimately show ?thesis using demo_run_initialize by simp
qed







section \<open>Properties: failures\<close>

text \<open>
  A failure of the program is a value of the type \<open>failure\<close>.  Three of its constructors
  are the assertions that the repository states itself: \<open>ExcNotImplemented\<close> and
  \<open>ExcInternalError\<close> in \<^verbatim>\<open>Adapter::initialize\<close>, \<open>ExcIndexRange\<close> in the two format
  functions and in the loop that stores the values read in the map.  All others come from
  a library.  No function of the model inspects the failure of a call: \<open>bindE\<close> hands
  it on and \<open>ext\<close> wraps the failure of a library.
\<close>

subsection \<open>The assertions of the repository\<close>

lemma deal_to_precice_loop_Inl:
  "deal_to_precice_loop n v i it wd = Inl x \<Longrightarrow> nat n \<le> length wd \<Longrightarrow>
   \<not> repository_assertion x"
proof (induction n v i it wd rule: deal_to_precice_loop.induct)
  case (1 n v i it wd)
  show ?case
  proof (cases "int i < n")
    case False
    with "1.prems" show ?thesis by (simp add: deal_to_precice_loop_stop)
  next
    case True
    with "1.prems"(2) have i: "i < length wd" by linarith
    show ?thesis
    proof (cases it)
      case Nil
      with "1.prems"(1) True i show ?thesis
        by (auto simp: deal_to_precice_loop_step)
    next
      case (Cons d it')
      show ?thesis
      proof (cases "d < length v")
        case False
        with "1.prems"(1) True i Cons show ?thesis
          by (auto simp: deal_to_precice_loop_step)
      next
        case d: True
        with "1.prems"(1) True i Cons
        have "deal_to_precice_loop n v (Suc i) it' (wd[i := v ! d]) = Inl x"
          by (simp add: deal_to_precice_loop_step)
        with "1.IH" True i Cons d "1.prems"(2) show ?thesis by simp
      qed
    qed
  qed
qed

lemma precice_to_deal_loop_Inl:
  "precice_to_deal_loop n rd i it p = Inl x \<Longrightarrow> nat n \<le> length rd \<Longrightarrow>
   \<not> repository_assertion x"
proof (induction n rd i it p rule: precice_to_deal_loop.induct)
  case (1 n rd i it p)
  show ?case
  proof (cases "int i < n")
    case False
    with "1.prems" show ?thesis by (simp add: precice_to_deal_loop_stop)
  next
    case True
    with "1.prems"(2) have i: "i < length rd" by linarith
    show ?thesis
    proof (cases it)
      case Nil
      with "1.prems"(1) True i show ?thesis
        by (auto simp: precice_to_deal_loop_step)
    next
      case (Cons d it')
      show ?thesis
      proof (cases "d < length p")
        case False
        with "1.prems"(1) True i Cons show ?thesis
          by (auto simp: precice_to_deal_loop_step)
      next
        case d: True
        with "1.prems"(1) True i Cons
        have "precice_to_deal_loop n rd (Suc i) it' (p[d := rd ! i]) = Inl x"
          by (simp add: precice_to_deal_loop_step)
        with "1.IH" True i Cons d "1.prems"(2) show ?thesis by simp
      qed
    qed
  qed
qed

lemma read_data_to_map_loop_Inl:
  "read_data_to_map_loop n rd i pos data = Inl x \<Longrightarrow> nat n \<le> length rd \<Longrightarrow>
   \<not> repository_assertion x"
proof (induction n rd i pos data rule: read_data_to_map_loop.induct)
  case (1 n rd i pos data)
  show ?case
  proof (cases "int i < n")
    case False
    with "1.prems" show ?thesis
      by (subst (asm) read_data_to_map_loop.simps) simp
  next
    case True
    with "1.prems"(2) have i: "i < length rd" by linarith
    show ?thesis
    proof (cases "pos < length data")
      case False
      with "1.prems"(1) True i show ?thesis
        by (subst (asm) read_data_to_map_loop.simps) auto
    next
      case pos: True
      with "1.prems"(1) True i
      have "read_data_to_map_loop n rd (Suc i) (Suc pos)
              (map_assign (fst (data ! pos)) (rd ! i) data) = Inl x"
        by (subst (asm) read_data_to_map_loop.simps) simp
      with "1.IH" True i pos "1.prems"(2) show ?thesis by simp
    qed
  qed
qed

lemma format_deal_to_precice_Inl:
  "format_deal_to_precice a v = Inl x \<Longrightarrow>
   nat (n_interface_nodes a) \<le> length (write_data a) \<Longrightarrow> \<not> repository_assertion x"
  by (auto simp: format_deal_to_precice_def bindE_Inl_iff dest: deal_to_precice_loop_Inl)

lemma format_precice_to_deal_Inl:
  "format_precice_to_deal a p = Inl x \<Longrightarrow>
   nat (n_interface_nodes a) \<le> length (read_data a) \<Longrightarrow> \<not> repository_assertion x"
  by (auto simp: format_precice_to_deal_def bindE_Inl_iff dest: precice_to_deal_loop_Inl)

lemma write_block_Inl:
  "write_block n f buf = Inl x \<Longrightarrow> \<not> repository_assertion x"
  by (auto simp: write_block_def split: if_splits)

lemma write_block_Inr_le:
  "write_block n f buf = (Inr buf' :: 'e failure + 'a list) \<Longrightarrow> n \<le> length buf'"
  by (auto simp: write_block_def split: if_splits)

lemma ext_Inl_not_assertion: "ext m = Inl x \<Longrightarrow> \<not> repository_assertion x"
  by (auto simp: ext_Inl_iff)

lemma read_coupling_data_Inl:
  fixes P :: "('p, 'e) precice_api"
  assumes "read_coupling_data P a p data = Inl x"
  shows "\<not> repository_assertion x"
proof (cases "isReadDataAvailable P (precice a)")
  case (Inl e)
  with assms show ?thesis by (auto simp: read_coupling_data_def bindE_def ext_def)
next
  case (Inr available)
  show ?thesis
  proof (cases available)
    case False
    with assms Inr show ?thesis by (auto simp: read_coupling_data_def bindE_def ext_def)
  next
    case True
    let ?r = "readBlockScalarData P (precice a) (read_data_id a) (n_interface_nodes a)
                       (interface_nodes_ids a)"
    show ?thesis
    proof (cases ?r)
      case (Inl e)
      with assms Inr True show ?thesis
        by (auto simp: read_coupling_data_def bindE_def ext_def)
    next
      case vals: (Inr "values")
      show ?thesis
      proof (cases "write_block (nat (n_interface_nodes a)) values (read_data a)
                      :: 'e failure + real list")
        case (Inl y)
        with assms Inr True vals have "x = y"
          by (auto simp: read_coupling_data_def bindE_def ext_def)
        with write_block_Inl[OF Inl] show ?thesis by simp
      next
        case rd: (Inr rd)
        from write_block_Inr_le[OF rd] have le: "nat (n_interface_nodes a) \<le> length rd" .
        from assms Inr True vals rd
        have "bindE (read_data_to_map_loop (n_interface_nodes a) rd 0 0 data) (\<lambda>data.
                bindE (format_precice_to_deal (a\<lparr>read_data := rd\<rparr>) p)
                  (\<lambda>(a, precice_to_deal). Inr (a, precice_to_deal, data))) = Inl x"
          by (simp add: read_coupling_data_def bindE_def ext_def Let_def)
        then have "read_data_to_map_loop (n_interface_nodes a) rd 0 0 data = Inl x \<or>
            format_precice_to_deal (a\<lparr>read_data := rd\<rparr>) p = Inl x"
          by (auto simp: bindE_Inl_iff)
        with le read_data_to_map_loop_Inl[of "n_interface_nodes a" rd 0 0 data x]
          format_precice_to_deal_Inl[of "a\<lparr>read_data := rd\<rparr>" p x]
        show ?thesis by auto
      qed
    qed
  qed
qed


lemma write_coupling_data_Inl:
  "write_coupling_data P a v dt = Inl x \<Longrightarrow>
   nat (n_interface_nodes a) \<le> length (write_data a) \<Longrightarrow> \<not> repository_assertion x"
  by (auto simp: write_coupling_data_def bindE_Inl_iff ext_Inl_iff ext_Inr_iff
      split: if_splits dest: format_deal_to_precice_Inl)

lemma write_initial_data_Inl:
  "write_initial_data P a v = Inl x \<Longrightarrow>
   nat (n_interface_nodes a) \<le> length (write_data a) \<Longrightarrow> \<not> repository_assertion x"
  by (auto simp: write_initial_data_def bindE_Inl_iff ext_Inl_iff ext_Inr_iff
      split: if_splits dest: format_deal_to_precice_Inl)

lemma Adapter_advance_Inl:
  "Adapter_advance P a v p dt data = Inl x \<Longrightarrow>
   nat (n_interface_nodes a) \<le> length (write_data a) \<Longrightarrow> \<not> repository_assertion x"
  by (auto simp: Adapter_advance_def bindE_Inl_iff ext_Inl_iff Let_def
      dest: write_coupling_data_Inl read_coupling_data_Inl)

lemma initialize_ids_Inl:
  "initialize_ids P a = Inl x \<Longrightarrow> \<not> repository_assertion x"
  by (auto simp: initialize_ids_def bindE_Inl_iff ext_Inl_iff Let_def split: if_splits)

lemma initialize_mesh_Inl:
  "initialize_mesh P D dm a h T data = Inl x \<Longrightarrow> \<not> repository_assertion x"
  by (auto simp: initialize_mesh_def bindE_Inl_iff ext_Inl_iff Let_def
      dest: write_block_Inl)

lemma Adapter_initialize_Inl:
  fixes P :: "('p, 'e) precice_api"
  assumes "Adapter_initialize P D dm a h T v p data = Inl x"
    and "1 < dm"
    and "\<forall>d. getDimensions P (precice a) = Inr d \<longrightarrow> d = int dm"
  shows "\<not> repository_assertion x"
proof (cases "getDimensions P (precice a)")
  case (Inl e)
  with assms(1,2) show ?thesis
    by (auto simp: Adapter_initialize_def bindE_def ext_def)
next
  case (Inr d)
  with assms(3) have d: "getDimensions P (precice a) = Inr (int dm)" by simp
  with assms(1,2) have rest: "bindE (initialize_ids P a) (\<lambda>a.
      bindE (initialize_mesh P D dm a h T data) (\<lambda>(a, data).
      bindE (write_initial_data P a v) (\<lambda>a.
      bindE (ext (initializeData P (precice a))) (\<lambda>q.
      read_coupling_data P (a\<lparr>precice := q\<rparr>) p data)))) = Inl x"
    by (simp add: Adapter_initialize_def bindE_def ext_def Let_def)
  show ?thesis
  proof (cases "initialize_ids P a :: 'e failure + 'p Adapter")
    case (Inl y)
    with rest initialize_ids_Inl[OF Inl] show ?thesis by (simp add: bindE_def)
  next
    case a1: (Inr a1)
    show ?thesis
    proof (cases "initialize_mesh P D dm a1 h T data :: 'e failure + 'p Adapter \<times> dof_map")
      case (Inl y)
      with rest a1 initialize_mesh_Inl[OF Inl] show ?thesis by (simp add: bindE_def)
    next
      case (Inr r)
      obtain a2 d2 where r: "r = (a2, d2)" by (cases r)
      with Inr have m: "initialize_mesh P D dm a1 h T data
          = (Inr (a2, d2) :: 'e failure + 'p Adapter \<times> dof_map)" by simp
      from initialize_mesh_Inr[OF m] obtain pr ids rd wd where
        a2: "a2 = a1\<lparr>precice := pr, n_interface_nodes := int (length (coupling_dofs a2)),
               coupling_dofs := coupling_dofs a2, interface_nodes_ids := ids,
               read_data := rd, write_data := wd\<rparr>" and
        wd: "length wd = length (coupling_dofs a2)"
        by blast
      from a2 have "write_data a2 = wd"
        by (metis Adapter.select_convs(13) Adapter.surjective Adapter.update_convs(13))
      moreover from a2 have "n_interface_nodes a2 = int (length (coupling_dofs a2))"
        by (metis Adapter.select_convs(9) Adapter.surjective Adapter.update_convs(9,10,11,12,13))
      ultimately have sized: "nat (n_interface_nodes a2) \<le> length (write_data a2)"
        using wd by simp
      from rest a1 m have "bindE (write_initial_data P a2 v) (\<lambda>a.
          bindE (ext (initializeData P (precice a))) (\<lambda>q.
          read_coupling_data P (a\<lparr>precice := q\<rparr>) p d2)) = Inl x"
        by (simp add: bindE_def)
      then show ?thesis
        using sized
        by (auto simp: bindE_Inl_iff ext_Inl_iff
            dest: write_initial_data_Inl read_coupling_data_Inl)
    qed
  qed
qed

lemma setup_system_Inl: "setup_system D lp = Inl x \<Longrightarrow> \<not> repository_assertion x"
  by (auto simp: setup_system_def bindE_Inl_iff ext_Inl_iff)

lemma assemble_system_Inl: "assemble_system D dm lp = Inl x \<Longrightarrow> \<not> repository_assertion x"
  by (auto simp: assemble_system_def bindE_Inl_iff ext_Inl_iff)

lemma solve_Inl: "solve D lp = Inl x \<Longrightarrow> \<not> repository_assertion x"
  by (auto simp: solve_def bindE_Inl_iff ext_Inl_iff)

lemma output_results_Inl: "output_results D dm lp = Inl x \<Longrightarrow> \<not> repository_assertion x"
  by (auto simp: output_results_def bindE_Inl_iff ext_Inl_iff)

lemma adapter_initialize_Inl:
  fixes P :: "('p, 'e) precice_api"
  assumes "adapter_initialize P D dm lp = Inl x"
    and "1 < dm"
    and "\<forall>p d. getDimensions P p = Inr d \<longrightarrow> d = int dm"
  shows "\<not> repository_assertion x"
proof -
  from assms(1) have "Adapter_initialize P D dm (adapter lp) (dof_handler lp) (triangulation lp)
      (solution lp) (dummy_vector lp) (boundary_data lp) = Inl x"
    by (auto simp: adapter_initialize_def bindE_Inl_iff)
  from Adapter_initialize_Inl[OF this assms(2)] assms(3) show ?thesis by blast
qed

lemma adapter_initialize_sized:
  assumes "adapter_initialize P D dm lp = Inr lp'"
  shows "sized (adapter lp')"
proof -
  from adapter_initialize_frame[OF assms] obtain p' data' where
    "Adapter_initialize P D dm (adapter lp) (dof_handler lp) (triangulation lp)
       (solution lp) (dummy_vector lp) (boundary_data lp) = Inr (adapter lp', p', data')"
    by blast
  from Adapter_initialize_adapter[OF this] show ?thesis
    by (simp add: sized_def)
qed

lemma adapter_advance_Inl:
  assumes "adapter_advance P lp = Inl x" and "sized (adapter lp)"
  shows "\<not> repository_assertion x"
proof -
  from assms(1) have "Adapter_advance P (adapter lp) (solution lp) (dummy_vector lp) 1
      (boundary_data lp) = Inl x"
    by (auto simp: adapter_advance_def bindE_Inl_iff)
  from Adapter_advance_Inl[OF this] assms(2) show ?thesis by (simp add: sized_def)
qed

lemma adapter_advance_sized:
  assumes "adapter_advance P lp = Inr lp'" and "sized (adapter lp)"
  shows "sized (adapter lp')"
proof -
  from adapter_advance_frame[OF assms(1)] obtain p' data' where
    "Adapter_advance P (adapter lp) (solution lp) (dummy_vector lp) 1
       (boundary_data lp) = Inr (adapter lp', p', data')"
    by blast
  from Adapter_advance_adapter[OF this] assms(2) show ?thesis
    by (auto simp: sized_def)
qed

lemma coupling_iterations_sized:
  "coupling_iterations P D dm k lp lp' \<Longrightarrow> sized (adapter lp) \<Longrightarrow> sized (adapter lp')"
proof (induction rule: coupling_iterations.induct)
  case (no_iteration lp)
  then show ?case .
next
  case (iteration lp assembled solved written exchanged k lp')
  from assemble_system_frame[OF iteration(2)] solve_frame[OF iteration(3)]
    output_results_frame[OF iteration(4)] iteration.prems
  have "sized (adapter written)" by simp
  from adapter_advance_sized[OF iteration(5) this] iteration.IH show ?case by simp
qed

lemma iteration_Inl:
  assumes "bindE (assemble_system D dm lp) (\<lambda>lp. bindE (solve D lp)
             (\<lambda>lp. bindE (output_results D dm lp) (adapter_advance P))) = Inl x"
    and "sized (adapter lp)"
  shows "\<not> repository_assertion x"
proof -
  from assms(1) consider "assemble_system D dm lp = Inl x"
    | assembled where "assemble_system D dm lp = Inr assembled" "solve D assembled = Inl x"
    | assembled solved where "assemble_system D dm lp = Inr assembled"
        "solve D assembled = Inr solved" "output_results D dm solved = Inl x"
    | assembled solved written where "assemble_system D dm lp = Inr assembled"
        "solve D assembled = Inr solved" "output_results D dm solved = Inr written"
        "adapter_advance P written = Inl x"
    by (auto simp: bindE_Inl_iff)
  then show ?thesis
  proof cases
    case 1
    then show ?thesis by (rule assemble_system_Inl)
  next
    case 2
    then show ?thesis by (simp add: solve_Inl)
  next
    case 3
    then show ?thesis by (simp add: output_results_Inl)
  next
    case 4
    from assemble_system_frame[OF 4(1)] solve_frame[OF 4(2)] output_results_frame[OF 4(3)]
      assms(2)
    have "sized (adapter written)" by simp
    from adapter_advance_Inl[OF 4(4) this] show ?thesis .
  qed
qed

lemma run_Inl:
  assumes "run P D dm lp = Some (Inl x)"
  shows "setup_system D (make_grid dm lp) = Inl x \<or>
     (\<exists>lp1. setup_system D (make_grid dm lp) = Inr lp1 \<and>
        (adapter_initialize P D dm lp1 = Inl x \<or>
         (\<exists>lp2. adapter_initialize P D dm lp1 = Inr lp2 \<and>
            run_loop P D dm lp2 = Some (Inl x))))"
  using assms
  by (auto simp: run_def bindE_def split: sum.splits)

lemma run_never_asserts:
  fixes P :: "('p, 'e) precice_api"
  assumes "run P D dm lp = Some (Inl x)"
    and "1 < dm"
    and "\<forall>p d. getDimensions P p = Inr d \<longrightarrow> d = int dm"
  shows "\<not> repository_assertion x"
proof -
  from run_Inl[OF assms(1)] consider "setup_system D (make_grid dm lp) = Inl x"
    | lp1 where "adapter_initialize P D dm lp1 = Inl x"
    | lp1 lp2 where "adapter_initialize P D dm lp1 = Inr lp2"
        "run_loop P D dm lp2 = Some (Inl x)"
    by blast
  then show ?thesis
  proof cases
    case 1
    then show ?thesis by (rule setup_system_Inl)
  next
    case 2
    from adapter_initialize_Inl[OF this assms(2,3)] show ?thesis .
  next
    case 3
    from run_loop_Some_iterations[OF 3(2)] obtain k lp3 where
      it: "coupling_iterations P D dm k lp2 lp3" and
      fin: "(\<exists>e. x = External e) \<or>
        (\<exists>y. bindE (assemble_system D dm lp3) (\<lambda>lp. bindE (solve D lp)
                (\<lambda>lp. bindE (output_results D dm lp) (adapter_advance P))) = Inl y \<and>
             x = y)"
      by auto
    from coupling_iterations_sized[OF it adapter_initialize_sized[OF 3(1)]]
    have "sized (adapter lp3)" .
    with fin iteration_Inl[of D dm lp3 P x] show ?thesis by auto
  qed
qed

lemma main_never_asserts:
  fixes P :: "('p, 'e) precice_api" and D :: "('h, 'm, 'f, 'e) dealii_api"
  assumes "main P D = Some (Inl x)"
    and "\<forall>p d. getDimensions P p = Inr d \<longrightarrow> d = 2"
  shows "\<not> repository_assertion x"
proof -
  from assms(1) consider "ext (MPI_InitFinalize D 1) = Inl x"
    | "LaplaceProblem_new P D = Inl x"
    | lp0 where "run P D main_dimension lp0 = Some (Inl x)"
    | lp1 :: "('p, 'h, 'm, 'f) LaplaceProblem" where
        "bindE (Adapter_delete P (adapter lp1)) (\<lambda>a. Inr (0::int, lp1\<lparr>adapter := a\<rparr>))
        = Inl x"
    by (auto simp: main_def split: sum.splits option.splits)
  then show ?thesis
  proof cases
    case 1
    then show ?thesis by (auto simp: ext_Inl_iff)
  next
    case 2
    then show ?thesis
      by (auto simp: LaplaceProblem_new_def Adapter_new_def bindE_Inl_iff ext_Inl_iff)
  next
    case 3
    from run_never_asserts[OF 3] assms(2) show ?thesis
      by (simp add: main_dimension_def)
  next
    case 4
    then show ?thesis
      by (auto simp: Adapter_delete_def bindE_Inl_iff ext_Inl_iff)
  qed
qed


subsection \<open>A failing call fails its callers\<close>

text \<open>
  Each lemma lists the calls that a member function makes, in the order of the source,
  and states that the failure of a call, after the success of those before it, is the
  failure of the member function.
\<close>

lemma propagate_read_coupling_data:
  fixes P :: "('p, 'e) precice_api"
  shows
  "(\<forall>e. isReadDataAvailable P (precice a) = Inl e \<longrightarrow>
      read_coupling_data P a p data = Inl (External e)) \<and>
   (\<forall>e. isReadDataAvailable P (precice a) = Inr True \<and>
      readBlockScalarData P (precice a) (read_data_id a) (n_interface_nodes a)
        (interface_nodes_ids a) = Inl e \<longrightarrow>
      read_coupling_data P a p data = Inl (External e)) \<and>
   (\<forall>vs x. isReadDataAvailable P (precice a) = Inr True \<and>
      readBlockScalarData P (precice a) (read_data_id a) (n_interface_nodes a)
        (interface_nodes_ids a) = Inr vs \<and>
      write_block (nat (n_interface_nodes a)) vs (read_data a) = Inl x \<longrightarrow>
      read_coupling_data P a p data = Inl x) \<and>
   (\<forall>vs rd x. isReadDataAvailable P (precice a) = Inr True \<and>
      readBlockScalarData P (precice a) (read_data_id a) (n_interface_nodes a)
        (interface_nodes_ids a) = Inr vs \<and>
      write_block (nat (n_interface_nodes a)) vs (read_data a)
        = (Inr rd :: 'e failure + real list) \<and>
      read_data_to_map_loop (n_interface_nodes a) rd 0 0 data = Inl x \<longrightarrow>
      read_coupling_data P a p data = Inl x) \<and>
   (\<forall>vs rd data1 x. isReadDataAvailable P (precice a) = Inr True \<and>
      readBlockScalarData P (precice a) (read_data_id a) (n_interface_nodes a)
        (interface_nodes_ids a) = Inr vs \<and>
      write_block (nat (n_interface_nodes a)) vs (read_data a)
        = (Inr rd :: 'e failure + real list) \<and>
      read_data_to_map_loop (n_interface_nodes a) rd 0 0 data
        = (Inr data1 :: 'e failure + dof_map) \<and>
      format_precice_to_deal (a\<lparr>read_data := rd\<rparr>) p = Inl x \<longrightarrow>
      read_coupling_data P a p data = Inl x)"
  by (simp add: read_coupling_data_def bindE_def ext_def)

lemma propagate_write_coupling_data:
  fixes P :: "('p, 'e) precice_api"
  shows
  "(\<forall>e. hasData P (precice a) (adapter_write_data_name a) (mesh_id a) = Inl e \<longrightarrow>
      write_coupling_data P a v dt = Inl (External e)) \<and>
   (\<forall>e. hasData P (precice a) (adapter_write_data_name a) (mesh_id a) = Inr True \<and>
      isWriteDataRequired P (precice a) dt = Inl e \<longrightarrow>
      write_coupling_data P a v dt = Inl (External e)) \<and>
   (\<forall>a1 e. hasData P (precice a) (adapter_write_data_name a) (mesh_id a) = Inr True \<and>
      isWriteDataRequired P (precice a) dt = Inr True \<and>
      format_deal_to_precice a v = (Inr a1 :: 'e failure + 'p Adapter) \<and>
      writeBlockScalarData P (precice a1) (write_data_id a1) (n_interface_nodes a1)
        (interface_nodes_ids a1) (write_data a1) = Inl e \<longrightarrow>
      write_coupling_data P a v dt = Inl (External e)) \<and>
   (\<forall>x. hasData P (precice a) (adapter_write_data_name a) (mesh_id a) = Inr True \<and>
      isWriteDataRequired P (precice a) dt = Inr True \<and>
      format_deal_to_precice a v = Inl x \<longrightarrow>
      write_coupling_data P a v dt = Inl x)"
  by (simp add: write_coupling_data_def bindE_def ext_def)

lemma propagate_Adapter_advance:
  "(\<forall>x. write_coupling_data P a v dt = Inl x \<longrightarrow>
      Adapter_advance P a v p dt data = Inl x) \<and>
   (\<forall>a1 e. write_coupling_data P a v dt = Inr a1 \<and>
      precice_advance P (precice a1) dt = Inl e \<longrightarrow>
      Adapter_advance P a v p dt data = Inl (External e)) \<and>
   (\<forall>a1 q x. write_coupling_data P a v dt = Inr a1 \<and>
      precice_advance P (precice a1) dt = Inr q \<and>
      read_coupling_data P (a1\<lparr>precice := q\<rparr>) p data = Inl x \<longrightarrow>
      Adapter_advance P a v p dt data = Inl x)"
  by (simp add: Adapter_advance_def bindE_def ext_def)

lemma propagate_initialize_ids:
  "(\<forall>e. getMeshID P (precice a) (adapter_mesh_name a) = Inl e \<longrightarrow>
      initialize_ids P a = Inl (External e)) \<and>
   (\<forall>i e. getMeshID P (precice a) (adapter_mesh_name a) = Inr i \<and>
      hasData P (precice a) (adapter_read_data_name a) i = Inl e \<longrightarrow>
      initialize_ids P a = Inl (External e)) \<and>
   (\<forall>i e. getMeshID P (precice a) (adapter_mesh_name a) = Inr i \<and>
      hasData P (precice a) (adapter_read_data_name a) i = Inr True \<and>
      getDataID P (precice a) (adapter_read_data_name a) i = Inl e \<longrightarrow>
      initialize_ids P a = Inl (External e)) \<and>
   (\<forall>i e. getMeshID P (precice a) (adapter_mesh_name a) = Inr i \<and>
      (hasData P (precice a) (adapter_read_data_name a) i = Inr False \<or>
       hasData P (precice a) (adapter_read_data_name a) i = Inr True \<and>
       (\<exists>j. getDataID P (precice a) (adapter_read_data_name a) i = Inr j)) \<and>
      hasData P (precice a) (adapter_write_data_name a) i = Inl e \<longrightarrow>
      initialize_ids P a = Inl (External e)) \<and>
   (\<forall>i e. getMeshID P (precice a) (adapter_mesh_name a) = Inr i \<and>
      (hasData P (precice a) (adapter_read_data_name a) i = Inr False \<or>
       hasData P (precice a) (adapter_read_data_name a) i = Inr True \<and>
       (\<exists>j. getDataID P (precice a) (adapter_read_data_name a) i = Inr j)) \<and>
      hasData P (precice a) (adapter_write_data_name a) i = Inr True \<and>
      getDataID P (precice a) (adapter_write_data_name a) i = Inl e \<longrightarrow>
      initialize_ids P a = Inl (External e))"
  by (auto simp: initialize_ids_def bindE_def ext_def)

lemma write_block_resize:
  "write_block n f (resize n x xs) = Inr (map f [0..<n])"
  by (simp add: write_block_def resize_def)

lemma propagate_initialize_mesh:
  "(\<forall>e. extract_boundary_dofs D h T {deal_boundary_interface_id a} = Inl e \<longrightarrow>
      initialize_mesh P D dm a h T data = Inl (External e)) \<and>
   (\<forall>dofs e. extract_boundary_dofs D h T {deal_boundary_interface_id a} = Inr dofs \<and>
      map_dofs_to_support_points D h T = Inl e \<longrightarrow>
      initialize_mesh P D dm a h T data = Inl (External e)) \<and>
   (\<forall>dofs support_points e.
      extract_boundary_dofs D h T {deal_boundary_interface_id a} = Inr dofs \<and>
      map_dofs_to_support_points D h T = Inr support_points \<and>
      setMeshVertices P (precice a) (mesh_id a) (int (length dofs))
        (interface_positions dm support_points dofs (replicate (dm * length dofs) 0)) = Inl e \<longrightarrow>
      initialize_mesh P D dm a h T data = Inl (External e)) \<and>
   (\<forall>dofs support_points q ids e.
      extract_boundary_dofs D h T {deal_boundary_interface_id a} = Inr dofs \<and>
      map_dofs_to_support_points D h T = Inr support_points \<and>
      setMeshVertices P (precice a) (mesh_id a) (int (length dofs))
        (interface_positions dm support_points dofs (replicate (dm * length dofs) 0))
        = Inr (q, ids) \<and>
      precice_initialize P q = Inl e \<longrightarrow>
      initialize_mesh P D dm a h T data = Inl (External e))"
  by (simp add: initialize_mesh_def bindE_def ext_def Let_def write_block_resize)

lemma propagate_write_initial_data:
  fixes P :: "('p, 'e) precice_api"
  shows
  "(\<forall>e. isActionRequired P (precice a) (actionWriteInitialData P) = Inl e \<longrightarrow>
      write_initial_data P a v = Inl (External e)) \<and>
   (\<forall>a1 e. isActionRequired P (precice a) (actionWriteInitialData P) = Inr True \<and>
      format_deal_to_precice a v = (Inr a1 :: 'e failure + 'p Adapter) \<and>
      writeBlockScalarData P (precice a1) (write_data_id a1) (n_interface_nodes a1)
        (interface_nodes_ids a1) (write_data a1) = Inl e \<longrightarrow>
      write_initial_data P a v = Inl (External e)) \<and>
   (\<forall>a1 q e. isActionRequired P (precice a) (actionWriteInitialData P) = Inr True \<and>
      format_deal_to_precice a v = (Inr a1 :: 'e failure + 'p Adapter) \<and>
      writeBlockScalarData P (precice a1) (write_data_id a1) (n_interface_nodes a1)
        (interface_nodes_ids a1) (write_data a1) = Inr q \<and>
      markActionFulfilled P q (actionWriteInitialData P) = Inl e \<longrightarrow>
      write_initial_data P a v = Inl (External e)) \<and>
   (\<forall>x. isActionRequired P (precice a) (actionWriteInitialData P) = Inr True \<and>
      format_deal_to_precice a v = Inl x \<longrightarrow>
      write_initial_data P a v = Inl x)"
  by (simp add: write_initial_data_def bindE_def ext_def)

lemma propagate_Adapter_initialize:
  "1 < dm \<longrightarrow>
   (\<forall>e. getDimensions P (precice a) = Inl e \<longrightarrow>
      Adapter_initialize P D dm a h T v p data = Inl (External e)) \<and>
   (getDimensions P (precice a) = Inr (int dm) \<longrightarrow>
      (\<forall>x. initialize_ids P a = Inl x \<longrightarrow>
         Adapter_initialize P D dm a h T v p data = Inl x) \<and>
      (\<forall>a1 x. initialize_ids P a = Inr a1 \<and>
         initialize_mesh P D dm a1 h T data = Inl x \<longrightarrow>
         Adapter_initialize P D dm a h T v p data = Inl x) \<and>
      (\<forall>a1 a2 d2 x. initialize_ids P a = Inr a1 \<and>
         initialize_mesh P D dm a1 h T data = Inr (a2, d2) \<and>
         write_initial_data P a2 v = Inl x \<longrightarrow>
         Adapter_initialize P D dm a h T v p data = Inl x) \<and>
      (\<forall>a1 a2 d2 a3 e. initialize_ids P a = Inr a1 \<and>
         initialize_mesh P D dm a1 h T data = Inr (a2, d2) \<and>
         write_initial_data P a2 v = Inr a3 \<and>
         initializeData P (precice a3) = Inl e \<longrightarrow>
         Adapter_initialize P D dm a h T v p data = Inl (External e)) \<and>
      (\<forall>a1 a2 d2 a3 q x. initialize_ids P a = Inr a1 \<and>
         initialize_mesh P D dm a1 h T data = Inr (a2, d2) \<and>
         write_initial_data P a2 v = Inr a3 \<and>
         initializeData P (precice a3) = Inr q \<and>
         read_coupling_data P (a3\<lparr>precice := q\<rparr>) p d2 = Inl x \<longrightarrow>
         Adapter_initialize P D dm a h T v p data = Inl x))"
  by (simp add: Adapter_initialize_def bindE_def ext_def)

lemma propagate_setup_system:
  "(\<forall>e. distribute_dofs D (dof_handler lp) (triangulation lp) 1 = Inl e \<longrightarrow>
      setup_system D lp = Inl (External e)) \<and>
   (\<forall>h e. distribute_dofs D (dof_handler lp) (triangulation lp) 1 = Inr h \<and>
      make_sparsity_pattern D h (triangulation lp) = Inl e \<longrightarrow>
      setup_system D lp = Inl (External e))"
  by (simp add: setup_system_def bindE_def ext_def)

lemma propagate_assemble_system:
  "(\<forall>e. assemble_cells D (dof_handler lp) (triangulation lp) (RightHandSide_value dm)
         (system_matrix lp) (system_rhs lp) = Inl e \<longrightarrow>
      assemble_system D dm lp = Inl (External e)) \<and>
   (\<forall>m rhs e. assemble_cells D (dof_handler lp) (triangulation lp) (RightHandSide_value dm)
         (system_matrix lp) (system_rhs lp) = Inr (m, rhs) \<and>
      interpolate_boundary_values D (dof_handler lp) (triangulation lp) 0
         BoundaryValues_value = Inl e \<longrightarrow>
      assemble_system D dm lp = Inl (External e)) \<and>
   (\<forall>m rhs boundary_values e.
      assemble_cells D (dof_handler lp) (triangulation lp) (RightHandSide_value dm)
         (system_matrix lp) (system_rhs lp) = Inr (m, rhs) \<and>
      interpolate_boundary_values D (dof_handler lp) (triangulation lp) 0
         BoundaryValues_value = Inr boundary_values \<and>
      apply_boundary_values D boundary_values m (solution lp) rhs = Inl e \<longrightarrow>
      assemble_system D dm lp = Inl (External e)) \<and>
   (\<forall>m rhs boundary_values m' sol rhs' e.
      assemble_cells D (dof_handler lp) (triangulation lp) (RightHandSide_value dm)
         (system_matrix lp) (system_rhs lp) = Inr (m, rhs) \<and>
      interpolate_boundary_values D (dof_handler lp) (triangulation lp) 0
         BoundaryValues_value = Inr boundary_values \<and>
      apply_boundary_values D boundary_values m (solution lp) rhs = Inr (m', sol, rhs') \<and>
      apply_boundary_values D (boundary_data lp) m' sol rhs' = Inl e \<longrightarrow>
      assemble_system D dm lp = Inl (External e))"
  by (simp add: assemble_system_def bindE_def ext_def)

lemma propagate_solve_output:
  "(\<forall>e. SolverCG_solve D 1000 (1 / 10 ^ 12) (system_matrix lp) (solution lp) (system_rhs lp)
         = Inl e \<longrightarrow>
      solve D lp = Inl (External e)) \<and>
   (\<forall>e. write_vtk D (dof_handler lp) (triangulation lp) (solution lp) = Inl e \<longrightarrow>
      output_results D dm lp = Inl (External e))"
  by (simp add: solve_def output_results_def bindE_def ext_def)

lemma propagate_adapter_calls:
  "(\<forall>x. Adapter_initialize P D dm (adapter lp) (dof_handler lp) (triangulation lp)
         (solution lp) (dummy_vector lp) (boundary_data lp) = Inl x \<longrightarrow>
      adapter_initialize P D dm lp = Inl x) \<and>
   (\<forall>x. Adapter_advance P (adapter lp) (solution lp) (dummy_vector lp) 1 (boundary_data lp)
         = Inl x \<longrightarrow>
      adapter_advance P lp = Inl x)"
  by (simp add: adapter_initialize_def adapter_advance_def bindE_def)

lemma propagate_run:
  "(\<forall>x. setup_system D (make_grid dm lp) = Inl x \<longrightarrow> run P D dm lp = Some (Inl x)) \<and>
   (\<forall>lp1 x. setup_system D (make_grid dm lp) = Inr lp1 \<and>
      adapter_initialize P D dm lp1 = Inl x \<longrightarrow>
      run P D dm lp = Some (Inl x)) \<and>
   (\<forall>lp1 lp2 k lp3.
      setup_system D (make_grid dm lp) = Inr lp1 \<and>
      adapter_initialize P D dm lp1 = Inr lp2 \<and>
      coupling_iterations P D dm k lp2 lp3 \<longrightarrow>
      (\<forall>e. isCouplingOngoing P (precice (adapter lp3)) = Inl e \<longrightarrow>
         run P D dm lp = Some (Inl (External e))) \<and>
      (isCouplingOngoing P (precice (adapter lp3)) = Inr True \<longrightarrow>
         (\<forall>x. assemble_system D dm lp3 = Inl x \<longrightarrow> run P D dm lp = Some (Inl x)) \<and>
         (\<forall>assembled x. assemble_system D dm lp3 = Inr assembled \<and>
            solve D assembled = Inl x \<longrightarrow>
            run P D dm lp = Some (Inl x)) \<and>
         (\<forall>assembled solved x. assemble_system D dm lp3 = Inr assembled \<and>
            solve D assembled = Inr solved \<and>
            output_results D dm solved = Inl x \<longrightarrow>
            run P D dm lp = Some (Inl x)) \<and>
         (\<forall>assembled solved written x. assemble_system D dm lp3 = Inr assembled \<and>
            solve D assembled = Inr solved \<and>
            output_results D dm solved = Inr written \<and>
            adapter_advance P written = Inl x \<longrightarrow>
            run P D dm lp = Some (Inl x))))"
proof (intro conjI allI impI; (elim conjE)?)
  fix x assume "setup_system D (make_grid dm lp) = Inl x"
  then show "run P D dm lp = Some (Inl x)" by (simp add: run_def bindE_def)
next
  fix lp1 x
  assume "setup_system D (make_grid dm lp) = Inr lp1" "adapter_initialize P D dm lp1 = Inl x"
  then show "run P D dm lp = Some (Inl x)" by (simp add: run_def bindE_def)
next
  fix lp1 lp2 k lp3
  assume s: "setup_system D (make_grid dm lp) = Inr lp1"
    and i: "adapter_initialize P D dm lp1 = Inr lp2"
    and c: "coupling_iterations P D dm k lp2 lp3"
  from s i have "run P D dm lp = run_loop P D dm lp2" by (simp add: run_def bindE_def)
  with iterations_run_loop[OF c] have r: "run P D dm lp = run_loop P D dm lp3" by simp
  {
    fix e assume "isCouplingOngoing P (precice (adapter lp3)) = Inl e"
    then show "run P D dm lp = Some (Inl (External e))"
      unfolding r by (subst run_loop.simps) (simp add: ext_def)
  next
    assume o: "isCouplingOngoing P (precice (adapter lp3)) = Inr True"
    {
      fix x assume "assemble_system D dm lp3 = Inl x"
      with o show "run P D dm lp = Some (Inl x)"
        unfolding r by (subst run_loop.simps) (simp add: ext_def bindE_def)
    next
      fix assembled x
      assume "assemble_system D dm lp3 = Inr assembled" "solve D assembled = Inl x"
      with o show "run P D dm lp = Some (Inl x)"
        unfolding r by (subst run_loop.simps) (simp add: ext_def bindE_def)
    next
      fix assembled solved x
      assume "assemble_system D dm lp3 = Inr assembled" "solve D assembled = Inr solved"
        "output_results D dm solved = Inl x"
      with o show "run P D dm lp = Some (Inl x)"
        unfolding r by (subst run_loop.simps) (simp add: ext_def bindE_def)
    next
      fix assembled solved written x
      assume "assemble_system D dm lp3 = Inr assembled" "solve D assembled = Inr solved"
        "output_results D dm solved = Inr written" "adapter_advance P written = Inl x"
      with o show "run P D dm lp = Some (Inl x)"
        unfolding r by (subst run_loop.simps) (simp add: ext_def bindE_def)
    }
  }
qed

lemma propagate_main:
  "(\<forall>e. MPI_InitFinalize D 1 = Inl e \<longrightarrow> main P D = Some (Inl (External e))) \<and>
   (\<forall>e. MPI_InitFinalize D 1 = Inr () \<and>
      SolverInterface_new P (participant_name CouplingParamters_default)
         (config_file CouplingParamters_default) (this_mpi_process D) (n_mpi_processes D)
         = Inl e \<longrightarrow>
      main P D = Some (Inl (External e))) \<and>
   (\<forall>lp0 x. MPI_InitFinalize D 1 = Inr () \<and>
      LaplaceProblem_new P D = Inr lp0 \<and>
      run P D main_dimension lp0 = Some (Inl x) \<longrightarrow>
      main P D = Some (Inl x)) \<and>
   (\<forall>lp0 lp1 e. MPI_InitFinalize D 1 = Inr () \<and>
      LaplaceProblem_new P D = Inr lp0 \<and>
      run P D main_dimension lp0 = Some (Inr lp1) \<and>
      finalize P (precice (adapter lp1)) = Inl e \<longrightarrow>
      main P D = Some (Inl (External e)))"
  by (simp add: main_def LaplaceProblem_new_def Adapter_new_def Adapter_delete_def
      bindE_def ext_def)

lemma propagate_constructor_destructor:
  "(\<forall>e. SolverInterface_new P (participant_name ps) (config_file ps)
         (this_mpi_process D) (n_mpi_processes D) = Inl e \<longrightarrow>
      Adapter_new P D ps b = Inl (External e)) \<and>
   (\<forall>x. Adapter_new P D CouplingParamters_default 1 = Inl x \<longrightarrow>
      LaplaceProblem_new P D = Inl x) \<and>
   (\<forall>e. finalize P (precice a) = Inl e \<longrightarrow> Adapter_delete P a = Inl (External e))"
  by (simp add: Adapter_new_def LaplaceProblem_new_def Adapter_delete_def bindE_def ext_def)

lemma propagate_format:
  "(\<forall>x. deal_to_precice_loop (n_interface_nodes a) v 0 (coupling_dofs a) (write_data a)
         = Inl x \<longrightarrow>
      format_deal_to_precice a v = Inl x) \<and>
   (\<forall>x. precice_to_deal_loop (n_interface_nodes a) (read_data a) 0 (coupling_dofs a) p
         = Inl x \<longrightarrow>
      format_precice_to_deal a p = Inl x) \<and>
   (\<forall>x. int i < n \<and> i < length wd \<and> d < length v \<and>
      deal_to_precice_loop n v (Suc i) it (wd[i := v ! d]) = Inl x \<longrightarrow>
      deal_to_precice_loop n v i (d # it) wd = Inl x) \<and>
   (\<forall>x. int i < n \<and> i < length rd \<and> d < length p \<and>
      precice_to_deal_loop n rd (Suc i) it (p[d := rd ! i]) = Inl x \<longrightarrow>
      precice_to_deal_loop n rd i (d # it) p = Inl x) \<and>
   (\<forall>x. int i < n \<and> i < length rd \<and> pos < length data \<and>
      read_data_to_map_loop n rd (Suc i) (Suc pos) (map_assign (fst (data ! pos)) (rd ! i) data)
        = Inl x \<longrightarrow>
      read_data_to_map_loop n rd i pos data = Inl x)"
proof (intro conjI allI impI; (elim conjE)?)
  fix x
  assume "deal_to_precice_loop (n_interface_nodes a) v 0 (coupling_dofs a) (write_data a)
         = Inl x"
  then show "format_deal_to_precice a v = Inl x"
    by (simp add: format_deal_to_precice_def bindE_def)
next
  fix x
  assume "precice_to_deal_loop (n_interface_nodes a) (read_data a) 0 (coupling_dofs a) p
         = Inl x"
  then show "format_precice_to_deal a p = Inl x"
    by (simp add: format_precice_to_deal_def bindE_def)
next
  fix x
  assume "int i < n" "i < length wd" "d < length v"
    "deal_to_precice_loop n v (Suc i) it (wd[i := v ! d]) = Inl x"
  then show "deal_to_precice_loop n v i (d # it) wd = Inl x"
    by (simp add: deal_to_precice_loop_step)
next
  fix x
  assume "int i < n" "i < length rd" "d < length p"
    "precice_to_deal_loop n rd (Suc i) it (p[d := rd ! i]) = Inl x"
  then show "precice_to_deal_loop n rd i (d # it) p = Inl x"
    by (simp add: precice_to_deal_loop_step)
next
  fix x
  assume "int i < n" "i < length rd" "pos < length data"
    "read_data_to_map_loop n rd (Suc i) (Suc pos) (map_assign (fst (data ! pos)) (rd ! i) data)
        = Inl x"
  then show "read_data_to_map_loop n rd i pos data = Inl x"
    by (subst read_data_to_map_loop.simps) simp
qed

lemma demo_failing_new: "LaplaceProblem_new demo_failing_precice demo_dealii = Inr demo_problem"
  by (simp add: LaplaceProblem_new_def Adapter_new_def demo_failing_precice_def
      demo_precice_def demo_dealii_def
      demo_problem_def demo_new_adapter_def CouplingParamters_default_def bindE_def ext_def)

lemma demo_failing_initialize:
  "adapter_initialize demo_failing_precice demo_dealii 2
     ((make_grid 2 demo_problem)\<lparr>dof_handler := 4, system_matrix := (),
              solution := [0, 0, 0, 0], dummy_vector := [0, 0, 0, 0],
              system_rhs := [0, 0, 0, 0]\<rparr>)
     = Inr (demo_state 2 [0, 0, 0, 0] [0, 0] [])"
  by (simp add: demo_failing_precice_def demo_defs eval_defs)

lemma demo_failing_exchange:
  "adapter_advance demo_failing_precice (demo_state 2 [0, 5, 0, 6] [0, 0]
       [(''solution-2d.vtk'', [0, 5, 0, 6])])
     = Inl (External ''connection lost'')"
  by (simp add: demo_failing_precice_def demo_defs eval_defs)


text \<open>
  Claim C6.  The failures of the program are those of the libraries, handed on
  unchanged.  First, under the configuration of the program, where the dimension is two
  and the coupling library reports the same dimension, no failure of \<^verbatim>\<open>main\<close>, of
  \<^verbatim>\<open>run\<close> or of \<^verbatim>\<open>Adapter::initialize\<close> is an assertion of the repository; and when
  \<^verbatim>\<open>read_data\<close> and \<^verbatim>\<open>write_data\<close> hold \<open>n_interface_nodes\<close> values, no failure of the
  two format functions or of \<^verbatim>\<open>Adapter::advance\<close> is one.  Second, at every call that
  a function of the repository makes, of a library or of another function of the
  repository, once the calls before it have succeeded, the failure of the call is the
  failure of the function: that of a library as the value \<open>External e\<close> that it gave,
  that of a function of the repository as it is.  The calls are those of \<^verbatim>\<open>main\<close>,
  of \<^verbatim>\<open>run\<close> and of the member functions of the problem; of \<^verbatim>\<open>Adapter::initialize\<close>
  and \<^verbatim>\<open>Adapter::advance\<close> and of their blocks, the calls of the format functions and
  of the loop that stores the values read among them; of the constructors and the
  destructor; and of the format functions and the three loops themselves, where a failure
  in a later pass of a loop is the failure of the loop.  One call has no failure to hand
  on: \<^verbatim>\<open>setMeshVertices\<close> fills a buffer that \<^verbatim>\<open>initialize\<close> has just resized.
\<close>

theorem failures_are_the_libraries:
  fixes P :: "('p, 'e) precice_api" and D :: "('h, 'm, 'f, 'e) dealii_api"
    and lp :: "('p, 'h, 'm, 'f) LaplaceProblem" and a :: "'p Adapter"
  assumes "\<forall>p d. getDimensions P p = Inr d \<longrightarrow> d = 2"
  shows
  "((\<forall>x. main P D = Some (Inl x) \<longrightarrow> \<not> repository_assertion x) \<and>
    (\<forall>x. run P D 2 lp = Some (Inl x) \<longrightarrow> \<not> repository_assertion x) \<and>
    (\<forall>x. Adapter_initialize P D 2 a h T v p data = Inl x \<longrightarrow> \<not> repository_assertion x) \<and>
    (\<forall>x. sized a \<and> format_deal_to_precice a v = (Inl x :: 'e failure + 'p Adapter) \<longrightarrow>
       \<not> repository_assertion x) \<and>
    (\<forall>x. sized a \<and>
       format_precice_to_deal a p = (Inl x :: 'e failure + 'p Adapter \<times> real list) \<longrightarrow>
       \<not> repository_assertion x) \<and>
    (\<forall>x. sized a \<and> Adapter_advance P a v p dt data = Inl x \<longrightarrow>
       \<not> repository_assertion x)) \<and>
   ((\<forall>e. MPI_InitFinalize D 1 = Inl e \<longrightarrow> main P D = Some (Inl (External e))) \<and>
      (\<forall>e. MPI_InitFinalize D 1 = Inr () \<and>
         SolverInterface_new P (participant_name CouplingParamters_default)
            (config_file CouplingParamters_default) (this_mpi_process D) (n_mpi_processes D)
            = Inl e \<longrightarrow>
         main P D = Some (Inl (External e))) \<and>
      (\<forall>lp0 x. MPI_InitFinalize D 1 = Inr () \<and>
         LaplaceProblem_new P D = Inr lp0 \<and>
         run P D main_dimension lp0 = Some (Inl x) \<longrightarrow>
         main P D = Some (Inl x)) \<and>
      (\<forall>lp0 lp1 e. MPI_InitFinalize D 1 = Inr () \<and>
         LaplaceProblem_new P D = Inr lp0 \<and>
         run P D main_dimension lp0 = Some (Inr lp1) \<and>
         finalize P (precice (adapter lp1)) = Inl e \<longrightarrow>
         main P D = Some (Inl (External e)))) \<and>
   ((\<forall>x. setup_system D (make_grid dm lp) = Inl x \<longrightarrow> run P D dm lp = Some (Inl x)) \<and>
      (\<forall>lp1 x. setup_system D (make_grid dm lp) = Inr lp1 \<and>
         adapter_initialize P D dm lp1 = Inl x \<longrightarrow>
         run P D dm lp = Some (Inl x)) \<and>
      (\<forall>lp1 lp2 k lp3.
         setup_system D (make_grid dm lp) = Inr lp1 \<and>
         adapter_initialize P D dm lp1 = Inr lp2 \<and>
         coupling_iterations P D dm k lp2 lp3 \<longrightarrow>
         (\<forall>e. isCouplingOngoing P (precice (adapter lp3)) = Inl e \<longrightarrow>
            run P D dm lp = Some (Inl (External e))) \<and>
         (isCouplingOngoing P (precice (adapter lp3)) = Inr True \<longrightarrow>
            (\<forall>x. assemble_system D dm lp3 = Inl x \<longrightarrow> run P D dm lp = Some (Inl x)) \<and>
            (\<forall>assembled x. assemble_system D dm lp3 = Inr assembled \<and>
               solve D assembled = Inl x \<longrightarrow>
               run P D dm lp = Some (Inl x)) \<and>
            (\<forall>assembled solved x. assemble_system D dm lp3 = Inr assembled \<and>
               solve D assembled = Inr solved \<and>
               output_results D dm solved = Inl x \<longrightarrow>
               run P D dm lp = Some (Inl x)) \<and>
            (\<forall>assembled solved written x. assemble_system D dm lp3 = Inr assembled \<and>
               solve D assembled = Inr solved \<and>
               output_results D dm solved = Inr written \<and>
               adapter_advance P written = Inl x \<longrightarrow>
               run P D dm lp = Some (Inl x))))) \<and>
   ((\<forall>e. distribute_dofs D (dof_handler lp) (triangulation lp) 1 = Inl e \<longrightarrow>
         setup_system D lp = Inl (External e)) \<and>
      (\<forall>h e. distribute_dofs D (dof_handler lp) (triangulation lp) 1 = Inr h \<and>
         make_sparsity_pattern D h (triangulation lp) = Inl e \<longrightarrow>
         setup_system D lp = Inl (External e))) \<and>
   ((\<forall>e. assemble_cells D (dof_handler lp) (triangulation lp) (RightHandSide_value dm)
            (system_matrix lp) (system_rhs lp) = Inl e \<longrightarrow>
         assemble_system D dm lp = Inl (External e)) \<and>
      (\<forall>m rhs e. assemble_cells D (dof_handler lp) (triangulation lp) (RightHandSide_value dm)
            (system_matrix lp) (system_rhs lp) = Inr (m, rhs) \<and>
         interpolate_boundary_values D (dof_handler lp) (triangulation lp) 0
            BoundaryValues_value = Inl e \<longrightarrow>
         assemble_system D dm lp = Inl (External e)) \<and>
      (\<forall>m rhs boundary_values e.
         assemble_cells D (dof_handler lp) (triangulation lp) (RightHandSide_value dm)
            (system_matrix lp) (system_rhs lp) = Inr (m, rhs) \<and>
         interpolate_boundary_values D (dof_handler lp) (triangulation lp) 0
            BoundaryValues_value = Inr boundary_values \<and>
         apply_boundary_values D boundary_values m (solution lp) rhs = Inl e \<longrightarrow>
         assemble_system D dm lp = Inl (External e)) \<and>
      (\<forall>m rhs boundary_values m' sol rhs' e.
         assemble_cells D (dof_handler lp) (triangulation lp) (RightHandSide_value dm)
            (system_matrix lp) (system_rhs lp) = Inr (m, rhs) \<and>
         interpolate_boundary_values D (dof_handler lp) (triangulation lp) 0
            BoundaryValues_value = Inr boundary_values \<and>
         apply_boundary_values D boundary_values m (solution lp) rhs = Inr (m', sol, rhs') \<and>
         apply_boundary_values D (boundary_data lp) m' sol rhs' = Inl e \<longrightarrow>
         assemble_system D dm lp = Inl (External e))) \<and>
   ((\<forall>e. SolverCG_solve D 1000 (1 / 10 ^ 12) (system_matrix lp) (solution lp) (system_rhs lp)
            = Inl e \<longrightarrow>
         solve D lp = Inl (External e)) \<and>
      (\<forall>e. write_vtk D (dof_handler lp) (triangulation lp) (solution lp) = Inl e \<longrightarrow>
         output_results D dm lp = Inl (External e))) \<and>
   ((\<forall>x. Adapter_initialize P D dm (adapter lp) (dof_handler lp) (triangulation lp)
            (solution lp) (dummy_vector lp) (boundary_data lp) = Inl x \<longrightarrow>
         adapter_initialize P D dm lp = Inl x) \<and>
      (\<forall>x. Adapter_advance P (adapter lp) (solution lp) (dummy_vector lp) 1 (boundary_data lp)
            = Inl x \<longrightarrow>
         adapter_advance P lp = Inl x)) \<and>
   (1 < dm \<longrightarrow>
      (\<forall>e. getDimensions P (precice a) = Inl e \<longrightarrow>
         Adapter_initialize P D dm a h T v p data = Inl (External e)) \<and>
      (getDimensions P (precice a) = Inr (int dm) \<longrightarrow>
         (\<forall>x. initialize_ids P a = Inl x \<longrightarrow>
            Adapter_initialize P D dm a h T v p data = Inl x) \<and>
         (\<forall>a1 x. initialize_ids P a = Inr a1 \<and>
            initialize_mesh P D dm a1 h T data = Inl x \<longrightarrow>
            Adapter_initialize P D dm a h T v p data = Inl x) \<and>
         (\<forall>a1 a2 d2 x. initialize_ids P a = Inr a1 \<and>
            initialize_mesh P D dm a1 h T data = Inr (a2, d2) \<and>
            write_initial_data P a2 v = Inl x \<longrightarrow>
            Adapter_initialize P D dm a h T v p data = Inl x) \<and>
         (\<forall>a1 a2 d2 a3 e. initialize_ids P a = Inr a1 \<and>
            initialize_mesh P D dm a1 h T data = Inr (a2, d2) \<and>
            write_initial_data P a2 v = Inr a3 \<and>
            initializeData P (precice a3) = Inl e \<longrightarrow>
            Adapter_initialize P D dm a h T v p data = Inl (External e)) \<and>
         (\<forall>a1 a2 d2 a3 q x. initialize_ids P a = Inr a1 \<and>
            initialize_mesh P D dm a1 h T data = Inr (a2, d2) \<and>
            write_initial_data P a2 v = Inr a3 \<and>
            initializeData P (precice a3) = Inr q \<and>
            read_coupling_data P (a3\<lparr>precice := q\<rparr>) p d2 = Inl x \<longrightarrow>
            Adapter_initialize P D dm a h T v p data = Inl x))) \<and>
   ((\<forall>e. getMeshID P (precice a) (adapter_mesh_name a) = Inl e \<longrightarrow>
         initialize_ids P a = Inl (External e)) \<and>
      (\<forall>i e. getMeshID P (precice a) (adapter_mesh_name a) = Inr i \<and>
         hasData P (precice a) (adapter_read_data_name a) i = Inl e \<longrightarrow>
         initialize_ids P a = Inl (External e)) \<and>
      (\<forall>i e. getMeshID P (precice a) (adapter_mesh_name a) = Inr i \<and>
         hasData P (precice a) (adapter_read_data_name a) i = Inr True \<and>
         getDataID P (precice a) (adapter_read_data_name a) i = Inl e \<longrightarrow>
         initialize_ids P a = Inl (External e)) \<and>
      (\<forall>i e. getMeshID P (precice a) (adapter_mesh_name a) = Inr i \<and>
         (hasData P (precice a) (adapter_read_data_name a) i = Inr False \<or>
          hasData P (precice a) (adapter_read_data_name a) i = Inr True \<and>
          (\<exists>j. getDataID P (precice a) (adapter_read_data_name a) i = Inr j)) \<and>
         hasData P (precice a) (adapter_write_data_name a) i = Inl e \<longrightarrow>
         initialize_ids P a = Inl (External e)) \<and>
      (\<forall>i e. getMeshID P (precice a) (adapter_mesh_name a) = Inr i \<and>
         (hasData P (precice a) (adapter_read_data_name a) i = Inr False \<or>
          hasData P (precice a) (adapter_read_data_name a) i = Inr True \<and>
          (\<exists>j. getDataID P (precice a) (adapter_read_data_name a) i = Inr j)) \<and>
         hasData P (precice a) (adapter_write_data_name a) i = Inr True \<and>
         getDataID P (precice a) (adapter_write_data_name a) i = Inl e \<longrightarrow>
         initialize_ids P a = Inl (External e))) \<and>
   ((\<forall>e. extract_boundary_dofs D h T {deal_boundary_interface_id a} = Inl e \<longrightarrow>
         initialize_mesh P D dm a h T data = Inl (External e)) \<and>
      (\<forall>dofs e. extract_boundary_dofs D h T {deal_boundary_interface_id a} = Inr dofs \<and>
         map_dofs_to_support_points D h T = Inl e \<longrightarrow>
         initialize_mesh P D dm a h T data = Inl (External e)) \<and>
      (\<forall>dofs support_points e.
         extract_boundary_dofs D h T {deal_boundary_interface_id a} = Inr dofs \<and>
         map_dofs_to_support_points D h T = Inr support_points \<and>
         setMeshVertices P (precice a) (mesh_id a) (int (length dofs))
           (interface_positions dm support_points dofs (replicate (dm * length dofs) 0)) = Inl e \<longrightarrow>
         initialize_mesh P D dm a h T data = Inl (External e)) \<and>
      (\<forall>dofs support_points q ids e.
         extract_boundary_dofs D h T {deal_boundary_interface_id a} = Inr dofs \<and>
         map_dofs_to_support_points D h T = Inr support_points \<and>
         setMeshVertices P (precice a) (mesh_id a) (int (length dofs))
           (interface_positions dm support_points dofs (replicate (dm * length dofs) 0))
           = Inr (q, ids) \<and>
         precice_initialize P q = Inl e \<longrightarrow>
         initialize_mesh P D dm a h T data = Inl (External e))) \<and>
   ((\<forall>e. isActionRequired P (precice a) (actionWriteInitialData P) = Inl e \<longrightarrow>
         write_initial_data P a v = Inl (External e)) \<and>
      (\<forall>a1 e. isActionRequired P (precice a) (actionWriteInitialData P) = Inr True \<and>
         format_deal_to_precice a v = (Inr a1 :: 'e failure + 'p Adapter) \<and>
         writeBlockScalarData P (precice a1) (write_data_id a1) (n_interface_nodes a1)
           (interface_nodes_ids a1) (write_data a1) = Inl e \<longrightarrow>
         write_initial_data P a v = Inl (External e)) \<and>
      (\<forall>a1 q e. isActionRequired P (precice a) (actionWriteInitialData P) = Inr True \<and>
         format_deal_to_precice a v = (Inr a1 :: 'e failure + 'p Adapter) \<and>
         writeBlockScalarData P (precice a1) (write_data_id a1) (n_interface_nodes a1)
           (interface_nodes_ids a1) (write_data a1) = Inr q \<and>
         markActionFulfilled P q (actionWriteInitialData P) = Inl e \<longrightarrow>
         write_initial_data P a v = Inl (External e)) \<and>
      (\<forall>x. isActionRequired P (precice a) (actionWriteInitialData P) = Inr True \<and>
         format_deal_to_precice a v = Inl x \<longrightarrow>
         write_initial_data P a v = Inl x)) \<and>
   ((\<forall>x. write_coupling_data P a v dt = Inl x \<longrightarrow>
         Adapter_advance P a v p dt data = Inl x) \<and>
      (\<forall>a1 e. write_coupling_data P a v dt = Inr a1 \<and>
         precice_advance P (precice a1) dt = Inl e \<longrightarrow>
         Adapter_advance P a v p dt data = Inl (External e)) \<and>
      (\<forall>a1 q x. write_coupling_data P a v dt = Inr a1 \<and>
         precice_advance P (precice a1) dt = Inr q \<and>
         read_coupling_data P (a1\<lparr>precice := q\<rparr>) p data = Inl x \<longrightarrow>
         Adapter_advance P a v p dt data = Inl x)) \<and>
   ((\<forall>e. hasData P (precice a) (adapter_write_data_name a) (mesh_id a) = Inl e \<longrightarrow>
         write_coupling_data P a v dt = Inl (External e)) \<and>
      (\<forall>e. hasData P (precice a) (adapter_write_data_name a) (mesh_id a) = Inr True \<and>
         isWriteDataRequired P (precice a) dt = Inl e \<longrightarrow>
         write_coupling_data P a v dt = Inl (External e)) \<and>
      (\<forall>a1 e. hasData P (precice a) (adapter_write_data_name a) (mesh_id a) = Inr True \<and>
         isWriteDataRequired P (precice a) dt = Inr True \<and>
         format_deal_to_precice a v = (Inr a1 :: 'e failure + 'p Adapter) \<and>
         writeBlockScalarData P (precice a1) (write_data_id a1) (n_interface_nodes a1)
           (interface_nodes_ids a1) (write_data a1) = Inl e \<longrightarrow>
         write_coupling_data P a v dt = Inl (External e)) \<and>
      (\<forall>x. hasData P (precice a) (adapter_write_data_name a) (mesh_id a) = Inr True \<and>
         isWriteDataRequired P (precice a) dt = Inr True \<and>
         format_deal_to_precice a v = Inl x \<longrightarrow>
         write_coupling_data P a v dt = Inl x)) \<and>
   ((\<forall>e. isReadDataAvailable P (precice a) = Inl e \<longrightarrow>
         read_coupling_data P a p data = Inl (External e)) \<and>
      (\<forall>e. isReadDataAvailable P (precice a) = Inr True \<and>
         readBlockScalarData P (precice a) (read_data_id a) (n_interface_nodes a)
           (interface_nodes_ids a) = Inl e \<longrightarrow>
         read_coupling_data P a p data = Inl (External e)) \<and>
      (\<forall>vs x. isReadDataAvailable P (precice a) = Inr True \<and>
         readBlockScalarData P (precice a) (read_data_id a) (n_interface_nodes a)
           (interface_nodes_ids a) = Inr vs \<and>
         write_block (nat (n_interface_nodes a)) vs (read_data a) = Inl x \<longrightarrow>
         read_coupling_data P a p data = Inl x) \<and>
      (\<forall>vs rd x. isReadDataAvailable P (precice a) = Inr True \<and>
         readBlockScalarData P (precice a) (read_data_id a) (n_interface_nodes a)
           (interface_nodes_ids a) = Inr vs \<and>
         write_block (nat (n_interface_nodes a)) vs (read_data a)
           = (Inr rd :: 'e failure + real list) \<and>
         read_data_to_map_loop (n_interface_nodes a) rd 0 0 data = Inl x \<longrightarrow>
         read_coupling_data P a p data = Inl x) \<and>
      (\<forall>vs rd data1 x. isReadDataAvailable P (precice a) = Inr True \<and>
         readBlockScalarData P (precice a) (read_data_id a) (n_interface_nodes a)
           (interface_nodes_ids a) = Inr vs \<and>
         write_block (nat (n_interface_nodes a)) vs (read_data a)
           = (Inr rd :: 'e failure + real list) \<and>
         read_data_to_map_loop (n_interface_nodes a) rd 0 0 data
           = (Inr data1 :: 'e failure + dof_map) \<and>
         format_precice_to_deal (a\<lparr>read_data := rd\<rparr>) p = Inl x \<longrightarrow>
         read_coupling_data P a p data = Inl x)) \<and>
   ((\<forall>e. SolverInterface_new P (participant_name ps) (config_file ps)
            (this_mpi_process D) (n_mpi_processes D) = Inl e \<longrightarrow>
         Adapter_new P D ps b = Inl (External e)) \<and>
      (\<forall>x. Adapter_new P D CouplingParamters_default 1 = Inl x \<longrightarrow>
         LaplaceProblem_new P D = Inl x) \<and>
      (\<forall>e. finalize P (precice a) = Inl e \<longrightarrow> Adapter_delete P a = Inl (External e))) \<and>
   ((\<forall>x. deal_to_precice_loop (n_interface_nodes a) v 0 (coupling_dofs a) (write_data a)
            = Inl x \<longrightarrow>
         format_deal_to_precice a v = Inl x) \<and>
      (\<forall>x. precice_to_deal_loop (n_interface_nodes a) (read_data a) 0 (coupling_dofs a) p
            = Inl x \<longrightarrow>
         format_precice_to_deal a p = Inl x) \<and>
      (\<forall>x. int i < n \<and> i < length wd \<and> d < length v \<and>
         deal_to_precice_loop n v (Suc i) it (wd[i := v ! d]) = Inl x \<longrightarrow>
         deal_to_precice_loop n v i (d # it) wd = Inl x) \<and>
      (\<forall>x. int i < n \<and> i < length rd \<and> d < length p \<and>
         precice_to_deal_loop n rd (Suc i) it (p[d := rd ! i]) = Inl x \<longrightarrow>
         precice_to_deal_loop n rd i (d # it) p = Inl x) \<and>
      (\<forall>x. int i < n \<and> i < length rd \<and> pos < length data \<and>
         read_data_to_map_loop n rd (Suc i) (Suc pos) (map_assign (fst (data ! pos)) (rd ! i) data)
           = Inl x \<longrightarrow>
         read_data_to_map_loop n rd i pos data = Inl x))"
proof -
  from assms have dims: "\<forall>p d. getDimensions P p = Inr d \<longrightarrow> d = int 2" by simp
  have A: "(\<forall>x. main P D = Some (Inl x) \<longrightarrow> \<not> repository_assertion x) \<and>
    (\<forall>x. run P D 2 lp = Some (Inl x) \<longrightarrow> \<not> repository_assertion x) \<and>
    (\<forall>x. Adapter_initialize P D 2 a h T v p data = Inl x \<longrightarrow> \<not> repository_assertion x) \<and>
    (\<forall>x. sized a \<and> format_deal_to_precice a v = (Inl x :: 'e failure + 'p Adapter) \<longrightarrow>
       \<not> repository_assertion x) \<and>
    (\<forall>x. sized a \<and>
       format_precice_to_deal a p = (Inl x :: 'e failure + 'p Adapter \<times> real list) \<longrightarrow>
       \<not> repository_assertion x) \<and>
    (\<forall>x. sized a \<and> Adapter_advance P a v p dt data = Inl x \<longrightarrow>
       \<not> repository_assertion x)"
  proof (intro conjI allI impI)
    fix x assume "main P D = Some (Inl x)"
    from main_never_asserts[OF this assms] show "\<not> repository_assertion x" .
  next
    fix x assume "run P D 2 lp = Some (Inl x)"
    from run_never_asserts[OF this _ dims] show "\<not> repository_assertion x" by simp
  next
    fix x assume "Adapter_initialize P D 2 a h T v p data = Inl x"
    from Adapter_initialize_Inl[OF this] dims show "\<not> repository_assertion x" by simp
  next
    fix x :: "'e failure"
    assume "sized a \<and> format_deal_to_precice a v = (Inl x :: 'e failure + 'p Adapter)"
    then show "\<not> repository_assertion x"
      by (auto simp: sized_def dest: format_deal_to_precice_Inl)
  next
    fix x :: "'e failure"
    assume "sized a \<and>
       format_precice_to_deal a p = (Inl x :: 'e failure + 'p Adapter \<times> real list)"
    then show "\<not> repository_assertion x"
      by (auto simp: sized_def dest: format_precice_to_deal_Inl)
  next
    fix x assume "sized a \<and> Adapter_advance P a v p dt data = Inl x"
    then show "\<not> repository_assertion x"
      by (auto simp: sized_def dest: Adapter_advance_Inl)
  qed
  show ?thesis
    by (rule conjI[OF A
      conjI[OF propagate_main
      conjI[OF propagate_run
      conjI[OF propagate_setup_system
      conjI[OF propagate_assemble_system
      conjI[OF propagate_solve_output
      conjI[OF propagate_adapter_calls
      conjI[OF propagate_Adapter_initialize
      conjI[OF propagate_initialize_ids
      conjI[OF propagate_initialize_mesh
      conjI[OF propagate_write_initial_data
      conjI[OF propagate_Adapter_advance
      conjI[OF propagate_write_coupling_data
      conjI[OF propagate_read_coupling_data
      conjI[OF propagate_constructor_destructor
      propagate_format]]]]]]]]]]]]]]])
qed

theorem failures_are_the_libraries_witness:
  "main demo_failing_precice demo_dealii = Some (Inl (External ''connection lost'')) \<and>
   \<not> repository_assertion (External ''connection lost'' :: string failure)"
proof -
  have dims: "\<forall>p d. getDimensions demo_failing_precice p = Inr d \<longrightarrow> d = 2"
    by (simp add: demo_failing_precice_def demo_precice_def)
  note T = failures_are_the_libraries[OF dims, where D = demo_dealii and dm = 2
      and lp = demo_problem]
  have o: "isCouplingOngoing demo_failing_precice
      (precice (adapter (demo_state 2 [0, 0, 0, 0] [0, 0] []))) = Inr True"
    by (simp add: demo_failing_precice_def demo_defs)
  have as: "assemble_system demo_dealii 2 (demo_state 2 [0, 0, 0, 0] [0, 0] [])
      = Inr (demo_state 2 [0, 5, 0, 6] [0, 0] [])"
    by (simp add: demo_assemble)
  have out: "output_results demo_dealii 2 (demo_state 2 [0, 5, 0, 6] [0, 0] [])
      = Inr (demo_state 2 [0, 5, 0, 6] [0, 0] [(''solution-2d.vtk'', [0, 5, 0, 6])])"
    by (simp add: demo_output)
  note c = coupling_iterations.no_iteration[of demo_failing_precice demo_dealii 2
      "demo_state 2 [0, 0, 0, 0] [0, 0] []"]
  note run_part = T[THEN conjunct2, THEN conjunct2, THEN conjunct1, THEN conjunct2,
      THEN conjunct2, rule_format]
  have "setup_system demo_dealii (make_grid 2 demo_problem)
          = Inr ((make_grid 2 demo_problem)\<lparr>dof_handler := 4, system_matrix := (),
              solution := [0, 0, 0, 0], dummy_vector := [0, 0, 0, 0],
              system_rhs := [0, 0, 0, 0]\<rparr>) \<and>
      adapter_initialize demo_failing_precice demo_dealii 2
          ((make_grid 2 demo_problem)\<lparr>dof_handler := 4, system_matrix := (),
              solution := [0, 0, 0, 0], dummy_vector := [0, 0, 0, 0],
              system_rhs := [0, 0, 0, 0]\<rparr>)
          = Inr (demo_state 2 [0, 0, 0, 0] [0, 0] []) \<and>
      coupling_iterations demo_failing_precice demo_dealii 2 0
        (demo_state 2 [0, 0, 0, 0] [0, 0] []) (demo_state 2 [0, 0, 0, 0] [0, 0] [])"
    using demo_setup demo_failing_initialize c by simp
  note after = run_part[OF this, THEN conjunct2, rule_format, OF o, THEN conjunct2,
      THEN conjunct2, THEN conjunct2, rule_format]
  have "assemble_system demo_dealii 2 (demo_state 2 [0, 0, 0, 0] [0, 0] [])
          = Inr (demo_state 2 [0, 5, 0, 6] [0, 0] []) \<and>
      solve demo_dealii (demo_state 2 [0, 5, 0, 6] [0, 0] [])
          = Inr (demo_state 2 [0, 5, 0, 6] [0, 0] []) \<and>
      output_results demo_dealii 2 (demo_state 2 [0, 5, 0, 6] [0, 0] [])
          = Inr (demo_state 2 [0, 5, 0, 6] [0, 0] [(''solution-2d.vtk'', [0, 5, 0, 6])]) \<and>
      adapter_advance demo_failing_precice
          (demo_state 2 [0, 5, 0, 6] [0, 0] [(''solution-2d.vtk'', [0, 5, 0, 6])])
          = Inl (External ''connection lost'')"
    using as demo_solve out demo_failing_exchange by simp
  from after[OF this]
  have r: "run demo_failing_precice demo_dealii 2 demo_problem
      = Some (Inl (External ''connection lost''))" .
  note main_part = T[THEN conjunct2, THEN conjunct1, THEN conjunct2, THEN conjunct2,
      THEN conjunct1, rule_format]
  from r demo_failing_new
  have "MPI_InitFinalize demo_dealii 1 = Inr () \<and>
      LaplaceProblem_new demo_failing_precice demo_dealii = Inr demo_problem \<and>
      run demo_failing_precice demo_dealii main_dimension demo_problem
        = Some (Inl (External ''connection lost''))"
    by (simp add: main_dimension_def demo_dealii_def)
  from main_part[OF this]
  have m: "main demo_failing_precice demo_dealii = Some (Inl (External ''connection lost''))" .
  from T[THEN conjunct1, THEN conjunct1, rule_format, OF m]
  have "\<not> repository_assertion (External ''connection lost'' :: string failure)" .
  with m show ?thesis by simp
qed

end
